theory Spec2Isabelle
  imports Main
begin

section \<open>JavaScript values\<close>

text \<open>
  The upstream payloads are JSON objects whose members are numbers, strings, null or
  absent. Numbers are the integral identifiers and timestamps of the catalogues, so
  they are integers here; an absent member reads as \<open>undefined\<close>.
  Text that the program only stores, compares and concatenates is a \<open>string\<close>.
\<close>

datatype jsval = JUndefined | JNull | JNum int | JStr string

type_synonym jsobj = "(string \<times> jsval) list"

text \<open>Property access \<open>o.k\<close>: \<open>undefined\<close> when the object has no such member.\<close>

definition jsget :: "jsobj \<Rightarrow> string \<Rightarrow> jsval" where
  "jsget ob k = (case map_of ob k of None \<Rightarrow> JUndefined | Some v \<Rightarrow> v)"

text \<open>An object literal member \<open>k: v\<close> written after a spread: the later write wins.\<close>

definition jsset :: "string \<Rightarrow> jsval \<Rightarrow> jsobj \<Rightarrow> jsobj" where
  "jsset k v ob = (k, v) # filter (\<lambda>kv. fst kv \<noteq> k) ob"

definition digit_char :: "nat \<Rightarrow> char" where
  "digit_char d = ''0123456789'' ! d"

fun digits10 :: "nat \<Rightarrow> string" where
  "digits10 n = (if n < 10 then [digit_char n] else digits10 (n div 10) @ [digit_char (n mod 10)])"

declare digits10.simps [simp del]

definition number_to_string :: "int \<Rightarrow> string" where
  "number_to_string i = (if i < 0 then CHR ''-'' # digits10 (nat (- i)) else digits10 (nat i))"

text \<open>\<open>String(v)\<close> and the conversion a template literal applies to \<open>${v}\<close>.\<close>

fun js_String :: "jsval \<Rightarrow> string" where
  "js_String JUndefined = ''undefined''"
| "js_String JNull = ''null''"
| "js_String (JNum i) = number_to_string i"
| "js_String (JStr s) = s"

fun truthy :: "jsval \<Rightarrow> bool" where
  "truthy JUndefined = False"
| "truthy JNull = False"
| "truthy (JNum i) = (i \<noteq> 0)"
| "truthy (JStr s) = (s \<noteq> [])"

text \<open>\<open>a || b\<close>\<close>

definition js_or :: "jsval \<Rightarrow> jsval \<Rightarrow> jsval" where
  "js_or a b = (if truthy a then a else b)"

text \<open>
  \<open>JSON.stringify\<close> leaves out the members whose value is \<open>undefined\<close>; the text
  it produces is kept as the object that \<open>JSON.parse\<close> reads back from it.
\<close>

definition JSON_stringify :: "jsobj \<Rightarrow> jsobj" where
  "JSON_stringify ob = filter (\<lambda>kv. snd kv \<noteq> JUndefined) ob"

section \<open>The store\<close>

text \<open>
  The tables of the SQLite store, each a list of rows in insertion order. Statements on
  the store are taken to succeed.
\<close>

text \<open>
  A parameter that is \<open>undefined\<close> is bound as NULL (the live mapping of \<open>saveStreams\<close>
  binds an unassigned \<open>container\<close> on every row).
\<close>

fun bind_param :: "jsval \<Rightarrow> jsval" where
  "bind_param JUndefined = JNull"
| "bind_param v = v"

text \<open>
  Modelled from the spec: the table declarations (the database module) are missing.
  The rows have the columns that the statements of the sync service and of the routes
  name. A column keeps the value that was bound to it, a column that an INSERT does not
  name is NULL, and a new row is not hidden: a freshly synced item is returned by the
  default read.
\<close>

record category_row =
  cat_id :: string
  cat_source_id :: int
  cat_category_id :: jsval
  cat_type :: string
  cat_name :: jsval
  cat_parent_id :: jsval
  cat_data :: jsobj
  cat_is_hidden :: bool

record playlist_row =
  it_id :: string
  it_source_id :: int
  it_item_id :: jsval
  it_type :: string
  it_name :: jsval
  it_category_id :: jsval
  it_stream_icon :: jsval
  it_stream_url :: jsval
  it_container_extension :: jsval
  it_rating :: jsval
  it_year :: jsval
  it_added_at :: jsval
  it_data :: jsobj
  it_is_hidden :: bool

text \<open>A parsed XMLTV programme; \<open>start\<close> and \<open>stop\<close> are dates (epoch milliseconds) or absent.\<close>

record programme =
  p_channelId :: jsval
  p_start :: "int option"
  p_stop :: "int option"
  p_title :: jsval
  p_description :: jsval
  p_desc :: jsval

record epg_row =
  ep_channel_id :: jsval
  ep_source_id :: int
  ep_start_time :: int
  ep_end_time :: int
  ep_title :: jsval
  ep_description :: jsval
  ep_data :: programme

record status_row =
  st_last_sync :: int
  st_status :: string
  st_error :: "string option"

text \<open>What a run leaves behind besides rows: committed transactions and yields to the event loop.\<close>

datatype event = Transaction nat | Yield

record state =
  activeSyncs :: "int set"
  categories :: "category_row list"
  playlist_items :: "playlist_row list"
  epg_programs :: "epg_row list"
  sync_status :: "int \<times> string \<rightharpoonup> status_row"
  date_now :: int
  trace :: "event list"

section \<open>Exceptions and external collaborators\<close>

datatype error = Error string

fun message :: "error \<Rightarrow> string" where
  "message (Error m) = m"

datatype 'a outcome = Returned 'a | Thrown error

type_synonym 'a prog = "state \<Rightarrow> 'a outcome \<times> state"

definition andThen :: "'a prog \<Rightarrow> ('a \<Rightarrow> 'b prog) \<Rightarrow> 'b prog" where
  "andThen m f s = (case m s of (Returned x, s') \<Rightarrow> f x s' | (Thrown e, s') \<Rightarrow> (Thrown e, s'))"

definition done_prog :: "'a \<Rightarrow> 'a prog" where
  "done_prog x s = (Returned x, s)"

definition throw :: "error \<Rightarrow> 'a prog" where
  "throw e s = (Thrown e, s)"

text \<open>\<open>await\<close> of a collaborator's promise: its rejection is thrown.\<close>

definition await :: "error + 'a \<Rightarrow> 'a prog" where
  "await r s = (case r of Inl e \<Rightarrow> (Thrown e, s) | Inr x \<Rightarrow> (Returned x, s))"

text \<open>A statement that only writes to the store.\<close>

definition exec :: "(state \<Rightarrow> state) \<Rightarrow> unit prog" where
  "exec f s = (Returned (), f s)"

definition tryCatch :: "'a prog \<Rightarrow> (error \<Rightarrow> 'a prog) \<Rightarrow> 'a prog" where
  "tryCatch m h s = (case m s of (Thrown e, s') \<Rightarrow> h e s' | (Returned x, s') \<Rightarrow> (Returned x, s'))"

definition tryFinally :: "'a prog \<Rightarrow> (state \<Rightarrow> state) \<Rightarrow> 'a prog" where
  "tryFinally m fin s = (case m s of (r, s') \<Rightarrow> (r, fin s'))"

record source =
  src_id :: int
  src_type :: string
  src_name :: string
  src_url :: string
  src_username :: jsval
  src_password :: jsval
  src_enabled :: bool

text \<open>The Xtream client built from a source: what each of its calls resolves or rejects with.\<close>

record xtream_api =
  getLiveCategories :: "error + jsobj list"
  getLiveStreams :: "error + jsobj list"
  getVodCategories :: "error + jsobj list"
  getVodStreams :: "error + jsobj list"
  getSeriesCategories :: "error + jsobj list"
  getSeries :: "error + jsobj list"
  getXmltvUrl :: "error + string"

record epg_feed =
  epg_channels :: "jsobj list"
  epg_programmes :: "programme list"

record m3u_feed =
  m3u_channels :: "jsobj list"
  m3u_groups :: "jsobj list"

text \<open>
  The collaborators of the service (the source configuration store, the Xtream client,
  the two streaming parsers), each given by the answers it returns.
\<close>

record world =
  sources_getAll :: "error + source list"
  sources_getById :: "int \<Rightarrow> error + source option"
  xtreamApi_createFromSource :: "source \<Rightarrow> xtream_api"
  epgParser_fetchAndParse :: "string \<Rightarrow> error + epg_feed"
  m3uParser_fetchAndParse :: "string \<Rightarrow> error + m3u_feed"

section \<open>The sync service\<close>

subsection \<open>updateSyncStatus\<close>

definition updateSyncStatus :: "int \<Rightarrow> string \<Rightarrow> string \<Rightarrow> string option \<Rightarrow> state \<Rightarrow> state" where
  "updateSyncStatus sourceId type status err s =
     s\<lparr>sync_status := (sync_status s)((sourceId, type) \<mapsto>
          \<lparr>st_last_sync = date_now s, st_status = status, st_error = err\<rparr>)\<rparr>"

subsection \<open>saveCategories\<close>

definition composite_id :: "int \<Rightarrow> jsval \<Rightarrow> string" where
  "composite_id sourceId itemId = number_to_string sourceId @ '':'' @ js_String itemId"

definition category_row_of :: "int \<Rightarrow> string \<Rightarrow> jsobj \<Rightarrow> category_row" where
  "category_row_of sourceId type cat =
     (let catId = jsget cat ''category_id'';
          name = jsget cat ''category_name''
      in \<lparr>cat_id = composite_id sourceId catId,
          cat_source_id = sourceId,
          cat_category_id = JStr (js_String catId),
          cat_type = type,
          cat_name = bind_param name,
          cat_parent_id = js_or (jsget cat ''parent_id'') JNull,
          cat_data = JSON_stringify cat,
          cat_is_hidden = False\<rparr>)"

text \<open>\<open>INSERT ... ON CONFLICT(id) DO UPDATE SET name, data\<close>\<close>

fun upsert_category :: "category_row \<Rightarrow> category_row list \<Rightarrow> category_row list" where
  "upsert_category r [] = [r]"
| "upsert_category r (x # xs) =
     (if cat_id x = cat_id r then x\<lparr>cat_name := cat_name r, cat_data := cat_data r\<rparr> # xs
      else x # upsert_category r xs)"

definition insertBatch_categories :: "int \<Rightarrow> string \<Rightarrow> jsobj list \<Rightarrow> state \<Rightarrow> state" where
  "insertBatch_categories sourceId type batch s =
     s\<lparr>categories := fold (\<lambda>cat. upsert_category (category_row_of sourceId type cat)) batch (categories s),
       trace := trace s @ [Transaction (length batch)]\<rparr>"

definition BATCH_SIZE :: nat where
  "BATCH_SIZE = 500"

text \<open>\<open>xs.slice(i, j)\<close> for \<open>0 \<le> i \<le> j\<close>\<close>

definition slice :: "nat \<Rightarrow> nat \<Rightarrow> 'a list \<Rightarrow> 'a list" where
  "slice i j xs = take (j - i) (drop i xs)"

definition yield :: "state \<Rightarrow> state" where
  "yield s = s\<lparr>trace := trace s @ [Yield]\<rparr>"

function saveCategories_loop :: "int \<Rightarrow> string \<Rightarrow> jsobj list \<Rightarrow> nat \<Rightarrow> state \<Rightarrow> state" where
  "saveCategories_loop sourceId type cats i s =
     (if i < length cats
      then saveCategories_loop sourceId type cats (i + BATCH_SIZE)
             (yield (insertBatch_categories sourceId type (slice i (i + BATCH_SIZE) cats) s))
      else s)"
  by pat_completeness auto
termination
  by (relation "measure (\<lambda>(sourceId, type, cats, i, s). length cats - i)") (auto simp: BATCH_SIZE_def)

declare saveCategories_loop.simps [simp del]

definition saveCategories :: "int \<Rightarrow> string \<Rightarrow> jsobj list \<Rightarrow> state \<Rightarrow> state" where
  "saveCategories sourceId type cats s =
     (if cats = [] then s else saveCategories_loop sourceId type cats 0 s)"

subsection \<open>saveStreams\<close>

record mapped =
  m_itemId :: jsval
  m_name :: jsval
  m_catId :: jsval
  m_icon :: jsval
  m_container :: jsval
  m_rating :: jsval
  m_year :: jsval
  m_added :: jsval

text \<open>The field mapping by type; a variable that no branch assigns stays \<open>undefined\<close>.\<close>

definition map_fields :: "string \<Rightarrow> jsobj \<Rightarrow> mapped" where
  "map_fields type item =
     (if type = ''live'' then
        \<lparr>m_itemId = jsget item ''stream_id'', m_name = jsget item ''name'',
         m_catId = jsget item ''category_id'', m_icon = jsget item ''stream_icon'',
         m_container = JUndefined, m_rating = JNull, m_year = JNull,
         m_added = jsget item ''added''\<rparr>
      else if type = ''movie'' then
        \<lparr>m_itemId = jsget item ''stream_id'', m_name = jsget item ''name'',
         m_catId = jsget item ''category_id'', m_icon = jsget item ''stream_icon'',
         m_container = jsget item ''container_extension'', m_rating = jsget item ''rating'',
         m_year = JNull, m_added = jsget item ''added''\<rparr>
      else if type = ''series'' then
        \<lparr>m_itemId = jsget item ''series_id'', m_name = jsget item ''name'',
         m_catId = jsget item ''category_id'', m_icon = jsget item ''cover'',
         m_container = JUndefined, m_rating = jsget item ''rating'',
         m_year = jsget item ''releaseDate'', m_added = jsget item ''last_modified''\<rparr>
      else
        \<lparr>m_itemId = JUndefined, m_name = JUndefined, m_catId = JUndefined, m_icon = JUndefined,
         m_container = JUndefined, m_rating = JNull, m_year = JNull, m_added = JNull\<rparr>)"

definition playlist_row_of :: "int \<Rightarrow> string \<Rightarrow> jsobj \<Rightarrow> playlist_row" where
  "playlist_row_of sourceId type item =
     (let m = map_fields type item
      in \<lparr>it_id = composite_id sourceId (m_itemId m),
          it_source_id = sourceId,
          it_item_id = JStr (js_String (m_itemId m)),
          it_type = type,
          it_name = bind_param (m_name m),
          it_category_id = JStr (js_String (m_catId m)),
          it_stream_icon = bind_param (m_icon m),
          it_stream_url = JNull,
          it_container_extension = bind_param (m_container m),
          it_rating = bind_param (m_rating m),
          it_year = bind_param (m_year m),
          it_added_at = bind_param (m_added m),
          it_data = JSON_stringify item,
          it_is_hidden = False\<rparr>)"

text \<open>
  \<open>INSERT ... ON CONFLICT(id) DO UPDATE SET name, category_id, stream_icon,
  container_extension, data\<close>
\<close>

fun upsert_item :: "playlist_row \<Rightarrow> playlist_row list \<Rightarrow> playlist_row list" where
  "upsert_item r [] = [r]"
| "upsert_item r (x # xs) =
     (if it_id x = it_id r
      then x\<lparr>it_name := it_name r, it_category_id := it_category_id r,
             it_stream_icon := it_stream_icon r,
             it_container_extension := it_container_extension r, it_data := it_data r\<rparr> # xs
      else x # upsert_item r xs)"

definition insertBatch :: "int \<Rightarrow> string \<Rightarrow> jsobj list \<Rightarrow> state \<Rightarrow> state" where
  "insertBatch sourceId type batch s =
     s\<lparr>playlist_items := fold (\<lambda>item. upsert_item (playlist_row_of sourceId type item)) batch (playlist_items s),
       trace := trace s @ [Transaction (length batch)]\<rparr>"

function saveStreams_loop :: "int \<Rightarrow> string \<Rightarrow> jsobj list \<Rightarrow> nat \<Rightarrow> state \<Rightarrow> state" where
  "saveStreams_loop sourceId type items i s =
     (if i < length items
      then saveStreams_loop sourceId type items (i + BATCH_SIZE)
             (yield (insertBatch sourceId type (slice i (i + BATCH_SIZE) items) s))
      else s)"
  by pat_completeness auto
termination
  by (relation "measure (\<lambda>(sourceId, type, items, i, s). length items - i)") (auto simp: BATCH_SIZE_def)

declare saveStreams_loop.simps [simp del]

definition saveStreams :: "int \<Rightarrow> string \<Rightarrow> jsobj list \<Rightarrow> state \<Rightarrow> state" where
  "saveStreams sourceId type items s =
     (if items = [] then s else saveStreams_loop sourceId type items 0 s)"

subsection \<open>syncEpgFromUrl\<close>

definition channel_row_of :: "int \<Rightarrow> jsobj \<Rightarrow> playlist_row" where
  "channel_row_of sourceId ch =
     \<lparr>it_id = composite_id sourceId (jsget ch ''id''),
      it_source_id = sourceId,
      it_item_id = bind_param (jsget ch ''id''),
      it_type = ''epg_channel'',
      it_name = bind_param (jsget ch ''name''),
      it_category_id = JNull,
      it_stream_icon = js_or (jsget ch ''icon'') JNull,
      it_stream_url = JNull,
      it_container_extension = JNull,
      it_rating = JNull,
      it_year = JNull,
      it_added_at = JNull,
      it_data = JSON_stringify ch,
      it_is_hidden = False\<rparr>"

text \<open>\<open>INSERT ... ON CONFLICT(id) DO UPDATE SET name, stream_icon, data\<close>\<close>

fun upsert_channel :: "playlist_row \<Rightarrow> playlist_row list \<Rightarrow> playlist_row list" where
  "upsert_channel r [] = [r]"
| "upsert_channel r (x # xs) =
     (if it_id x = it_id r
      then x\<lparr>it_name := it_name r, it_stream_icon := it_stream_icon r, it_data := it_data r\<rparr> # xs
      else x # upsert_channel r xs)"

definition insertChannels :: "int \<Rightarrow> jsobj list \<Rightarrow> state \<Rightarrow> state" where
  "insertChannels sourceId chanList s =
     s\<lparr>playlist_items := fold (\<lambda>ch. upsert_channel (channel_row_of sourceId ch)) chanList (playlist_items s),
       trace := trace s @ [Transaction (length chanList)]\<rparr>"

text \<open>\<open>DELETE FROM epg_programs WHERE source_id = ?\<close>\<close>

definition delete_programs :: "int \<Rightarrow> state \<Rightarrow> state" where
  "delete_programs sourceId s =
     s\<lparr>epg_programs := filter (\<lambda>r. ep_source_id r \<noteq> sourceId) (epg_programs s)\<rparr>"

definition epg_row_of :: "int \<Rightarrow> programme \<Rightarrow> epg_row" where
  "epg_row_of sourceId p =
     \<lparr>ep_channel_id = bind_param (p_channelId p),
      ep_source_id = sourceId,
      ep_start_time = (case p_start p of Some t \<Rightarrow> t | None \<Rightarrow> 0),
      ep_end_time = (case p_stop p of Some t \<Rightarrow> t | None \<Rightarrow> 0),
      ep_title = bind_param (p_title p),
      ep_description = bind_param (js_or (p_description p) (p_desc p)),
      ep_data = p\<rparr>"

definition insertMany :: "int \<Rightarrow> programme list \<Rightarrow> state \<Rightarrow> state" where
  "insertMany sourceId progs s =
     s\<lparr>epg_programs := epg_programs s @ map (epg_row_of sourceId) progs,
       trace := trace s @ [Transaction (length progs)]\<rparr>"

text \<open>The part of \<open>syncEpgFromUrl\<close> after the feed is parsed.\<close>

definition ingestEpg :: "int \<Rightarrow> jsobj list \<Rightarrow> programme list \<Rightarrow> state \<Rightarrow> state" where
  "ingestEpg sourceId channels programmes s =
     insertMany sourceId programmes (delete_programs sourceId (insertChannels sourceId channels s))"

definition syncEpgFromUrl :: "world \<Rightarrow> int \<Rightarrow> string \<Rightarrow> unit prog" where
  "syncEpgFromUrl w sourceId url =
     andThen (await (epgParser_fetchAndParse w url)) (\<lambda>feed.
       exec (ingestEpg sourceId (epg_channels feed) (epg_programmes feed)))"

subsection \<open>The sync routines\<close>

definition syncXtream :: "world \<Rightarrow> source \<Rightarrow> unit prog" where
  "syncXtream w source =
     (let api = xtreamApi_createFromSource w source in
      andThen (await (getLiveCategories api)) (\<lambda>liveCats.
      andThen (exec (saveCategories (src_id source) ''live'' liveCats)) (\<lambda>_.
      andThen (await (getLiveStreams api)) (\<lambda>liveStreams.
      andThen (exec (saveStreams (src_id source) ''live'' liveStreams)) (\<lambda>_.
      andThen (await (getVodCategories api)) (\<lambda>vodCats.
      andThen (exec (saveCategories (src_id source) ''movie'' vodCats)) (\<lambda>_.
      andThen (await (getVodStreams api)) (\<lambda>vodStreams.
      andThen (exec (saveStreams (src_id source) ''movie'' vodStreams)) (\<lambda>_.
      andThen (await (getSeriesCategories api)) (\<lambda>seriesCats.
      andThen (exec (saveCategories (src_id source) ''series'' seriesCats)) (\<lambda>_.
      andThen (await (getSeries api)) (\<lambda>series.
      andThen (exec (saveStreams (src_id source) ''series'' series)) (\<lambda>_.
      tryCatch
        (andThen (await (getXmltvUrl api)) (\<lambda>xmltvUrl.
           syncEpgFromUrl w (src_id source) xmltvUrl))
        (\<lambda>e. done_prog ()))))))))))))))"

definition m3u_category :: "jsobj \<Rightarrow> jsobj" where
  "m3u_category g =
     [(''category_id'', jsget g ''name''), (''category_name'', jsget g ''name''), (''parent_id'', JNull)]"

definition m3u_playlist_item :: "jsobj \<Rightarrow> jsobj" where
  "m3u_playlist_item ch =
     [(''stream_id'', jsget ch ''id''), (''name'', jsget ch ''name''),
      (''category_id'', js_or (jsget ch ''groupTitle'') (JStr ''Uncategorized'')),
      (''stream_icon'', jsget ch ''tvgLogo''), (''stream_url'', jsget ch ''url'')]"

definition syncM3u :: "world \<Rightarrow> source \<Rightarrow> unit prog" where
  "syncM3u w source =
     andThen (await (m3uParser_fetchAndParse w (src_url source))) (\<lambda>feed.
     andThen (exec (saveCategories (src_id source) ''live'' (map m3u_category (m3u_groups feed)))) (\<lambda>_.
     exec (saveStreams (src_id source) ''live'' (map m3u_playlist_item (m3u_channels feed)))))"

definition syncEpg :: "world \<Rightarrow> source \<Rightarrow> unit prog" where
  "syncEpg w source = syncEpgFromUrl w (src_id source) (src_url source)"

subsection \<open>syncSource and syncAll\<close>

text \<open>The dispatch on the source type; a source of any other type runs no routine.\<close>

definition sync_dispatch :: "world \<Rightarrow> source \<Rightarrow> unit prog" where
  "sync_dispatch w source =
     (if src_type source = ''xtream'' then syncXtream w source
      else if src_type source = ''m3u'' then syncM3u w source
      else if src_type source = ''epg'' then syncEpg w source
      else done_prog ())"

definition release :: "int \<Rightarrow> state \<Rightarrow> state" where
  "release sourceId s = s\<lparr>activeSyncs := activeSyncs s - {sourceId}\<rparr>"

definition not_found :: "int \<Rightarrow> error" where
  "not_found sourceId = Error (''Source '' @ number_to_string sourceId @ '' not found'')"

text \<open>The body of the \<open>try\<close> block.\<close>

definition syncSource_try :: "world \<Rightarrow> int \<Rightarrow> unit prog" where
  "syncSource_try w sourceId =
     andThen (await (sources_getById w sourceId)) (\<lambda>found.
       case found of
         None \<Rightarrow> throw (not_found sourceId)
       | Some source \<Rightarrow>
           if \<not> src_enabled source then exec (release sourceId)
           else
             andThen (exec (updateSyncStatus sourceId ''all'' ''syncing'' None)) (\<lambda>_.
             andThen (sync_dispatch w source) (\<lambda>_.
             exec (updateSyncStatus sourceId ''all'' ''success'' None))))"

text \<open>\<open>try { ... } catch (err) { ... } finally { activeSyncs.delete(sourceId) }\<close>\<close>

definition syncSource_run :: "world \<Rightarrow> int \<Rightarrow> unit prog" where
  "syncSource_run w sourceId =
     tryFinally
       (tryCatch (syncSource_try w sourceId)
          (\<lambda>err. exec (updateSyncStatus sourceId ''all'' ''error'' (Some (message err)))))
       (release sourceId)"

definition syncSource :: "world \<Rightarrow> int \<Rightarrow> unit prog" where
  "syncSource w sourceId s =
     (if sourceId \<in> activeSyncs s then (Returned (), s)
      else syncSource_run w sourceId (s\<lparr>activeSyncs := insert sourceId (activeSyncs s)\<rparr>))"

fun syncAll_loop :: "world \<Rightarrow> source list \<Rightarrow> unit prog" where
  "syncAll_loop w [] = done_prog ()"
| "syncAll_loop w (source # rest) =
     (if src_enabled source
      then andThen (syncSource w (src_id source)) (\<lambda>_. syncAll_loop w rest)
      else syncAll_loop w rest)"

definition syncAll :: "world \<Rightarrow> unit prog" where
  "syncAll w =
     tryCatch (andThen (await (sources_getAll w)) (\<lambda>allSources. syncAll_loop w allSources))
       (\<lambda>err. done_prog ())"

subsection \<open>Calls interleaved on the event loop\<close>

text \<open>
  Several calls of \<open>syncSource\<close> run interleaved: a call runs from its start to its
  first \<open>await\<close> in one turn (the membership test and the insertion are not separated
  by a suspension), and the active set is next touched when the call completes. The
  store writes of a running call are placed at its completion.
\<close>

datatype phase = Pending | Executing | Completed

inductive step :: "world \<Rightarrow> state \<times> (int \<times> phase) list \<Rightarrow> state \<times> (int \<times> phase) list \<Rightarrow> bool" where
  start: "i < length calls \<Longrightarrow> calls ! i = (sourceId, Pending) \<Longrightarrow> sourceId \<notin> activeSyncs s \<Longrightarrow>
     step w (s, calls)
       (s\<lparr>activeSyncs := insert sourceId (activeSyncs s)\<rparr>, calls[i := (sourceId, Executing)])"
| skip: "i < length calls \<Longrightarrow> calls ! i = (sourceId, Pending) \<Longrightarrow> sourceId \<in> activeSyncs s \<Longrightarrow>
     step w (s, calls) (s, calls[i := (sourceId, Completed)])"
| complete: "i < length calls \<Longrightarrow> calls ! i = (sourceId, Executing) \<Longrightarrow>
     step w (s, calls) (snd (syncSource_run w sourceId s), calls[i := (sourceId, Completed)])"

code_pred step .

inductive reachable :: "world \<Rightarrow> state \<times> (int \<times> phase) list \<Rightarrow> bool" where
  init: "activeSyncs s = {} \<Longrightarrow> reachable w (s, map (\<lambda>sourceId. (sourceId, Pending)) sourceIds)"
| later: "reachable w c \<Longrightarrow> step w c c' \<Longrightarrow> reachable w c'"

code_pred reachable .

definition executing :: "int \<Rightarrow> (int \<times> phase) list \<Rightarrow> nat" where
  "executing sourceId calls = length (filter (\<lambda>c. c = (sourceId, Executing)) calls)"

section \<open>The read paths of the proxy routes\<close>

subsection \<open>getStreamsFromDb\<close>

text \<open>
  The object literal of the row mapping: the members of the parsed \<open>data\<close> first, then
  the columns, each written over a member of the same name.
\<close>

definition stream_of_row :: "string \<Rightarrow> playlist_row \<Rightarrow> jsobj" where
  "stream_of_row type item =
     jsset ''category_id'' (it_category_id item)
    (jsset ''container_extension'' (it_container_extension item)
    (jsset ''rating'' (it_rating item)
    (jsset ''added'' (it_added_at item)
    (jsset ''cover'' (it_stream_icon item)
    (jsset ''stream_icon'' (it_stream_icon item)
    (jsset ''name'' (it_name item)
    (jsset ''series_id'' (if type = ''series'' then it_item_id item else JUndefined)
    (jsset ''stream_id'' (it_item_id item)
       (it_data item)))))))))"

text \<open>
  \<open>SELECT ... FROM playlist_items WHERE source_id = ? AND type = ? [AND is_hidden = 0]
  [AND category_id = ?]\<close>; the category condition is added when \<open>categoryId\<close> is truthy.
\<close>

definition getStreamsFromDb :: "state \<Rightarrow> int \<Rightarrow> string \<Rightarrow> jsval \<Rightarrow> bool \<Rightarrow> jsobj list" where
  "getStreamsFromDb s sourceId type categoryId includeHidden =
     map (stream_of_row type)
       (filter (\<lambda>r. it_source_id r = sourceId \<and> it_type r = type \<and>
                    (includeHidden \<or> \<not> it_is_hidden r) \<and>
                    (truthy categoryId \<longrightarrow> it_category_id r = categoryId))
          (playlist_items s))"

subsection \<open>GET /epg/:sourceId\<close>

text \<open>
  A programme of the response; \<open>start\<close> and \<open>stop\<close> are the stored epoch milliseconds,
  which the route prints as ISO-8601 text.
\<close>

record epg_view =
  v_channelId :: jsval
  v_start :: int
  v_stop :: int
  v_title :: jsval
  v_desc :: jsval

record epg_response =
  r_channels :: "jsobj list"
  r_programmes :: "epg_view list"

definition day_ms :: int where
  "day_ms = 24 * 60 * 60 * 1000"

definition epg_window :: "state \<Rightarrow> int \<Rightarrow> epg_row list" where
  "epg_window s sourceId =
     (let windowStart = date_now s - day_ms; windowEnd = date_now s + day_ms
      in filter (\<lambda>r. ep_source_id r = sourceId \<and> ep_end_time r > windowStart \<and>
                     ep_start_time r < windowEnd) (epg_programs s))"

definition formatted_program :: "epg_row \<Rightarrow> epg_view" where
  "formatted_program p =
     \<lparr>v_channelId = ep_channel_id p, v_start = ep_start_time p, v_stop = ep_end_time p,
      v_title = ep_title p, v_desc = ep_description p\<rparr>"

text \<open>A stored EPG channel as the route selects it (less its \<open>data\<close> column, a JSON text).\<close>

definition stored_channel :: "playlist_row \<Rightarrow> jsobj" where
  "stored_channel r = [(''id'', it_item_id r), (''name'', it_name r), (''icon'', it_stream_icon r)]"

text \<open>\<open>[...new Set(xs)]\<close>: the first occurrence of each element, in order.\<close>

definition unique_in_order :: "'a list \<Rightarrow> 'a list" where
  "unique_in_order xs = rev (remdups (rev xs))"

definition epg_route :: "state \<Rightarrow> int \<Rightarrow> epg_response" where
  "epg_route s sourceId =
     (let programs = epg_window s sourceId;
          storedChannels = filter (\<lambda>r. it_source_id r = sourceId \<and> it_type r = ''epg_channel'')
                             (playlist_items s)
      in \<lparr>r_channels =
            (if storedChannels \<noteq> [] then map stored_channel storedChannels
             else map (\<lambda>i. [(''id'', i), (''name'', i)]) (unique_in_order (map ep_channel_id programs))),
          r_programmes = map formatted_program programs\<rparr>)"

section \<open>The proxy routes\<close>

subsection \<open>Responses\<close>

datatype payload = Empty | Text string | Json jsobj

record response =
  res_status :: nat
  res_body :: payload

subsection \<open>GET /xtream/:sourceId/stream/:streamId/:type\<close>

text \<open>\<open>url.replace(/\/$/, '')\<close>: one slash at the very end is removed.\<close>

definition remove_trailing_slash :: "string \<Rightarrow> string" where
  "remove_trailing_slash url = (if url \<noteq> [] \<and> last url = CHR ''/'' then butlast url else url)"

text \<open>\<open>s || d\<close> for a string \<open>s\<close> that may be absent: the empty string is falsy too.\<close>

definition or_default :: "string option \<Rightarrow> string \<Rightarrow> string" where
  "or_default s d = (case s of None \<Rightarrow> d | Some v \<Rightarrow> if v = [] then d else v)"

text \<open>
  The handler, given what \<open>sources.getById\<close> answered, the two path parameters and the
  \<open>container\<close> query parameter. A rejected lookup is caught and answered with 500.
\<close>

definition stream_url_route :: "error + source option \<Rightarrow> string \<Rightarrow> string \<Rightarrow> string option \<Rightarrow> response" where
  "stream_url_route lookup streamId type_param container_param =
     (case lookup of
        Inl err \<Rightarrow> \<lparr>res_status = 500, res_body = Json [(''error'', JStr ''Failed to get stream URL'')]\<rparr>
      | Inr None \<Rightarrow> \<lparr>res_status = 404, res_body = Json [(''error'', JStr ''Xtream source not found'')]\<rparr>
      | Inr (Some source) \<Rightarrow>
          if src_type source \<noteq> ''xtream''
          then \<lparr>res_status = 404, res_body = Json [(''error'', JStr ''Xtream source not found'')]\<rparr>
          else
            let type = or_default (Some type_param) ''live'';
                container = or_default container_param ''m3u8'';
                baseUrl = remove_trailing_slash (src_url source);
                credentials = js_String (src_username source) @ ''/'' @ js_String (src_password source)
            in if type = ''live''
               then \<lparr>res_status = 200, res_body = Json [(''url'', JStr
                      (baseUrl @ ''/live/'' @ credentials @ ''/'' @ streamId @ ''.'' @ container))]\<rparr>
               else if type = ''movie''
               then \<lparr>res_status = 200, res_body = Json [(''url'', JStr
                      (baseUrl @ ''/movie/'' @ credentials @ ''/'' @ streamId @ ''.'' @ container))]\<rparr>
               else if type = ''series''
               then \<lparr>res_status = 200, res_body = Json [(''url'', JStr
                      (baseUrl @ ''/series/'' @ credentials @ ''/'' @ streamId @ ''.'' @ container))]\<rparr>
               else \<lparr>res_status = 400, res_body = Json [(''error'', JStr ''Invalid stream type'')]\<rparr>)"

subsection \<open>The Xtream lookups that call the provider\<close>

text \<open>
  What a handler answers and what it stores in the response cache (key, value, seconds).
  The cache and the Xtream client are given by their answers: \<open>cached\<close> is what
  \<open>cache.get\<close> returned, \<open>upstream\<close> what the client's call resolved or rejected with.
\<close>

record handled =
  h_response :: response
  h_cache_set :: "(string \<times> jsobj \<times> nat) option"

definition upstream_error :: "error \<Rightarrow> handled" where
  "upstream_error err =
     \<lparr>h_response = \<lparr>res_status = 502,
        res_body = Json [(''error'', JStr ''Upstream error''), (''details'', JStr (message err))]\<rparr>,
      h_cache_set = None\<rparr>"

definition answer :: "nat \<Rightarrow> payload \<Rightarrow> handled" where
  "answer status body = \<lparr>h_response = \<lparr>res_status = status, res_body = body\<rparr>, h_cache_set = None\<rparr>"

text \<open>The tail shared by the three handlers: cache hit, or call, store and answer.\<close>

definition cached_call :: "string \<Rightarrow> nat \<Rightarrow> jsobj option \<Rightarrow> error + jsobj \<Rightarrow> handled" where
  "cached_call cacheKey ttl cached upstream =
     (case cached of
        Some hit \<Rightarrow> answer 200 (Json hit)
      | None \<Rightarrow>
          (case upstream of
             Inl err \<Rightarrow> upstream_error err
           | Inr data \<Rightarrow> \<lparr>h_response = \<lparr>res_status = 200, res_body = Json data\<rparr>,
                         h_cache_set = Some (cacheKey, data, ttl)\<rparr>))"

text \<open>GET /xtream/:sourceId\<close>

definition xtream_auth_route :: "error + source option \<Rightarrow> jsobj option \<Rightarrow> error + jsobj \<Rightarrow> handled" where
  "xtream_auth_route lookup cached upstream =
     (case lookup of
        Inl err \<Rightarrow> upstream_error err
      | Inr None \<Rightarrow> answer 404 (Text ''Source not found'')
      | Inr (Some source) \<Rightarrow>
          if src_type source \<noteq> ''xtream'' then answer 404 (Text ''Source not found'')
          else cached_call (''xtream:'' @ number_to_string (src_id source) @ '':auth'') 300 cached upstream)"

text \<open>GET /xtream/:sourceId/series_info\<close>

definition series_info_route ::
  "error + source option \<Rightarrow> string option \<Rightarrow> jsobj option \<Rightarrow> error + jsobj \<Rightarrow> handled" where
  "series_info_route lookup series_id cached upstream =
     (case lookup of
        Inl err \<Rightarrow> upstream_error err
      | Inr None \<Rightarrow> answer 404 (Text ''Source not found'')
      | Inr (Some source) \<Rightarrow>
          if or_default series_id [] = [] then answer 400 (Text ''series_id required'')
          else cached_call
                 (''xtream:'' @ number_to_string (src_id source) @ '':series_info:'' @ or_default series_id [])
                 3600 cached upstream)"

text \<open>GET /xtream/:sourceId/vod_info\<close>

definition vod_info_route ::
  "error + source option \<Rightarrow> string option \<Rightarrow> jsobj option \<Rightarrow> error + jsobj \<Rightarrow> handled" where
  "vod_info_route lookup vod_id cached upstream =
     (case lookup of
        Inl err \<Rightarrow> upstream_error err
      | Inr None \<Rightarrow> answer 404 (Text ''Source not found'')
      | Inr (Some source) \<Rightarrow>
          if or_default vod_id [] = [] then answer 400 (Text ''vod_id required'')
          else cached_call
                 (''xtream:'' @ number_to_string (src_id source) @ '':vod_info:'' @ or_default vod_id [])
                 3600 cached upstream)"

subsection \<open>Strings that are examined character by character\<close>

text \<open>
  The manifest rewriter and the relay look into their strings (line terminators, white
  space, prefixes, percent-encoding), so these strings are lists of Unicode code points;
  an unpaired surrogate of the JavaScript string is a code point in the surrogate range.
\<close>

type_synonym jsstr = "nat list"

definition js :: "string \<Rightarrow> jsstr" where
  "js s = map of_char s"

text \<open>The line terminators of a regular expression: LF, CR, U+2028, U+2029.\<close>

definition is_line_terminator :: "nat \<Rightarrow> bool" where
  "is_line_terminator c \<longleftrightarrow> c = 10 \<or> c = 13 \<or> c = 8232 \<or> c = 8233"

text \<open>What \<open>trim\<close> strips: white space and line terminators.\<close>

definition is_white_space :: "nat \<Rightarrow> bool" where
  "is_white_space c \<longleftrightarrow>
     c = 9 \<or> c = 10 \<or> c = 11 \<or> c = 12 \<or> c = 13 \<or> c = 32 \<or> c = 160 \<or> c = 5760 \<or>
     (8192 \<le> c \<and> c \<le> 8202) \<or> c = 8232 \<or> c = 8233 \<or> c = 8239 \<or> c = 8287 \<or>
     c = 12288 \<or> c = 65279"

definition trim :: "jsstr \<Rightarrow> jsstr" where
  "trim s = rev (dropWhile is_white_space (rev (dropWhile is_white_space s)))"

definition startsWith :: "jsstr \<Rightarrow> jsstr \<Rightarrow> bool" where
  "startsWith s p \<longleftrightarrow> take (length p) s = p"

fun js_includes :: "jsstr \<Rightarrow> jsstr \<Rightarrow> bool" where
  "js_includes [] p = (p = [])"
| "js_includes (c # cs) p = (take (length p) (c # cs) = p \<or> js_includes cs p)"

subsection \<open>encodeURIComponent\<close>

text \<open>Letters, digits and \<open>- _ . ! ~ * ' ( )\<close> are kept.\<close>

definition unreserved :: "nat \<Rightarrow> bool" where
  "unreserved c \<longleftrightarrow>
     (65 \<le> c \<and> c \<le> 90) \<or> (97 \<le> c \<and> c \<le> 122) \<or> (48 \<le> c \<and> c \<le> 57) \<or>
     c = 45 \<or> c = 95 \<or> c = 46 \<or> c = 33 \<or> c = 126 \<or> c = 42 \<or> c = 39 \<or> c = 40 \<or> c = 41"

definition utf8 :: "nat \<Rightarrow> nat list" where
  "utf8 c =
     (if c < 128 then [c]
      else if c < 2048 then [192 + c div 64, 128 + c mod 64]
      else if c < 65536 then [224 + c div 4096, 128 + (c div 64) mod 64, 128 + c mod 64]
      else [240 + c div 262144, 128 + (c div 4096) mod 64, 128 + (c div 64) mod 64, 128 + c mod 64])"

definition percent :: "nat \<Rightarrow> jsstr" where
  "percent b = 37 # js [''0123456789ABCDEF'' ! (b div 16), ''0123456789ABCDEF'' ! (b mod 16)]"

text \<open>An unpaired surrogate makes \<open>encodeURIComponent\<close> throw a URIError.\<close>

definition encode_char :: "nat \<Rightarrow> jsstr option" where
  "encode_char c =
     (if unreserved c then Some [c]
      else if 55296 \<le> c \<and> c \<le> 57343 then None
      else Some (concat (map percent (utf8 c))))"

definition encodeURIComponent :: "jsstr \<Rightarrow> jsstr option" where
  "encodeURIComponent s = map_option concat (those (map encode_char s))"

subsection \<open>rewriteM3u8\<close>

text \<open>\<open>m3u8Url.substring(0, m3u8Url.lastIndexOf('/') + 1)\<close>: up to and with the last slash.\<close>

definition m3u8_base :: "jsstr \<Rightarrow> jsstr" where
  "m3u8_base m3u8Url = rev (dropWhile (\<lambda>c. c \<noteq> 47) (rev m3u8Url))"

text \<open>The replacement callback; \<open>None\<close> when it throws.\<close>

definition rewrite_match :: "jsstr \<Rightarrow> jsstr \<Rightarrow> jsstr \<Rightarrow> jsstr option" where
  "rewrite_match m3u8Base baseUrl match =
     (let chunkUrl = trim match;
          chunkUrl = (if \<not> startsWith chunkUrl (js ''http'') then m3u8Base @ chunkUrl else chunkUrl)
      in map_option (\<lambda>encoded. baseUrl @ js ''?url='' @ encoded) (encodeURIComponent chunkUrl))"

text \<open>
  \<open>content.replace(/^(?!#)(.+)$/gm, callback)\<close>. With the flags \<open>g\<close> and \<open>m\<close> the
  pattern matches exactly the maximal runs of characters other than line terminators
  that start a line, are not empty and do not begin with \<open>#\<close>: \<open>.+\<close> cannot cross
  a terminator and must reach the end of the line, and inside a line \<open>^\<close> does not
  match. The scan keeps the line read so far; at a terminator, or at the end, the line is
  replaced by the callback's result when the pattern matches it, and kept otherwise.
\<close>

definition replace_line :: "(jsstr \<Rightarrow> jsstr option) \<Rightarrow> jsstr \<Rightarrow> jsstr option" where
  "replace_line callback line =
     (if line = [] \<or> hd line = 35 then Some line else callback line)"

fun replace_lines :: "(jsstr \<Rightarrow> jsstr option) \<Rightarrow> jsstr \<Rightarrow> jsstr \<Rightarrow> jsstr option" where
  "replace_lines callback line [] = replace_line callback line"
| "replace_lines callback line (c # cs) =
     (if is_line_terminator c
      then (case replace_line callback line of
              None \<Rightarrow> None
            | Some replaced \<Rightarrow>
                map_option (\<lambda>rest. replaced @ c # rest) (replace_lines callback [] cs))
      else replace_lines callback (line @ [c]) cs)"

text \<open>What \<open>fetch\<close> resolved with, as far as the rewriter reads it.\<close>

record fetch_response =
  f_ok :: bool
  f_status :: nat
  f_text :: jsstr

text \<open>
  \<open>None\<close> is the \<open>null\<close> that the \<open>catch\<close> returns: the fetch was rejected, the status
  was not a success, or the callback threw.
\<close>

definition rewriteM3u8 :: "error + fetch_response \<Rightarrow> jsstr \<Rightarrow> jsstr \<Rightarrow> jsstr option" where
  "rewriteM3u8 fetched m3u8Url baseUrl =
     (case fetched of
        Inl err \<Rightarrow> None
      | Inr response \<Rightarrow>
          if \<not> f_ok response then None
          else replace_lines (rewrite_match (m3u8_base m3u8Url) baseUrl) [] (f_text response))"

subsection \<open>GET /stream and GET /image\<close>

text \<open>A header value of the upstream response: one text, or several (\<open>set-cookie\<close>).\<close>

datatype header_value = Single jsstr | Several "jsstr list"

text \<open>
  The response object of a relay, as far as a handler drives it: the status code set so
  far, the calls of \<open>setHeader\<close> in the order the handler made them, the status line
  the client has received once the headers are flushed, the text handed to \<open>send\<close>,
  and whether the response is ended. What the framework makes of the headers (names
  that differ in case only are one header, \<open>send\<close> adds the character set, the
  length and an entity tag) is not part of the record.
\<close>

record res =
  statusCode :: nat
  setHeader_calls :: "(string \<times> header_value) list"
  sent_status :: "nat option"
  sent_text :: jsstr
  ended :: bool

definition fresh_res :: res where
  "fresh_res = \<lparr>statusCode = 200, setHeader_calls = [], sent_status = None, sent_text = [], ended = False\<rparr>"

definition headersSent :: "res \<Rightarrow> bool" where
  "headersSent r \<longleftrightarrow> sent_status r \<noteq> None"

definition status_res :: "nat \<Rightarrow> res \<Rightarrow> res" where
  "status_res code r = r\<lparr>statusCode := code\<rparr>"

definition setHeader :: "string \<times> header_value \<Rightarrow> res \<Rightarrow> res" where
  "setHeader kv r = r\<lparr>setHeader_calls := setHeader_calls r @ [kv]\<rparr>"

text \<open>The first write sends the status line and the headers.\<close>

definition flush :: "res \<Rightarrow> res" where
  "flush r = (if headersSent r then r else r\<lparr>sent_status := Some (statusCode r)\<rparr>)"

definition end_res :: "res \<Rightarrow> res" where
  "end_res r = (flush r)\<lparr>ended := True\<rparr>"

text \<open>\<open>res.send(text)\<close>: the text is the body, and the response is ended.\<close>

definition send :: "jsstr \<Rightarrow> res \<Rightarrow> res" where
  "send text r = end_res (r\<lparr>sent_text := text\<rparr>)"

text \<open>
  What the upstream request does after \<open>lib.get\<close> returned: it answers (the callback
  runs), body bytes arrive and are piped, the body ends, or the request emits \<open>error\<close>.
\<close>

datatype upstream_event =
  Response nat "(string \<times> header_value) list" | Data | Finished | Failure string

text \<open>\<open>lib.get\<close> itself throws (\<open>Refused\<close>), or the request is under way.\<close>

datatype upstream = Refused error | Events "upstream_event list"

fun stream_event :: "upstream_event \<Rightarrow> res \<Rightarrow> res" where
  "stream_event (Response code hs) r = fold setHeader hs (status_res code r)"
| "stream_event Data r = flush r"
| "stream_event Finished r = end_res r"
| "stream_event (Failure m) r = (if \<not> headersSent r then end_res (status_res 502 r) else r)"

definition stream_route ::
  "jsstr option \<Rightarrow> jsstr \<Rightarrow> jsstr \<Rightarrow> error + fetch_response \<Rightarrow> upstream \<Rightarrow> res" where
  "stream_route url protocol host fetched upstream =
     (case url of
        None \<Rightarrow> send (js ''URL required'') (status_res 400 fresh_res)
      | Some u \<Rightarrow>
          if u = [] then send (js ''URL required'') (status_res 400 fresh_res)
          else
            let proxyBase = protocol @ js ''://'' @ host @ js ''/api/proxy/stream'';
                manifest = (if js_includes u (js ''.m3u8'') then rewriteM3u8 fetched u proxyBase else None)
            in case manifest of
                 Some text \<Rightarrow>
                   if text \<noteq> []
                   then send text
                          (setHeader (''Content-Type'', Single (js ''application/vnd.apple.mpegurl'')) fresh_res)
                   else (case upstream of
                           Refused err \<Rightarrow> end_res (status_res 500 fresh_res)
                         | Events evs \<Rightarrow> fold stream_event evs fresh_res)
               | None \<Rightarrow>
                   (case upstream of
                      Refused err \<Rightarrow> end_res (status_res 500 fresh_res)
                    | Events evs \<Rightarrow> fold stream_event evs fresh_res))"

fun image_event :: "upstream_event \<Rightarrow> res \<Rightarrow> res" where
  "image_event (Response code hs) r =
     setHeader (''Cache-Control'', Single (js ''public, max-age=86400''))
       (setHeader (''Access-Control-Allow-Origin'', Single (js ''*''))
          (fold setHeader (filter (\<lambda>h. fst h \<noteq> ''access-control-allow-origin'') hs) (status_res code r)))"
| "image_event Data r = flush r"
| "image_event Finished r = end_res r"
| "image_event (Failure m) r = end_res (status_res 404 r)"

text \<open>
  What the image proxy answers: it hands the address to \<open>res.redirect\<close> and leaves
  the answer to the framework (302 unless told otherwise, the \<open>Location\<close> and a short
  page that names it), or it drives the response itself.
\<close>

datatype image_reply = Redirect jsstr | Relayed res

fun reply_status :: "image_reply \<Rightarrow> nat option" where
  "reply_status (Redirect address) = Some 302"
| "reply_status (Relayed r) = sent_status r"

definition image_route :: "jsstr option \<Rightarrow> upstream \<Rightarrow> image_reply" where
  "image_route url upstream =
     (case url of
        None \<Rightarrow> Relayed (send (js ''URL required'') (status_res 400 fresh_res))
      | Some u \<Rightarrow>
          if u = [] then Relayed (send (js ''URL required'') (status_res 400 fresh_res))
          else if \<not> startsWith u (js ''http'') then Redirect u
          else (case upstream of
                  Refused err \<Rightarrow> Relayed (end_res (status_res 500 fresh_res))
                | Events evs \<Rightarrow> Relayed (fold image_event evs fresh_res)))"

section \<open>Auxiliary notions\<close>

text \<open>Fixed-size chunks, as the batch writer is specified: the list cut every \<open>n\<close> elements.\<close>

fun chunks_of :: "nat \<Rightarrow> 'a list \<Rightarrow> 'a list list" where
  "chunks_of n xs = (if n = 0 \<or> xs = [] then [] else take n xs # chunks_of n (drop n xs))"

declare chunks_of.simps [simp del]

text \<open>What \<open>ON CONFLICT(id) DO UPDATE\<close> of \<open>saveStreams\<close> makes of the row \<open>x\<close> that holds the id.\<close>

definition on_conflict :: "playlist_row \<Rightarrow> playlist_row \<Rightarrow> playlist_row" where
  "on_conflict r x =
     x\<lparr>it_name := it_name r, it_category_id := it_category_id r, it_stream_icon := it_stream_icon r,
       it_container_extension := it_container_extension r, it_data := it_data r\<rparr>"

text \<open>The six catalogue calls of \<open>syncXtream\<close>, in the order it awaits them.\<close>

definition catalog_steps :: "xtream_api \<Rightarrow> (error + jsobj list) list" where
  "catalog_steps api =
     [getLiveCategories api, getLiveStreams api, getVodCategories api, getVodStreams api,
      getSeriesCategories api, getSeries api]"

text \<open>Two states that agree on the active set, the status table and the clock.\<close>

definition same_control :: "state \<Rightarrow> state \<Rightarrow> bool" where
  "same_control s s' \<longleftrightarrow> activeSyncs s' = activeSyncs s \<and> sync_status s' = sync_status s \<and> date_now s' = date_now s"

definition preserves :: "'a prog \<Rightarrow> bool" where
  "preserves m \<longleftrightarrow> (\<forall>s. same_control s (snd (m s)))"

text \<open>A source whose last recorded sync has ended, well or badly.\<close>

definition settled :: "state \<Rightarrow> int \<Rightarrow> bool" where
  "settled s sourceId \<longleftrightarrow>
     (\<exists>row. sync_status s (sourceId, ''all'') = Some row \<and>
            (st_status row = ''success'' \<or> st_status row = ''error''))"

text \<open>Every source has as many executing calls as its membership in the active set says: one or none.\<close>

definition guarded :: "state \<times> (int \<times> phase) list \<Rightarrow> bool" where
  "guarded c \<longleftrightarrow> (\<forall>a. executing a (snd c) = (if a \<in> activeSyncs (fst c) then 1 else 0))"

section \<open>Example data\<close>

definition empty_state :: state where
  "empty_state =
     \<lparr>activeSyncs = {}, categories = [], playlist_items = [], epg_programs = [],
      sync_status = Map.empty, date_now = 1700000000000, trace = []\<rparr>"

definition example_source :: source where
  "example_source =
     \<lparr>src_id = 1, src_type = ''xtream'', src_name = ''Panel'', src_url = ''http://panel.example:8080/'',
      src_username = JStr ''user'', src_password = JStr ''pass'', src_enabled = True\<rparr>"

definition example_api :: xtream_api where
  "example_api =
     \<lparr>getLiveCategories = Inr [[(''category_id'', JStr ''1''), (''category_name'', JStr ''News'')]],
      getLiveStreams = Inr [[(''stream_id'', JNum 10), (''name'', JStr ''CNN''), (''category_id'', JStr ''1'')]],
      getVodCategories = Inr [],
      getVodStreams = Inr [],
      getSeriesCategories = Inr [],
      getSeries = Inr [],
      getXmltvUrl = Inr ''http://panel.example:8080/xmltv.php''\<rparr>"

definition example_world :: "xtream_api \<Rightarrow> world" where
  "example_world api =
     \<lparr>sources_getAll = Inr [example_source],
      sources_getById = (\<lambda>i. if i = 1 then Inr (Some example_source) else Inr None),
      xtreamApi_createFromSource = (\<lambda>source. api),
      epgParser_fetchAndParse = (\<lambda>url. Inl (Error ''connect ECONNREFUSED'')),
      m3uParser_fetchAndParse = (\<lambda>url. Inl (Error ''connect ECONNREFUSED''))\<rparr>"

definition failing_api :: xtream_api where
  "failing_api = example_api\<lparr>getLiveCategories := Inl (Error ''Request failed with status code 502'')\<rparr>"

definition guide_source :: source where
  "guide_source =
     \<lparr>src_id = 2, src_type = ''epg'', src_name = ''Guide'', src_url = ''http://guide.example/xmltv.xml'',
      src_username = JNull, src_password = JNull, src_enabled = True\<rparr>"

definition two_source_world :: world where
  "two_source_world =
     \<lparr>sources_getAll = Inr [example_source, guide_source],
      sources_getById = (\<lambda>i. if i = 1 then Inr (Some example_source)
                              else if i = 2 then Inr (Some guide_source) else Inr None),
      xtreamApi_createFromSource = (\<lambda>source. failing_api),
      epgParser_fetchAndParse = (\<lambda>url. Inr \<lparr>epg_channels = [], epg_programmes = []\<rparr>),
      m3uParser_fetchAndParse = (\<lambda>url. Inl (Error ''connect ECONNREFUSED''))\<rparr>"

definition locked_world :: world where
  "locked_world = two_source_world\<lparr>sources_getById := (\<lambda>i. Inl (Error ''database is locked''))\<rparr>"

definition news_programme :: programme where
  "news_programme =
     \<lparr>p_channelId = JStr ''cnn.us'', p_start = Some 1700000000000, p_stop = Some 1700003600000,
      p_title = JStr ''News'', p_description = JUndefined, p_desc = JStr ''Headlines''\<rparr>"

definition next_week_programme :: programme where
  "next_week_programme =
     \<lparr>p_channelId = JStr ''cnn.us'', p_start = Some 1700600000000, p_stop = Some 1700603600000,
      p_title = JStr ''Later'', p_description = JUndefined, p_desc = JUndefined\<rparr>"

definition stale_state :: state where
  "stale_state = empty_state\<lparr>epg_programs :=
     [\<lparr>ep_channel_id = JStr ''old.tv'', ep_source_id = 2, ep_start_time = 1699999000000,
       ep_end_time = 1700001000000, ep_title = JStr ''Old show'', ep_description = JNull,
       ep_data = news_programme\<rparr>]\<rparr>"

definition channel_item :: "nat \<Rightarrow> jsobj" where
  "channel_item n = [(''stream_id'', JNum (int n)), (''name'', JStr ''Channel''), (''category_id'', JStr ''1'')]"

definition items_1200 :: "jsobj list" where
  "items_1200 = map channel_item [0..<1200]"

definition news_category :: jsobj where
  "news_category = [(''category_id'', JStr ''1''), (''category_name'', JStr ''News'')]"

definition series_item :: "nat \<Rightarrow> jsobj" where
  "series_item n = [(''series_id'', JNum (int n)), (''name'', JStr ''Show''), (''category_id'', JStr ''7'')]"

definition series_1200 :: "jsobj list" where
  "series_1200 = map series_item [0..<1200]"

text \<open>
  A provider with one live category, the live stream 10 and 1,200 series numbered from 0:
  the live stream and one of the series carry the same number.
\<close>

definition overlapping_api :: xtream_api where
  "overlapping_api = example_api\<lparr>getSeries := Inr series_1200\<rparr>"

definition cnn_item :: jsobj where
  "cnn_item = [(''stream_id'', JNum 10), (''name'', JStr ''CNN''), (''category_id'', JStr ''1'')]"

definition identifying_fields :: "jsobj \<Rightarrow> jsval \<times> jsval \<times> jsval" where
  "identifying_fields out = (jsget out ''stream_id'', jsget out ''name'', jsget out ''category_id'')"

definition news_a :: jsobj where
  "news_a = [(''stream_id'', JNum 10), (''name'', JStr ''News A''), (''category_id'', JStr ''1'')]"

definition news_b :: jsobj where
  "news_b = [(''stream_id'', JNum 10), (''name'', JStr ''News B''), (''category_id'', JStr ''2'')]"

definition show_item :: jsobj where
  "show_item = [(''series_id'', JNum 10), (''name'', JStr ''Show''), (''category_id'', JStr ''7'')]"

definition bbc_channel :: jsobj where
  "bbc_channel = [(''id'', JStr ''bbc.uk''), (''name'', JStr ''BBC One'')]"

definition guide_state :: state where
  "guide_state = empty_state\<lparr>playlist_items := [channel_row_of 2 bbc_channel]\<rparr>"

definition cnn_before :: jsobj where
  "cnn_before = [(''stream_id'', JNum 10), (''name'', JStr ''CNN International''), (''category_id'', JStr ''3'')]"

definition hidden_state :: state where
  "hidden_state =
     empty_state\<lparr>playlist_items := [(playlist_row_of 1 ''live'' cnn_before)\<lparr>it_is_hidden := True\<rparr>]\<rparr>"

section \<open>Verification of the sync service\<close>

subsection \<open>Decimal numerals\<close>

lemma digits10_nonempty: "digits10 n \<noteq> []"
  by (subst digits10.simps) simp

lemma digit_char_inj: "a < 10 \<Longrightarrow> b < 10 \<Longrightarrow> digit_char a = digit_char b \<Longrightarrow> a = b"
proof -
  assume a: "a < 10" and b: "b < 10" and e: "digit_char a = digit_char b"
  have d: "distinct ''0123456789''" by simp
  from a b have "a < length ''0123456789''" "b < length ''0123456789''" by simp_all
  with d e show "a = b" unfolding digit_char_def by (simp only: nth_eq_iff_index_eq)
qed

lemma digits10_inj: "digits10 m = digits10 n \<Longrightarrow> m = n"
proof (induction m arbitrary: n rule: digits10.induct)
  case (1 m)
  show ?case
  proof (cases "m < 10")
    case True
    show ?thesis
    proof (cases "n < 10")
      case n: True
      from "1.prems" True n have "digit_char m = digit_char n"
        by (simp add: digits10.simps[of m] digits10.simps[of n])
      with True n show ?thesis by (rule digit_char_inj)
    next
      case False
      with "1.prems" True digits10_nonempty[of "n div 10"] show ?thesis
        by (simp add: digits10.simps[of m] digits10.simps[of n])
    qed
  next
    case False
    show ?thesis
    proof (cases "n < 10")
      case True
      with "1.prems" False digits10_nonempty[of "m div 10"] show ?thesis
        by (simp add: digits10.simps[of m] digits10.simps[of n])
    next
      case n: False
      from "1.prems" False n
      have e: "digits10 (m div 10) = digits10 (n div 10)" "digit_char (m mod 10) = digit_char (n mod 10)"
        by (simp_all add: digits10.simps[of m] digits10.simps[of n])
      from "1.IH"[OF False e(1)] have "m div 10 = n div 10" .
      moreover from e(2) have "m mod 10 = n mod 10" by (intro digit_char_inj) simp_all
      ultimately show ?thesis by (metis div_mult_mod_eq)
    qed
  qed
qed

lemma number_to_string_nat_inj: "number_to_string (int m) = number_to_string (int n) \<Longrightarrow> m = n"
  by (simp add: number_to_string_def digits10_inj)

lemma composite_id_eq [simp]:
  "composite_id sourceId a = composite_id sourceId b \<longleftrightarrow> js_String a = js_String b"
  by (simp add: composite_id_def)

lemma number_to_string_small:
  "number_to_string 1 = ''1''" "number_to_string 2 = ''2''" "number_to_string 7 = ''7''"
  "number_to_string 10 = ''10''"
  by (simp_all add: number_to_string_def digits10.simps digit_char_def)

subsection \<open>What the routines leave untouched\<close>

lemmas prog_defs = andThen_def done_prog_def throw_def await_def exec_def tryCatch_def tryFinally_def

lemmas example_defs = empty_state_def example_source_def example_api_def example_world_def
  failing_api_def guide_source_def two_source_world_def locked_world_def

lemmas sync_defs = syncSource_def syncSource_run_def syncSource_try_def sync_dispatch_def
  syncXtream_def syncEpg_def syncEpgFromUrl_def ingestEpg_def insertChannels_def delete_programs_def
  insertMany_def updateSyncStatus_def release_def

lemma activeSyncs_updateSyncStatus [simp]:
  "activeSyncs (updateSyncStatus sourceId type status err s) = activeSyncs s"
  by (simp add: updateSyncStatus_def)

lemma saveCategories_loop_control [simp]:
  "activeSyncs (saveCategories_loop sourceId type cats i s) = activeSyncs s \<and>
   sync_status (saveCategories_loop sourceId type cats i s) = sync_status s \<and>
   date_now (saveCategories_loop sourceId type cats i s) = date_now s"
  by (induction sourceId type cats i s rule: saveCategories_loop.induct)
     (subst (1 2 3) saveCategories_loop.simps, simp add: insertBatch_categories_def yield_def)

lemma saveCategories_control [simp]:
  "activeSyncs (saveCategories sourceId type cats s) = activeSyncs s \<and>
   sync_status (saveCategories sourceId type cats s) = sync_status s \<and>
   date_now (saveCategories sourceId type cats s) = date_now s"
  by (simp add: saveCategories_def)

lemma saveStreams_loop_control [simp]:
  "activeSyncs (saveStreams_loop sourceId type items i s) = activeSyncs s \<and>
   sync_status (saveStreams_loop sourceId type items i s) = sync_status s \<and>
   date_now (saveStreams_loop sourceId type items i s) = date_now s"
  by (induction sourceId type items i s rule: saveStreams_loop.induct)
     (subst (1 2 3) saveStreams_loop.simps, simp add: insertBatch_def yield_def)

lemma saveStreams_control [simp]:
  "activeSyncs (saveStreams sourceId type items s) = activeSyncs s \<and>
   sync_status (saveStreams sourceId type items s) = sync_status s \<and>
   date_now (saveStreams sourceId type items s) = date_now s"
  by (simp add: saveStreams_def)

lemma ingestEpg_control [simp]:
  "activeSyncs (ingestEpg sourceId channels programmes s) = activeSyncs s \<and>
   sync_status (ingestEpg sourceId channels programmes s) = sync_status s \<and>
   date_now (ingestEpg sourceId channels programmes s) = date_now s"
  by (simp add: ingestEpg_def insertMany_def delete_programs_def insertChannels_def)

lemma same_control_refl [simp]: "same_control s s"
  by (simp add: same_control_def)

lemma same_control_trans: "same_control a b \<Longrightarrow> same_control b c \<Longrightarrow> same_control a c"
  by (simp add: same_control_def)

lemma preserves_andThen:
  assumes "preserves m" "\<And>x. preserves (f x)"
  shows "preserves (andThen m f)"
  unfolding preserves_def
proof
  fix s
  obtain r s' where ms: "m s = (r, s')" by (cases "m s")
  have 1: "same_control s s'" using assms(1) ms unfolding preserves_def by (metis snd_conv)
  show "same_control s (snd (andThen m f s))"
  proof (cases r)
    case (Returned x)
    have "same_control s' (snd (f x s'))" using assms(2) unfolding preserves_def by blast
    with 1 Returned ms show ?thesis by (auto simp: andThen_def intro: same_control_trans)
  next
    case (Thrown e)
    with 1 ms show ?thesis by (simp add: andThen_def)
  qed
qed

lemma preserves_tryCatch:
  assumes "preserves m" "\<And>e. preserves (h e)"
  shows "preserves (tryCatch m h)"
  unfolding preserves_def
proof
  fix s
  obtain r s' where ms: "m s = (r, s')" by (cases "m s")
  have 1: "same_control s s'" using assms(1) ms unfolding preserves_def by (metis snd_conv)
  show "same_control s (snd (tryCatch m h s))"
  proof (cases r)
    case (Thrown e)
    have "same_control s' (snd (h e s'))" using assms(2) unfolding preserves_def by blast
    with 1 Thrown ms show ?thesis by (auto simp: tryCatch_def intro: same_control_trans)
  next
    case (Returned x)
    with 1 ms show ?thesis by (simp add: tryCatch_def)
  qed
qed

lemma preserves_await: "preserves (await r)"
  by (simp add: preserves_def await_def split: sum.split)

lemma preserves_done: "preserves (done_prog x)"
  by (simp add: preserves_def done_prog_def)

lemma preserves_throw: "preserves (throw e)"
  by (simp add: preserves_def throw_def)

lemma preserves_exec: "(\<And>s. same_control s (f s)) \<Longrightarrow> preserves (exec f)"
  by (simp add: preserves_def exec_def)

lemmas preserves_intros =
  preserves_andThen preserves_tryCatch preserves_await preserves_done preserves_throw preserves_exec

lemma preserves_syncEpgFromUrl: "preserves (syncEpgFromUrl w sourceId url)"
  unfolding syncEpgFromUrl_def by (intro preserves_intros) (simp add: same_control_def)

lemma preserves_syncXtream: "preserves (syncXtream w source)"
  unfolding syncXtream_def Let_def
  by (intro preserves_intros preserves_syncEpgFromUrl) (simp_all add: same_control_def)

lemma preserves_syncM3u: "preserves (syncM3u w source)"
  unfolding syncM3u_def by (intro preserves_intros) (simp_all add: same_control_def)

lemma preserves_sync_dispatch: "preserves (sync_dispatch w source)"
  by (simp add: sync_dispatch_def syncEpg_def preserves_syncXtream preserves_syncM3u
      preserves_syncEpgFromUrl preserves_done)

lemma sync_dispatch_control:
  assumes "sync_dispatch w source s = (r, s')"
  shows "activeSyncs s' = activeSyncs s" "sync_status s' = sync_status s" "date_now s' = date_now s"
  using preserves_sync_dispatch[of w source] assms
  unfolding preserves_def same_control_def by (metis snd_conv)+

subsection \<open>syncSource\<close>

lemma syncSource_try_active:
  "activeSyncs (snd (syncSource_try w sourceId s)) - {sourceId} = activeSyncs s - {sourceId}"
proof (cases "sources_getById w sourceId")
  case (Inl e)
  then show ?thesis by (simp add: syncSource_try_def prog_defs)
next
  case (Inr found)
  show ?thesis
  proof (cases found)
    case None
    with Inr show ?thesis by (simp add: syncSource_try_def prog_defs)
  next
    case (Some source)
    show ?thesis
    proof (cases "src_enabled source")
      case False
      with Inr Some show ?thesis by (auto simp add: syncSource_try_def prog_defs release_def)
    next
      case True
      obtain r s1 where d: "sync_dispatch w source (updateSyncStatus sourceId ''all'' ''syncing'' None s) = (r, s1)"
        by (cases "sync_dispatch w source (updateSyncStatus sourceId ''all'' ''syncing'' None s)")
      from sync_dispatch_control(1)[OF d] have "activeSyncs s1 = activeSyncs s" by simp
      with Inr Some True d show ?thesis
        by (cases r) (simp_all add: syncSource_try_def prog_defs)
    qed
  qed
qed

lemma syncSource_run_returns: "fst (syncSource_run w sourceId s) = Returned ()"
  by (simp add: syncSource_run_def prog_defs split: prod.split outcome.split)

lemma syncSource_run_active:
  "activeSyncs (snd (syncSource_run w sourceId s)) = activeSyncs s - {sourceId}"
proof -
  obtain r s1 where t: "syncSource_try w sourceId s = (r, s1)"
    by (cases "syncSource_try w sourceId s")
  from syncSource_try_active[of w sourceId s] t
  have "activeSyncs s1 - {sourceId} = activeSyncs s - {sourceId}" by simp
  with t show ?thesis
    by (cases r) (simp_all add: syncSource_run_def prog_defs release_def)
qed

lemma syncSource_returns: "fst (syncSource w sourceId s) = Returned ()"
  by (simp add: syncSource_def syncSource_run_returns)

lemma syncSource_active:
  "activeSyncs (snd (syncSource w sourceId s)) =
     (if sourceId \<in> activeSyncs s then activeSyncs s else activeSyncs s - {sourceId})"
  by (simp add: syncSource_def syncSource_run_active)

lemma syncSource_dispatch_result:
  assumes "sourceId \<notin> activeSyncs s" "sources_getById w sourceId = Inr (Some source)"
    "src_enabled source"
    "sync_dispatch w source
       (updateSyncStatus sourceId ''all'' ''syncing'' None (s\<lparr>activeSyncs := insert sourceId (activeSyncs s)\<rparr>)) = (r, s1)"
  shows "sync_status (snd (syncSource w sourceId s)) (sourceId, ''all'') =
     Some (case r of
             Returned u \<Rightarrow> \<lparr>st_last_sync = date_now s, st_status = ''success'', st_error = None\<rparr>
           | Thrown e \<Rightarrow> \<lparr>st_last_sync = date_now s, st_status = ''error'', st_error = Some (message e)\<rparr>)"
proof -
  from sync_dispatch_control(3)[OF assms(4)] have "date_now s1 = date_now s"
    by (simp add: updateSyncStatus_def)
  with assms show ?thesis
    by (cases r) (simp_all add: syncSource_def syncSource_run_def syncSource_try_def prog_defs
        release_def updateSyncStatus_def)
qed

lemma syncSource_lookup_failure:
  assumes "sourceId \<notin> activeSyncs s" "sources_getById w sourceId = Inl e"
  shows "syncSource w sourceId s =
     (Returned (), updateSyncStatus sourceId ''all'' ''error'' (Some (message e)) s)"
  using assms
  by (simp add: syncSource_def syncSource_run_def syncSource_try_def prog_defs
        release_def updateSyncStatus_def)

lemma syncSource_missing:
  assumes "sourceId \<notin> activeSyncs s" "sources_getById w sourceId = Inr None"
  shows "syncSource w sourceId s =
     (Returned (), updateSyncStatus sourceId ''all'' ''error'' (Some (message (not_found sourceId))) s)"
  using assms
  by (simp add: syncSource_def syncSource_run_def syncSource_try_def prog_defs
        release_def updateSyncStatus_def)

lemma syncSource_status_other:
  assumes "a \<noteq> sourceId"
  shows "sync_status (snd (syncSource w sourceId s)) (a, t) = sync_status s (a, t)"
proof (cases "sourceId \<in> activeSyncs s")
  case True
  then show ?thesis by (simp add: syncSource_def)
next
  case False
  show ?thesis
  proof (cases "sources_getById w sourceId")
    case (Inl e)
    with False assms show ?thesis by (simp add: syncSource_lookup_failure updateSyncStatus_def)
  next
    case (Inr found)
    show ?thesis
    proof (cases found)
      case None
      with False Inr assms show ?thesis by (simp add: syncSource_missing updateSyncStatus_def)
    next
      case (Some source)
      show ?thesis
      proof (cases "src_enabled source")
        case disabled: False
        with False Inr Some show ?thesis
          by (simp add: syncSource_def syncSource_run_def syncSource_try_def prog_defs release_def)
      next
        case True
        let ?s0 = "updateSyncStatus sourceId ''all'' ''syncing'' None (s\<lparr>activeSyncs := insert sourceId (activeSyncs s)\<rparr>)"
        obtain r s1 where d: "sync_dispatch w source ?s0 = (r, s1)"
          by (cases "sync_dispatch w source ?s0")
        from sync_dispatch_control(2)[OF d] have "sync_status s1 = sync_status ?s0" .
        with False Inr Some True d assms show ?thesis
          by (cases r) (simp_all add: syncSource_def syncSource_run_def syncSource_try_def prog_defs
              release_def updateSyncStatus_def)
      qed
    qed
  qed
qed

lemma syncSource_settles:
  assumes "sourceId \<notin> activeSyncs s"
    "\<And>found. sources_getById w sourceId = Inr (Some found) \<Longrightarrow> src_enabled found"
  shows "settled (snd (syncSource w sourceId s)) sourceId"
proof (cases "sources_getById w sourceId")
  case (Inl e)
  with assms(1) show ?thesis by (simp add: syncSource_lookup_failure updateSyncStatus_def settled_def)
next
  case (Inr found)
  show ?thesis
  proof (cases found)
    case None
    with assms(1) Inr show ?thesis by (simp add: syncSource_missing updateSyncStatus_def settled_def)
  next
    case (Some source)
    with Inr assms(2) have en: "src_enabled source" by simp
    let ?s0 = "updateSyncStatus sourceId ''all'' ''syncing'' None (s\<lparr>activeSyncs := insert sourceId (activeSyncs s)\<rparr>)"
    obtain r s1 where d: "sync_dispatch w source ?s0 = (r, s1)"
      by (cases "sync_dispatch w source ?s0")
    from syncSource_dispatch_result[OF assms(1) _ en d] Inr Some
    show ?thesis by (cases r) (simp_all add: settled_def)
  qed
qed

lemma syncAll_loop_fold:
  "syncAll_loop w srcs s =
     (Returned (), fold (\<lambda>source st. snd (syncSource w (src_id source) st)) (filter src_enabled srcs) s)"
proof (induction srcs arbitrary: s)
  case Nil
  show ?case by (simp add: done_prog_def)
next
  case (Cons source rest)
  obtain s1 where "syncSource w (src_id source) s = (Returned (), s1)"
    using syncSource_returns[of w "src_id source" s] by (cases "syncSource w (src_id source) s") simp
  with Cons show ?case by (simp add: andThen_def)
qed

lemma fold_syncSource_inactive:
  "a \<notin> activeSyncs s \<Longrightarrow>
   a \<notin> activeSyncs (fold (\<lambda>source st. snd (syncSource w (src_id source) st)) srcs s)"
  by (induction srcs arbitrary: s) (auto simp: syncSource_active)

lemma fold_syncSource_settles:
  assumes "source \<in> set srcs" "src_id source \<notin> activeSyncs s"
    "\<And>found. sources_getById w (src_id source) = Inr (Some found) \<Longrightarrow> src_enabled found"
  shows "settled (fold (\<lambda>x st. snd (syncSource w (src_id x) st)) srcs s) (src_id source)"
  using assms(1)
proof (induction srcs rule: rev_induct)
  case Nil
  then show ?case by simp
next
  case (snoc x xs)
  let ?mid = "fold (\<lambda>x st. snd (syncSource w (src_id x) st)) xs s"
  have inactive: "src_id source \<notin> activeSyncs ?mid"
    using assms(2) by (rule fold_syncSource_inactive)
  show ?case
  proof (cases "src_id x = src_id source")
    case True
    with syncSource_settles[OF inactive assms(3)] show ?thesis by simp
  next
    case False
    with snoc have "settled ?mid (src_id source)" by auto
    with False show ?thesis
      by (simp add: settled_def syncSource_status_other)
  qed
qed

subsection \<open>Interleaved calls\<close>

lemma executing_update:
  "i < length calls \<Longrightarrow>
   executing a (calls[i := c]) + (if calls ! i = (a, Executing) then 1 else 0) =
   executing a calls + (if c = (a, Executing) then 1 else 0)"
proof (induction calls arbitrary: i)
  case Nil
  then show ?case by simp
next
  case (Cons x xs)
  show ?case
  proof (cases i)
    case 0
    then show ?thesis by (simp add: executing_def)
  next
    case (Suc j)
    with Cons.prems have "j < length xs" by simp
    from Cons.IH[OF this] Suc show ?thesis by (auto simp: executing_def split: if_splits)
  qed
qed

lemma step_guarded:
  assumes "step w c c'" "guarded c"
  shows "guarded c'"
  using assms
proof (induction rule: step.induct)
  case (start i calls sourceId s w)
  show ?case unfolding guarded_def
  proof
    fix a
    from executing_update[OF start(1), of a "(sourceId, Executing)"] start(2,3,4)
    show "executing a (snd (s\<lparr>activeSyncs := insert sourceId (activeSyncs s)\<rparr>, calls[i := (sourceId, Executing)])) =
      (if a \<in> activeSyncs (fst (s\<lparr>activeSyncs := insert sourceId (activeSyncs s)\<rparr>, calls[i := (sourceId, Executing)])) then 1 else 0)"
      by (auto simp: guarded_def split: if_splits)
  qed
next
  case (skip i calls sourceId s w)
  show ?case unfolding guarded_def
  proof
    fix a
    from executing_update[OF skip(1), of a "(sourceId, Completed)"] skip(2,3,4)
    show "executing a (snd (s, calls[i := (sourceId, Completed)])) =
      (if a \<in> activeSyncs (fst (s, calls[i := (sourceId, Completed)])) then 1 else 0)"
      by (auto simp: guarded_def split: if_splits)
  qed
next
  case (complete i calls sourceId w s)
  show ?case unfolding guarded_def
  proof
    fix a
    from executing_update[OF complete(1), of a "(sourceId, Completed)"] complete(2,3)
    show "executing a (snd (snd (syncSource_run w sourceId s), calls[i := (sourceId, Completed)])) =
      (if a \<in> activeSyncs (fst (snd (syncSource_run w sourceId s), calls[i := (sourceId, Completed)])) then 1 else 0)"
      by (auto simp: guarded_def syncSource_run_active split: if_splits)
  qed
qed

lemma reachable_guarded: "reachable w c \<Longrightarrow> guarded c"
proof (induction rule: reachable.induct)
  case (init s w sourceIds)
  have "filter (\<lambda>c. c = (a, Executing)) (map (\<lambda>sourceId. (sourceId, Pending)) sourceIds) = []" for a
    by (induction sourceIds) auto
  with init show ?case by (simp add: guarded_def executing_def)
next
  case (later w c c')
  then show ?case using step_guarded by blast
qed

lemma syncXtream_outcome:
  "fst (syncXtream w source s) =
     (case find isl (catalog_steps (xtreamApi_createFromSource w source)) of
        None \<Rightarrow> Returned ()
      | Some r \<Rightarrow> Thrown (projl r))"
  by (simp add: syncXtream_def catalog_steps_def Let_def prog_defs syncEpgFromUrl_def
      split: sum.split)

subsection \<open>Unknown sources\<close>

text \<open>
  C10. \<open>syncSource\<close> called for a source id that resolves to no source record does not
  throw: the call returns, the only change to the state is the status row of that id,
  upserted with status \<open>error\<close> and the message \<open>Source <id> not found\<close>, and the
  id is not in the active set afterwards.
\<close>

theorem syncSource_unknown_source:
  assumes "sourceId \<notin> activeSyncs s" and "sources_getById w sourceId = Inr None"
  shows "syncSource w sourceId s =
           (Returned (),
            s\<lparr>sync_status := (sync_status s)((sourceId, ''all'') \<mapsto>
                \<lparr>st_last_sync = date_now s, st_status = ''error'',
                 st_error = Some (''Source '' @ number_to_string sourceId @ '' not found'')\<rparr>)\<rparr>)
         \<and> sourceId \<notin> activeSyncs (snd (syncSource w sourceId s))"
  using assms by (simp add: syncSource_missing updateSyncStatus_def not_found_def)

theorem syncSource_unknown_source_witness:
  "7 \<notin> activeSyncs empty_state \<and> sources_getById (example_world example_api) 7 = Inr None \<and>
   syncSource (example_world example_api) 7 empty_state =
     (Returned (),
      empty_state\<lparr>sync_status := [(7, ''all'') \<mapsto>
         \<lparr>st_last_sync = 1700000000000, st_status = ''error'', st_error = Some ''Source 7 not found''\<rparr>]\<rparr>) \<and>
   7 \<notin> activeSyncs (snd (syncSource (example_world example_api) 7 empty_state))"
proof -
  have a: "7 \<notin> activeSyncs empty_state" by (simp add: empty_state_def)
  have b: "sources_getById (example_world example_api) 7 = Inr None" by (simp add: example_world_def)
  from syncSource_unknown_source[OF a b] a b show ?thesis
    by (simp add: number_to_string_small empty_state_def)
qed

subsection \<open>Failures are recorded, not thrown\<close>

text \<open>
  C7. \<open>syncSource\<close> never throws to its caller. A call that finds the id not in the
  active set leaves it not in the active set, however the call ended. When the dispatched
  routine throws, or the lookup of the source is rejected, the status row of the source
  is \<open>error\<close> with the message of the error. Hence \<open>syncAll\<close> returns normally and its
  final state is that of running \<open>syncSource\<close> on every enabled source of the list
  in order, whatever happened to the sources before it: each enabled source that was
  not already syncing, and that the store resolves to the listed record, ends with
  status \<open>success\<close> or \<open>error\<close>.
\<close>

theorem syncSource_records_failure:
  "fst (syncSource w sourceId s) = Returned () \<and>
   (sourceId \<notin> activeSyncs s \<longrightarrow> sourceId \<notin> activeSyncs (snd (syncSource w sourceId s))) \<and>
   (sourceId \<notin> activeSyncs s \<longrightarrow> sources_getById w sourceId = Inr (Some source) \<longrightarrow>
    src_enabled source \<longrightarrow>
    sync_dispatch w source
      (updateSyncStatus sourceId ''all'' ''syncing'' None
         (s\<lparr>activeSyncs := insert sourceId (activeSyncs s)\<rparr>)) = (Thrown err, s1) \<longrightarrow>
    sync_status (snd (syncSource w sourceId s)) (sourceId, ''all'') =
      Some \<lparr>st_last_sync = date_now s, st_status = ''error'', st_error = Some (message err)\<rparr>) \<and>
   (sourceId \<notin> activeSyncs s \<longrightarrow> sources_getById w sourceId = Inl err \<longrightarrow>
    sync_status (snd (syncSource w sourceId s)) (sourceId, ''all'') =
      Some \<lparr>st_last_sync = date_now s, st_status = ''error'', st_error = Some (message err)\<rparr>) \<and>
   (sources_getAll w = Inr allSources \<longrightarrow>
    syncAll w s =
      (Returned (),
       fold (\<lambda>source st. snd (syncSource w (src_id source) st)) (filter src_enabled allSources) s) \<and>
    (\<forall>source \<in> set allSources.
       src_enabled source \<longrightarrow> src_id source \<notin> activeSyncs s \<longrightarrow>
       sources_getById w (src_id source) = Inr (Some source) \<longrightarrow>
       (\<exists>row. sync_status (snd (syncAll w s)) (src_id source, ''all'') = Some row \<and>
              (st_status row = ''success'' \<or> st_status row = ''error''))))"
proof (intro conjI impI ballI)
  show "fst (syncSource w sourceId s) = Returned ()" by (rule syncSource_returns)
next
  assume "sourceId \<notin> activeSyncs s"
  then show "sourceId \<notin> activeSyncs (snd (syncSource w sourceId s))"
    by (simp add: syncSource_active)
next
  assume a: "sourceId \<notin> activeSyncs s" "sources_getById w sourceId = Inr (Some source)"
    "src_enabled source"
    "sync_dispatch w source
      (updateSyncStatus sourceId ''all'' ''syncing'' None
         (s\<lparr>activeSyncs := insert sourceId (activeSyncs s)\<rparr>)) = (Thrown err, s1)"
  from syncSource_dispatch_result[OF a]
  show "sync_status (snd (syncSource w sourceId s)) (sourceId, ''all'') =
      Some \<lparr>st_last_sync = date_now s, st_status = ''error'', st_error = Some (message err)\<rparr>"
    by simp
next
  assume "sourceId \<notin> activeSyncs s" "sources_getById w sourceId = Inl err"
  then show "sync_status (snd (syncSource w sourceId s)) (sourceId, ''all'') =
      Some \<lparr>st_last_sync = date_now s, st_status = ''error'', st_error = Some (message err)\<rparr>"
    by (simp add: syncSource_lookup_failure updateSyncStatus_def)
next
  assume g: "sources_getAll w = Inr allSources"
  then show all: "syncAll w s =
      (Returned (),
       fold (\<lambda>source st. snd (syncSource w (src_id source) st)) (filter src_enabled allSources) s)"
    by (simp add: syncAll_def tryCatch_def andThen_def await_def syncAll_loop_fold)
  fix source
  assume m: "source \<in> set allSources" "src_enabled source" "src_id source \<notin> activeSyncs s"
    "sources_getById w (src_id source) = Inr (Some source)"
  then have "source \<in> set (filter src_enabled allSources)" by simp
  then have "settled (fold (\<lambda>x st. snd (syncSource w (src_id x) st)) (filter src_enabled allSources) s) (src_id source)"
  proof (rule fold_syncSource_settles[OF _ m(3)])
    fix found
    assume "sources_getById w (src_id source) = Inr (Some found)"
    with m(4) have "found = source" by simp
    with m(2) show "src_enabled found" by simp
  qed
  then show "\<exists>row. sync_status (snd (syncAll w s)) (src_id source, ''all'') = Some row \<and>
              (st_status row = ''success'' \<or> st_status row = ''error'')"
    by (simp add: all settled_def)
qed

theorem syncSource_records_failure_witness:
  "1 \<notin> activeSyncs empty_state \<and>
   sources_getById two_source_world 1 = Inr (Some example_source) \<and>
   src_enabled example_source \<and>
   sync_dispatch two_source_world example_source
      (updateSyncStatus 1 ''all'' ''syncing'' None (empty_state\<lparr>activeSyncs := insert 1 (activeSyncs empty_state)\<rparr>))
     = (Thrown (Error ''Request failed with status code 502''),
        updateSyncStatus 1 ''all'' ''syncing'' None (empty_state\<lparr>activeSyncs := {1}\<rparr>)) \<and>
   fst (syncSource two_source_world 1 empty_state) = Returned () \<and>
   1 \<notin> activeSyncs (snd (syncSource two_source_world 1 empty_state)) \<and>
   sync_status (snd (syncSource two_source_world 1 empty_state)) (1, ''all'') =
     Some \<lparr>st_last_sync = 1700000000000, st_status = ''error'',
           st_error = Some ''Request failed with status code 502''\<rparr> \<and>
   sources_getById locked_world 1 = Inl (Error ''database is locked'') \<and>
   sync_status (snd (syncSource locked_world 1 empty_state)) (1, ''all'') =
     Some \<lparr>st_last_sync = 1700000000000, st_status = ''error'', st_error = Some ''database is locked''\<rparr> \<and>
   sources_getAll two_source_world = Inr [example_source, guide_source] \<and>
   guide_source \<in> set [example_source, guide_source] \<and> src_enabled guide_source \<and>
   src_id guide_source \<notin> activeSyncs empty_state \<and>
   sources_getById two_source_world (src_id guide_source) = Inr (Some guide_source) \<and>
   syncAll two_source_world empty_state =
     (Returned (),
      fold (\<lambda>source st. snd (syncSource two_source_world (src_id source) st))
        (filter src_enabled [example_source, guide_source]) empty_state) \<and>
   (\<exists>row. sync_status (snd (syncAll two_source_world empty_state)) (src_id guide_source, ''all'') = Some row \<and>
          (st_status row = ''success'' \<or> st_status row = ''error''))"
proof -
  have h1: "1 \<notin> activeSyncs empty_state" by (simp add: empty_state_def)
  have h2: "sources_getById two_source_world 1 = Inr (Some example_source)"
    by (simp add: two_source_world_def)
  have h3: "src_enabled example_source" by (simp add: example_source_def)
  have h4: "sync_dispatch two_source_world example_source
      (updateSyncStatus 1 ''all'' ''syncing'' None (empty_state\<lparr>activeSyncs := insert 1 (activeSyncs empty_state)\<rparr>))
     = (Thrown (Error ''Request failed with status code 502''),
        updateSyncStatus 1 ''all'' ''syncing'' None (empty_state\<lparr>activeSyncs := {1}\<rparr>))"
    by (simp add: sync_defs prog_defs example_defs)
  have h5: "sources_getById locked_world 1 = Inl (Error ''database is locked'')"
    by (simp add: locked_world_def)
  have h6: "sources_getAll two_source_world = Inr [example_source, guide_source]"
    by (simp add: two_source_world_def)
  have h7: "guide_source \<in> set [example_source, guide_source]" "src_enabled guide_source"
    "src_id guide_source \<notin> activeSyncs empty_state"
    "sources_getById two_source_world (src_id guide_source) = Inr (Some guide_source)"
    by (simp_all add: example_defs)
  have d: "date_now empty_state = 1700000000000" by (simp add: empty_state_def)
  note T = syncSource_records_failure[of two_source_world 1 empty_state example_source
      "Error ''Request failed with status code 502''"
      "updateSyncStatus 1 ''all'' ''syncing'' None (empty_state\<lparr>activeSyncs := {1}\<rparr>)"
      "[example_source, guide_source]"]
  note L = syncSource_records_failure[of locked_world 1 empty_state example_source
      "Error ''database is locked''" empty_state "[]"]
  from T have c1: "fst (syncSource two_source_world 1 empty_state) = Returned ()" by blast
  from T h1 have c2: "1 \<notin> activeSyncs (snd (syncSource two_source_world 1 empty_state))" by blast
  from T h1 h2 h3 h4 d
  have c3: "sync_status (snd (syncSource two_source_world 1 empty_state)) (1, ''all'') =
     Some \<lparr>st_last_sync = 1700000000000, st_status = ''error'',
           st_error = Some ''Request failed with status code 502''\<rparr>" by simp
  from L h1 h5 d
  have c4: "sync_status (snd (syncSource locked_world 1 empty_state)) (1, ''all'') =
     Some \<lparr>st_last_sync = 1700000000000, st_status = ''error'', st_error = Some ''database is locked''\<rparr>"
    by simp
  from T h6 have c5: "syncAll two_source_world empty_state =
     (Returned (),
      fold (\<lambda>source st. snd (syncSource two_source_world (src_id source) st))
        (filter src_enabled [example_source, guide_source]) empty_state)" by blast
  from T h6 have "\<forall>source \<in> set [example_source, guide_source].
       src_enabled source \<longrightarrow> src_id source \<notin> activeSyncs empty_state \<longrightarrow>
       sources_getById two_source_world (src_id source) = Inr (Some source) \<longrightarrow>
       (\<exists>row. sync_status (snd (syncAll two_source_world empty_state)) (src_id source, ''all'') = Some row \<and>
              (st_status row = ''success'' \<or> st_status row = ''error''))" by blast
  with h7 have c6: "\<exists>row. sync_status (snd (syncAll two_source_world empty_state)) (src_id guide_source, ''all'') = Some row \<and>
          (st_status row = ''success'' \<or> st_status row = ''error'')" by blast
  from h1 h2 h3 h4 h5 h6 h7 c1 c2 c3 c4 c5 c6 show ?thesis by blast
qed

subsection \<open>The Xtream routine\<close>

text \<open>
  C6. For an enabled Xtream source that is not already syncing: when none of the six
  catalogue calls is rejected, \<open>syncXtream\<close> returns normally and the sync records
  status \<open>success\<close>, whatever the XMLTV step does (nothing is assumed of
  \<open>getXmltvUrl\<close> or of the EPG parser, so their failure is included); when a
  catalogue call is rejected, \<open>syncXtream\<close> throws the first rejection and the sync
  records status \<open>error\<close> with its message.
\<close>

theorem syncXtream_epg_failure_swallowed:
  assumes "sourceId \<notin> activeSyncs s" "sources_getById w sourceId = Inr (Some source)"
    "src_enabled source" "src_type source = ''xtream''"
  shows
   "(find isl (catalog_steps (xtreamApi_createFromSource w source)) = None \<longrightarrow>
       fst (syncXtream w source s') = Returned () \<and>
       sync_status (snd (syncSource w sourceId s)) (sourceId, ''all'') =
         Some \<lparr>st_last_sync = date_now s, st_status = ''success'', st_error = None\<rparr>) \<and>
    (\<forall>e. find isl (catalog_steps (xtreamApi_createFromSource w source)) = Some (Inl e) \<longrightarrow>
       fst (syncXtream w source s') = Thrown e \<and>
       sync_status (snd (syncSource w sourceId s)) (sourceId, ''all'') =
         Some \<lparr>st_last_sync = date_now s, st_status = ''error'', st_error = Some (message e)\<rparr>)"
proof -
  let ?s0 = "updateSyncStatus sourceId ''all'' ''syncing'' None (s\<lparr>activeSyncs := insert sourceId (activeSyncs s)\<rparr>)"
  obtain r s1 where d: "sync_dispatch w source ?s0 = (r, s1)"
    by (cases "sync_dispatch w source ?s0")
  from d assms(4) have r: "r = fst (syncXtream w source ?s0)"
    by (simp add: sync_dispatch_def)
  note res = syncSource_dispatch_result[OF assms(1-3) d]
  show ?thesis
  proof (intro conjI impI allI)
    assume n: "find isl (catalog_steps (xtreamApi_createFromSource w source)) = None"
    then show "fst (syncXtream w source s') = Returned ()" by (simp add: syncXtream_outcome)
    from n r have "r = Returned ()" by (simp add: syncXtream_outcome)
    with res show "sync_status (snd (syncSource w sourceId s)) (sourceId, ''all'') =
         Some \<lparr>st_last_sync = date_now s, st_status = ''success'', st_error = None\<rparr>" by simp
  next
    fix e
    assume n: "find isl (catalog_steps (xtreamApi_createFromSource w source)) = Some (Inl e)"
    then show "fst (syncXtream w source s') = Thrown e" by (simp add: syncXtream_outcome)
    from n r have "r = Thrown e" by (simp add: syncXtream_outcome)
    with res show "sync_status (snd (syncSource w sourceId s)) (sourceId, ''all'') =
         Some \<lparr>st_last_sync = date_now s, st_status = ''error'', st_error = Some (message e)\<rparr>" by simp
  qed
qed

lemma catalog_steps_example: "find isl (catalog_steps example_api) = None"
  by (simp add: catalog_steps_def example_api_def)

lemma catalog_steps_failing:
  "find isl (catalog_steps failing_api) = Some (Inl (Error ''Request failed with status code 502''))"
  by (simp add: catalog_steps_def failing_api_def example_api_def)

theorem syncXtream_epg_failure_swallowed_witness:
  "1 \<notin> activeSyncs empty_state \<and>
   sources_getById (example_world example_api) 1 = Inr (Some example_source) \<and>
   src_enabled example_source \<and> src_type example_source = ''xtream'' \<and>
   epgParser_fetchAndParse (example_world example_api) ''http://panel.example:8080/xmltv.php''
     = Inl (Error ''connect ECONNREFUSED'') \<and>
   find isl (catalog_steps (xtreamApi_createFromSource (example_world example_api) example_source)) = None \<and>
   fst (syncXtream (example_world example_api) example_source empty_state) = Returned () \<and>
   sync_status (snd (syncSource (example_world example_api) 1 empty_state)) (1, ''all'') =
     Some \<lparr>st_last_sync = 1700000000000, st_status = ''success'', st_error = None\<rparr> \<and>
   sources_getById (example_world failing_api) 1 = Inr (Some example_source) \<and>
   find isl (catalog_steps (xtreamApi_createFromSource (example_world failing_api) example_source))
     = Some (Inl (Error ''Request failed with status code 502'')) \<and>
   fst (syncXtream (example_world failing_api) example_source empty_state)
     = Thrown (Error ''Request failed with status code 502'') \<and>
   sync_status (snd (syncSource (example_world failing_api) 1 empty_state)) (1, ''all'') =
     Some \<lparr>st_last_sync = 1700000000000, st_status = ''error'',
           st_error = Some ''Request failed with status code 502''\<rparr>"
proof -
  have h1: "1 \<notin> activeSyncs empty_state" by (simp add: empty_state_def)
  have h2: "sources_getById (example_world api) 1 = Inr (Some example_source)" for api
    by (simp add: example_world_def)
  have h3: "src_enabled example_source" "src_type example_source = ''xtream''"
    by (simp_all add: example_source_def)
  have h4: "epgParser_fetchAndParse (example_world example_api) ''http://panel.example:8080/xmltv.php''
     = Inl (Error ''connect ECONNREFUSED'')" by (simp add: example_world_def)
  have h5: "find isl (catalog_steps (xtreamApi_createFromSource (example_world example_api) example_source)) = None"
    by (simp add: example_world_def catalog_steps_example)
  have h6: "find isl (catalog_steps (xtreamApi_createFromSource (example_world failing_api) example_source))
     = Some (Inl (Error ''Request failed with status code 502''))"
    by (simp add: example_world_def catalog_steps_failing)
  have d: "date_now empty_state = 1700000000000" by (simp add: empty_state_def)
  note A = syncXtream_epg_failure_swallowed[OF h1 h2 h3, of example_api empty_state]
  note B = syncXtream_epg_failure_swallowed[OF h1 h2 h3, of failing_api empty_state]
  from A h5 d have c1: "fst (syncXtream (example_world example_api) example_source empty_state) = Returned ()"
    "sync_status (snd (syncSource (example_world example_api) 1 empty_state)) (1, ''all'') =
     Some \<lparr>st_last_sync = 1700000000000, st_status = ''success'', st_error = None\<rparr>"
    by simp_all
  from B h6 d have c2: "fst (syncXtream (example_world failing_api) example_source empty_state)
     = Thrown (Error ''Request failed with status code 502'')"
    "sync_status (snd (syncSource (example_world failing_api) 1 empty_state)) (1, ''all'') =
     Some \<lparr>st_last_sync = 1700000000000, st_status = ''error'',
           st_error = Some ''Request failed with status code 502''\<rparr>"
    by simp_all
  from h1 h2 h3 h4 h5 h6 c1 c2 show ?thesis by blast
qed

subsection \<open>At most one sync per source\<close>

text \<open>
  C1. A call of \<open>syncSource\<close> for a source id that is in the active set returns at
  once without an error and leaves the whole state, the status table included, as it
  was. In every state reachable by interleaved calls, each source has at most one
  executing call, and it has one exactly when its id is in the active set.
\<close>

theorem syncSource_at_most_once:
  "(sourceId \<in> activeSyncs s \<longrightarrow> syncSource w sourceId s = (Returned (), s)) \<and>
   (reachable w (s', calls) \<longrightarrow>
      executing sourceId calls \<le> 1 \<and> (executing sourceId calls = 1 \<longleftrightarrow> sourceId \<in> activeSyncs s'))"
proof (intro conjI impI)
  assume "sourceId \<in> activeSyncs s"
  then show "syncSource w sourceId s = (Returned (), s)" by (simp add: syncSource_def)
next
  assume "reachable w (s', calls)"
  then have "guarded (s', calls)" by (rule reachable_guarded)
  then have g: "executing sourceId calls = (if sourceId \<in> activeSyncs s' then 1 else 0)"
    by (simp add: guarded_def)
  from g show "executing sourceId calls \<le> 1" by simp
  from g show "executing sourceId calls = 1 \<longleftrightarrow> sourceId \<in> activeSyncs s'" by simp
qed

theorem syncSource_at_most_once_witness:
  "1 \<in> activeSyncs (empty_state\<lparr>activeSyncs := {1}\<rparr>) \<and>
   syncSource two_source_world 1 (empty_state\<lparr>activeSyncs := {1}\<rparr>)
     = (Returned (), empty_state\<lparr>activeSyncs := {1}\<rparr>) \<and>
   reachable two_source_world (empty_state\<lparr>activeSyncs := {1}\<rparr>, [(1, Executing), (1, Completed)]) \<and>
   executing 1 [(1, Executing), (1, Completed)] \<le> 1 \<and>
   executing 1 [(1, Executing), (1, Completed)] = 1"
proof -
  have h1: "1 \<in> activeSyncs (empty_state\<lparr>activeSyncs := {1}\<rparr>)" by simp
  have r0: "reachable two_source_world (empty_state, map (\<lambda>sourceId. (sourceId, Pending)) [1, 1])"
    by (rule reachable.init) (simp add: empty_state_def)
  have s1: "step two_source_world (empty_state, [(1, Pending), (1, Pending)])
     (empty_state\<lparr>activeSyncs := insert 1 (activeSyncs empty_state)\<rparr>,
      [(1, Pending), (1, Pending)][0 := (1, Executing)])"
    by (rule step.start) (simp_all add: empty_state_def)
  have s2: "step two_source_world (empty_state\<lparr>activeSyncs := {1}\<rparr>, [(1, Executing), (1, Pending)])
     (empty_state\<lparr>activeSyncs := {1}\<rparr>, [(1, Executing), (1, Pending)][1 := (1, Completed)])"
    by (rule step.skip) simp_all
  have e: "activeSyncs empty_state = {}" by (simp add: empty_state_def)
  from r0 s1 have r1: "reachable two_source_world (empty_state\<lparr>activeSyncs := {1}\<rparr>, [(1, Executing), (1, Pending)])"
    using reachable.later[OF r0, of "(empty_state\<lparr>activeSyncs := {1}\<rparr>, [(1, Executing), (1, Pending)])"]
    by (simp add: e)
  from s2 have r2: "reachable two_source_world (empty_state\<lparr>activeSyncs := {1}\<rparr>, [(1, Executing), (1, Completed)])"
    using reachable.later[OF r1, of "(empty_state\<lparr>activeSyncs := {1}\<rparr>, [(1, Executing), (1, Completed)])"]
    by simp
  note T = syncSource_at_most_once[of 1 "empty_state\<lparr>activeSyncs := {1}\<rparr>" two_source_world
      "empty_state\<lparr>activeSyncs := {1}\<rparr>" "[(1, Executing), (1, Completed)]"]
  from T h1 have c1: "syncSource two_source_world 1 (empty_state\<lparr>activeSyncs := {1}\<rparr>)
     = (Returned (), empty_state\<lparr>activeSyncs := {1}\<rparr>)" by blast
  from T r2 h1 have c2: "executing 1 [(1, Executing), (1, Completed)] \<le> 1"
    "executing 1 [(1, Executing), (1, Completed)] = 1" by blast+
  from h1 c1 r2 c2 show ?thesis by blast
qed

subsection \<open>EPG ingestion\<close>

lemma epg_programs_ingestEpg:
  "epg_programs (ingestEpg sourceId channels programmes s) =
     filter (\<lambda>r. ep_source_id r \<noteq> sourceId) (epg_programs s) @ map (epg_row_of sourceId) programmes"
  by (simp add: ingestEpg_def insertMany_def delete_programs_def insertChannels_def)

lemma ep_source_id_epg_row_of [simp]: "ep_source_id (epg_row_of sourceId p) = sourceId"
  by (simp add: epg_row_of_def)

lemma filter_other_rows [simp]:
  "filter (\<lambda>r. ep_source_id r \<noteq> sourceId) (map (epg_row_of sourceId) programmes) = []"
  by (induction programmes) simp_all

lemma ingestEpg_twice:
  "epg_programs (ingestEpg sourceId channels programmes (ingestEpg sourceId channels programmes s)) =
   epg_programs (ingestEpg sourceId channels programmes s)"
  by (simp add: epg_programs_ingestEpg)

lemma epg_window_ingestEpg:
  "epg_window (ingestEpg sourceId channels programmes s) sourceId =
     filter (\<lambda>r. ep_end_time r > date_now s - day_ms \<and> ep_start_time r < date_now s + day_ms)
       (map (epg_row_of sourceId) programmes)"
proof -
  have a: "filter (\<lambda>r. ep_source_id r = sourceId \<and> P r) (filter (\<lambda>r. ep_source_id r \<noteq> sourceId) xs) = []"
    for P xs by (induction xs) simp_all
  have b: "filter (\<lambda>r. ep_source_id r = sourceId \<and> P r) (map (epg_row_of sourceId) ps) =
           filter P (map (epg_row_of sourceId) ps)" for P ps
    by (induction ps) simp_all
  show ?thesis
    by (simp add: epg_window_def Let_def epg_programs_ingestEpg a b)
qed

text \<open>
  C2. Whatever the store held before (programmes of an earlier ingest included), after
  \<open>ingestEpg\<close> the window query of the EPG route returns exactly the rows made from the
  new programme list that overlap the window, in order, each once; and running
  \<open>ingestEpg\<close> a second time with the same input leaves the programme table, and so the
  answer of the window query at the same instant, as it was after the first run.
\<close>

theorem ingestEpg_idempotent:
  "r_programmes (epg_route (ingestEpg sourceId channels programmes
                    (ingestEpg sourceId channels programmes s)) sourceId) =
   r_programmes (epg_route (ingestEpg sourceId channels programmes s) sourceId) \<and>
   r_programmes (epg_route (ingestEpg sourceId channels programmes s) sourceId) =
     map formatted_program
       (filter (\<lambda>r. ep_end_time r > date_now s - day_ms \<and> ep_start_time r < date_now s + day_ms)
          (map (epg_row_of sourceId) programmes)) \<and>
   epg_programs (ingestEpg sourceId channels programmes (ingestEpg sourceId channels programmes s)) =
   epg_programs (ingestEpg sourceId channels programmes s)"
  by (simp add: epg_route_def Let_def epg_window_ingestEpg ingestEpg_twice)

theorem ingestEpg_idempotent_witness:
  "r_programmes (epg_route (ingestEpg 2 [] [news_programme, next_week_programme]
       (ingestEpg 2 [] [news_programme, next_week_programme] stale_state)) 2) =
     [\<lparr>v_channelId = JStr ''cnn.us'', v_start = 1700000000000, v_stop = 1700003600000,
       v_title = JStr ''News'', v_desc = JStr ''Headlines''\<rparr>]"
  using ingestEpg_idempotent[of 2 "[]" "[news_programme, next_week_programme]" stale_state]
  by (simp add: stale_state_def empty_state_def news_programme_def next_week_programme_def
      epg_row_of_def formatted_program_def day_ms_def js_or_def)

subsection \<open>The batch writer\<close>

lemma upsert_item_fresh: "it_id r \<notin> it_id ` set tbl \<Longrightarrow> upsert_item r tbl = tbl @ [r]"
  by (induction tbl) auto

lemma fold_upsert_item_fresh:
  assumes "distinct (map (\<lambda>x. it_id (f x)) xs)" "\<forall>x \<in> set xs. it_id (f x) \<notin> it_id ` set tbl"
  shows "fold (\<lambda>x. upsert_item (f x)) xs tbl = tbl @ map f xs"
  using assms
proof (induction xs arbitrary: tbl)
  case Nil
  then show ?case by simp
next
  case (Cons x xs)
  from Cons.prems have 1: "upsert_item (f x) tbl = tbl @ [f x]" by (simp add: upsert_item_fresh)
  from Cons.prems have 2: "\<forall>y \<in> set xs. it_id (f y) \<notin> it_id ` set (tbl @ [f x])"
    by (fastforce simp: image_iff)
  from Cons.prems have 3: "distinct (map (\<lambda>x. it_id (f x)) xs)" by simp
  from Cons.IH[OF 3 2] 1 show ?case by simp
qed

lemma slice_drop: "slice i (i + n) xs @ drop (i + n) xs = drop i xs"
  by (simp add: slice_def add.commute[of i n] flip: drop_drop)

lemma chunks_of_drop:
  "i < length xs \<Longrightarrow>
   chunks_of BATCH_SIZE (drop i xs) = slice i (i + BATCH_SIZE) xs # chunks_of BATCH_SIZE (drop (i + BATCH_SIZE) xs)"
  by (subst chunks_of.simps) (simp add: slice_def BATCH_SIZE_def add.commute)

lemma chunks_of_Nil [simp]: "chunks_of n [] = []"
  by (subst chunks_of.simps) simp

lemma chunks_of_done: "\<not> i < length xs \<Longrightarrow> chunks_of n (drop i xs) = []"
  by (subst chunks_of.simps) simp

lemma fold_slice_drop:
  "fold f (drop (i + n) xs) (fold f (slice i (i + n) xs) a) = fold f (drop i xs) a"
proof -
  have "fold f (drop i xs) a = fold f (slice i (i + n) xs @ drop (i + n) xs) a"
    by (simp only: slice_drop)
  then show ?thesis by simp
qed

lemma saveStreams_loop_items:
  "playlist_items (saveStreams_loop sourceId type items i s) =
     fold (\<lambda>item. upsert_item (playlist_row_of sourceId type item)) (drop i items) (playlist_items s)"
proof (induction sourceId type items i s rule: saveStreams_loop.induct)
  case (1 sourceId type items i s)
  show ?case
  proof (cases "i < length items")
    case True
    from "1.IH"[OF True] True show ?thesis
      by (subst saveStreams_loop.simps) (simp add: insertBatch_def yield_def fold_slice_drop)
  next
    case False
    then show ?thesis by (subst saveStreams_loop.simps) simp
  qed
qed

lemma saveStreams_loop_trace:
  "trace (saveStreams_loop sourceId type items i s) =
     trace s @ concat (map (\<lambda>c. [Transaction (length c), Yield]) (chunks_of BATCH_SIZE (drop i items)))"
proof (induction sourceId type items i s rule: saveStreams_loop.induct)
  case (1 sourceId type items i s)
  show ?case
  proof (cases "i < length items")
    case True
    from "1.IH"[OF True] True show ?thesis
      by (subst saveStreams_loop.simps) (simp add: insertBatch_def yield_def chunks_of_drop)
  next
    case False
    then show ?thesis by (subst saveStreams_loop.simps) (simp add: chunks_of_done)
  qed
qed

lemma saveCategories_loop_trace:
  "trace (saveCategories_loop sourceId type cats i s) =
     trace s @ concat (map (\<lambda>c. [Transaction (length c), Yield]) (chunks_of BATCH_SIZE (drop i cats)))"
proof (induction sourceId type cats i s rule: saveCategories_loop.induct)
  case (1 sourceId type cats i s)
  show ?case
  proof (cases "i < length cats")
    case True
    from "1.IH"[OF True] True show ?thesis
      by (subst saveCategories_loop.simps) (simp add: insertBatch_categories_def yield_def chunks_of_drop)
  next
    case False
    then show ?thesis by (subst saveCategories_loop.simps) (simp add: chunks_of_done)
  qed
qed

lemma saveStreams_items:
  "playlist_items (saveStreams sourceId type items s) =
     fold (\<lambda>item. upsert_item (playlist_row_of sourceId type item)) items (playlist_items s)"
  by (simp add: saveStreams_def saveStreams_loop_items)

lemma saveStreams_trace:
  "trace (saveStreams sourceId type items s) =
     trace s @ concat (map (\<lambda>c. [Transaction (length c), Yield]) (chunks_of 500 items))"
  using saveStreams_loop_trace[of sourceId type items 0 s]
  by (simp add: saveStreams_def BATCH_SIZE_def)

lemma saveCategories_trace:
  "trace (saveCategories sourceId type cats s) =
     trace s @ concat (map (\<lambda>c. [Transaction (length c), Yield]) (chunks_of 500 cats))"
  using saveCategories_loop_trace[of sourceId type cats 0 s]
  by (simp add: saveCategories_def BATCH_SIZE_def)

lemma concat_chunks_of: "0 < n \<Longrightarrow> concat (chunks_of n xs) = xs"
proof (induction n xs rule: chunks_of.induct)
  case (1 n xs)
  show ?case
  proof (cases "xs = []")
    case True
    then show ?thesis by simp
  next
    case False
    with "1.prems" "1.IH" show ?thesis by (subst chunks_of.simps) simp
  qed
qed

lemma length_chunks_of: "c \<in> set (chunks_of n xs) \<Longrightarrow> length c \<le> n \<and> c \<noteq> []"
proof (induction n xs rule: chunks_of.induct)
  case (1 n xs)
  show ?case
  proof (cases "n = 0 \<or> xs = []")
    case True
    with "1.prems" show ?thesis by (subst (asm) chunks_of.simps) simp
  next
    case False
    from "1.prems" False have "c = take n xs \<or> c \<in> set (chunks_of n (drop n xs))"
      by (subst (asm) chunks_of.simps) simp
    with False "1.IH" show ?thesis by auto
  qed
qed

lemma chunks_of_1200:
  assumes "length xs = 1200"
  shows "chunks_of 500 xs = [take 500 xs, take 500 (drop 500 xs), drop 1000 xs]"
proof -
  from assms have a: "xs \<noteq> []" "drop 500 xs \<noteq> []" "drop 1000 xs \<noteq> []" by auto
  from assms have b: "take 500 (drop 1000 xs) = drop 1000 xs" by simp
  from assms have c: "drop 1500 xs = []" by simp
  show ?thesis
    using a b c
    by (simp add: chunks_of.simps[of 500 xs] chunks_of.simps[of 500 "drop 500 xs"]
        chunks_of.simps[of 500 "drop 1000 xs"])
qed

lemma saveStreams_fresh:
  assumes "distinct (map (\<lambda>item. js_String (m_itemId (map_fields type item))) items)"
    "\<forall>r \<in> set (playlist_items s).
       it_id r \<notin> (\<lambda>item. composite_id sourceId (m_itemId (map_fields type item))) ` set items"
  shows "playlist_items (saveStreams sourceId type items s) =
           playlist_items s @ map (playlist_row_of sourceId type) items"
proof -
  have id: "it_id (playlist_row_of sourceId type item) = composite_id sourceId (m_itemId (map_fields type item))"
    for item by (simp add: playlist_row_of_def Let_def)
  have "inj_on (\<lambda>item. js_String (m_itemId (map_fields type item))) (set items)"
    using assms(1) by (simp add: distinct_map)
  then have "inj_on (\<lambda>item. composite_id sourceId (m_itemId (map_fields type item))) (set items)"
    by (simp add: inj_on_def)
  with assms(1) have d: "distinct (map (\<lambda>x. it_id (playlist_row_of sourceId type x)) items)"
    by (simp add: distinct_map id)
  from assms(2) have f: "\<forall>x \<in> set items. it_id (playlist_row_of sourceId type x) \<notin> it_id ` set (playlist_items s)"
    by (auto simp: id) (metis imageI)
  from fold_upsert_item_fresh[OF d f] show ?thesis by (simp add: saveStreams_items)
qed

text \<open>
  \<open>saveStreams\<close> and \<open>saveCategories\<close> write their input in the chunks of 500 that
  cut the list every 500 records: one transaction per chunk, each followed by a yield
  to the event loop; the chunks are at most 500 long and together are the input. For an
  input of 1,200 items whose ids are distinct, written to a store that holds no row of
  that source and type and no row under one of the new composite ids, there are exactly
  three chunks (500, 500 and 200 items), the 1,200 rows are appended to the table in
  input order, and the store then holds exactly 1,200 rows of that source and type,
  with distinct ids.
\<close>

lemma saveStreams_chunks:
  "trace (saveStreams sourceId type items s) =
     trace s @ concat (map (\<lambda>c. [Transaction (length c), Yield]) (chunks_of 500 items)) \<and>
   trace (saveCategories sourceId type cats s) =
     trace s @ concat (map (\<lambda>c. [Transaction (length c), Yield]) (chunks_of 500 cats)) \<and>
   concat (chunks_of 500 items) = items \<and>
   (\<forall>c \<in> set (chunks_of 500 items). length c \<le> 500) \<and>
   (length items = 1200 \<longrightarrow>
    distinct (map (\<lambda>item. js_String (m_itemId (map_fields type item))) items) \<longrightarrow>
    (\<forall>r \<in> set (playlist_items s).
       \<not> (it_source_id r = sourceId \<and> it_type r = type) \<and>
       it_id r \<notin> (\<lambda>item. composite_id sourceId (m_itemId (map_fields type item))) ` set items) \<longrightarrow>
    length (chunks_of 500 items) = 3 \<and>
    trace (saveStreams sourceId type items s) =
      trace s @ [Transaction 500, Yield, Transaction 500, Yield, Transaction 200, Yield] \<and>
    playlist_items (saveStreams sourceId type items s) =
      playlist_items s @ map (playlist_row_of sourceId type) items \<and>
    length (filter (\<lambda>r. it_source_id r = sourceId \<and> it_type r = type)
              (playlist_items (saveStreams sourceId type items s))) = 1200 \<and>
    distinct (map it_id (filter (\<lambda>r. it_source_id r = sourceId \<and> it_type r = type)
              (playlist_items (saveStreams sourceId type items s)))))"
proof (intro conjI impI ballI)
  show "trace (saveStreams sourceId type items s) =
     trace s @ concat (map (\<lambda>c. [Transaction (length c), Yield]) (chunks_of 500 items))"
    by (rule saveStreams_trace)
  show "trace (saveCategories sourceId type cats s) =
     trace s @ concat (map (\<lambda>c. [Transaction (length c), Yield]) (chunks_of 500 cats))"
    by (rule saveCategories_trace)
  show "concat (chunks_of 500 items) = items" by (simp add: concat_chunks_of)
  show "length c \<le> 500" if "c \<in> set (chunks_of 500 items)" for c
    using that length_chunks_of by blast
next
  assume len: "length items = 1200"
    and dist: "distinct (map (\<lambda>item. js_String (m_itemId (map_fields type item))) items)"
    and new: "\<forall>r \<in> set (playlist_items s).
       \<not> (it_source_id r = sourceId \<and> it_type r = type) \<and>
       it_id r \<notin> (\<lambda>item. composite_id sourceId (m_itemId (map_fields type item))) ` set items"
  let ?mine = "\<lambda>r. it_source_id r = sourceId \<and> it_type r = type"
  from len show "length (chunks_of 500 items) = 3" by (simp add: chunks_of_1200)
  from len show "trace (saveStreams sourceId type items s) =
      trace s @ [Transaction 500, Yield, Transaction 500, Yield, Transaction 200, Yield]"
    by (simp add: saveStreams_trace chunks_of_1200)
  from new have fresh: "\<forall>r \<in> set (playlist_items s).
       it_id r \<notin> (\<lambda>item. composite_id sourceId (m_itemId (map_fields type item))) ` set items"
    by blast
  show eq: "playlist_items (saveStreams sourceId type items s) =
      playlist_items s @ map (playlist_row_of sourceId type) items"
    by (rule saveStreams_fresh[OF dist fresh])
  from new have old: "filter ?mine (playlist_items s) = []"
    by (simp add: filter_empty_conv)
  have mine: "filter ?mine (map (playlist_row_of sourceId type) items) = map (playlist_row_of sourceId type) items"
    by (simp add: filter_id_conv playlist_row_of_def Let_def)
  from len show "length (filter ?mine (playlist_items (saveStreams sourceId type items s))) = 1200"
    by (simp add: eq old mine)
  have ids: "map it_id (map (playlist_row_of sourceId type) items) =
        map (\<lambda>item. composite_id sourceId (m_itemId (map_fields type item))) items"
    by (simp add: playlist_row_of_def Let_def)
  have "distinct (map (\<lambda>item. composite_id sourceId (m_itemId (map_fields type item))) items)"
    using dist by (simp add: distinct_map inj_on_def)
  then have "distinct (map it_id (map (playlist_row_of sourceId type) items))"
    by (simp only: ids)
  then show "distinct (map it_id (filter ?mine (playlist_items (saveStreams sourceId type items s))))"
    by (simp add: eq old mine)
qed

lemma saveStreams_chunks_example:
  "length items_1200 = 1200 \<and>
   distinct (map (\<lambda>item. js_String (m_itemId (map_fields ''live'' item))) items_1200) \<and>
   map (\<lambda>r. (it_id r, it_source_id r, it_type r)) (playlist_items guide_state) =
     [(''2:bbc.uk'', 2, ''epg_channel'')] \<and>
   ''2:bbc.uk'' \<notin> (\<lambda>item. composite_id 1 (m_itemId (map_fields ''live'' item))) ` set items_1200 \<and>
   length (chunks_of 500 items_1200) = 3 \<and>
   trace (saveStreams 1 ''live'' items_1200 guide_state) =
     [Transaction 500, Yield, Transaction 500, Yield, Transaction 200, Yield] \<and>
   playlist_items (saveStreams 1 ''live'' items_1200 guide_state) =
     channel_row_of 2 bbc_channel # map (playlist_row_of 1 ''live'') items_1200 \<and>
   length (filter (\<lambda>r. it_source_id r = 1 \<and> it_type r = ''live'')
             (playlist_items (saveStreams 1 ''live'' items_1200 guide_state))) = 1200"
proof -
  have len: "length items_1200 = 1200" by (simp add: items_1200_def)
  have key: "js_String (m_itemId (map_fields ''live'' (channel_item n))) = number_to_string (int n)" for n
    by (simp add: channel_item_def map_fields_def jsget_def)
  have "inj_on (\<lambda>n. number_to_string (int n)) (set [0..<1200])"
    by (rule inj_onI) (rule number_to_string_nat_inj)
  then have dist: "distinct (map (\<lambda>item. js_String (m_itemId (map_fields ''live'' item))) items_1200)"
    by (simp add: items_1200_def distinct_map comp_def key)
  have e: "playlist_items guide_state = [channel_row_of 2 bbc_channel]" "trace guide_state = []"
    by (simp_all add: guide_state_def empty_state_def)
  have row: "it_id (channel_row_of 2 bbc_channel) = ''2:bbc.uk''"
    "it_source_id (channel_row_of 2 bbc_channel) = 2"
    "it_type (channel_row_of 2 bbc_channel) = ''epg_channel''"
    by (simp_all add: channel_row_of_def bbc_channel_def composite_id_def jsget_def number_to_string_small)
  have other: "''2:bbc.uk'' \<notin> (\<lambda>item. composite_id 1 (m_itemId (map_fields ''live'' item))) ` set items_1200"
    by (auto simp: composite_id_def number_to_string_small)
  from e row other have new: "\<forall>r \<in> set (playlist_items guide_state).
       \<not> (it_source_id r = 1 \<and> it_type r = ''live'') \<and>
       it_id r \<notin> (\<lambda>item. composite_id 1 (m_itemId (map_fields ''live'' item))) ` set items_1200"
    by simp
  from saveStreams_chunks[of 1 "''live''" items_1200 guide_state "[]"] len dist new
  have "length (chunks_of 500 items_1200) = 3 \<and>
    trace (saveStreams 1 ''live'' items_1200 guide_state) =
      trace guide_state @ [Transaction 500, Yield, Transaction 500, Yield, Transaction 200, Yield] \<and>
    playlist_items (saveStreams 1 ''live'' items_1200 guide_state) =
      playlist_items guide_state @ map (playlist_row_of 1 ''live'') items_1200 \<and>
    length (filter (\<lambda>r. it_source_id r = 1 \<and> it_type r = ''live'')
              (playlist_items (saveStreams 1 ''live'' items_1200 guide_state))) = 1200"
    by blast
  then have c1: "length (chunks_of 500 items_1200) = 3"
    and c2: "trace (saveStreams 1 ''live'' items_1200 guide_state) =
      trace guide_state @ [Transaction 500, Yield, Transaction 500, Yield, Transaction 200, Yield]"
    and c3: "playlist_items (saveStreams 1 ''live'' items_1200 guide_state) =
      playlist_items guide_state @ map (playlist_row_of 1 ''live'') items_1200"
    and c4: "length (filter (\<lambda>r. it_source_id r = 1 \<and> it_type r = ''live'')
              (playlist_items (saveStreams 1 ''live'' items_1200 guide_state))) = 1200"
    by blast+
  from c2 e have c2': "trace (saveStreams 1 ''live'' items_1200 guide_state) =
      [Transaction 500, Yield, Transaction 500, Yield, Transaction 200, Yield]" by simp
  from c3 e have c3': "playlist_items (saveStreams 1 ''live'' items_1200 guide_state) =
      channel_row_of 2 bbc_channel # map (playlist_row_of 1 ''live'') items_1200" by simp
  from e(1) row have st: "map (\<lambda>r. (it_id r, it_source_id r, it_type r)) (playlist_items guide_state) =
     [(''2:bbc.uk'', 2, ''epg_channel'')]" by simp
  from len dist st other c1 c2' c3' c4 show ?thesis by blast
qed

lemma upsert_item_keys:
  "map (\<lambda>r. (it_id r, it_source_id r, it_type r)) (upsert_item r tbl) =
     (if it_id r \<in> it_id ` set tbl then map (\<lambda>r. (it_id r, it_source_id r, it_type r)) tbl
      else map (\<lambda>r. (it_id r, it_source_id r, it_type r)) tbl @ [(it_id r, it_source_id r, it_type r)])"
  by (induction tbl) auto

lemma upsert_item_ids: "it_id ` set (upsert_item r tbl) = insert (it_id r) (it_id ` set tbl)"
  by (induction tbl) auto

lemma fold_upsert_item_keys:
  assumes "distinct (map (\<lambda>x. it_id (f x)) xs)"
  shows "map (\<lambda>r. (it_id r, it_source_id r, it_type r)) (fold (\<lambda>x. upsert_item (f x)) xs tbl) =
           map (\<lambda>r. (it_id r, it_source_id r, it_type r)) tbl @
           map (\<lambda>x. (it_id (f x), it_source_id (f x), it_type (f x)))
             (filter (\<lambda>x. it_id (f x) \<notin> it_id ` set tbl) xs)"
  using assms
proof (induction xs arbitrary: tbl)
  case Nil
  then show ?case by simp
next
  case (Cons x xs)
  from Cons.prems have d: "distinct (map (\<lambda>x. it_id (f x)) xs)"
    and nx: "it_id (f x) \<notin> (\<lambda>x. it_id (f x)) ` set xs" by simp_all
  have same: "filter (\<lambda>y. it_id (f y) \<notin> it_id ` set (upsert_item (f x) tbl)) xs =
      filter (\<lambda>y. it_id (f y) \<notin> it_id ` set tbl) xs"
  proof (rule filter_cong[OF refl])
    fix y assume "y \<in> set xs"
    then have "it_id (f y) \<in> (\<lambda>x. it_id (f x)) ` set xs" by (rule imageI)
    with nx have "it_id (f y) \<noteq> it_id (f x)" by metis
    then show "(it_id (f y) \<notin> it_id ` set (upsert_item (f x) tbl)) = (it_id (f y) \<notin> it_id ` set tbl)"
      by (simp add: upsert_item_ids)
  qed
  show ?case
    by (simp only: fold_simps Cons.IH[OF d] same upsert_item_keys) simp
qed

lemma length_filter_image:
  assumes "distinct (map g xs)"
  shows "length (filter (\<lambda>x. g x \<in> H) xs) = card (g ` set xs \<inter> H)"
proof -
  from assms have "distinct (map g (filter (\<lambda>x. g x \<in> H) xs))" by (rule distinct_map_filter)
  then have "card (set (map g (filter (\<lambda>x. g x \<in> H) xs))) = length (map g (filter (\<lambda>x. g x \<in> H) xs))"
    by (rule distinct_card)
  moreover have "set (map g (filter (\<lambda>x. g x \<in> H) xs)) = g ` set xs \<inter> H" by auto
  ultimately show ?thesis by simp
qed

lemma matching_count:
  assumes "distinct (map g xs)" "distinct (map h ys)"
  shows "length (filter (\<lambda>x. g x \<in> h ` set ys) xs) = length (filter (\<lambda>y. h y \<in> g ` set xs) ys)"
  by (simp add: length_filter_image[OF assms(1)] length_filter_image[OF assms(2)] Int_commute)

text \<open>
  One row per item. When the item ids of the input are distinct, the ids of the table are
  distinct (they are its key) and every row that already holds one of the input's
  composite ids is a row of this source and type, as on a first sync and on a repeated
  one, the table afterwards holds exactly as many rows of this source and type under
  the input's composite ids as the input has items, and its ids are still distinct.
\<close>

lemma saveStreams_rows:
  assumes dist: "distinct (map (\<lambda>item. js_String (m_itemId (map_fields type item))) items)"
    and key: "distinct (map it_id (playlist_items s))"
    and mine: "\<forall>r \<in> set (playlist_items s).
       it_id r \<in> (\<lambda>item. composite_id sourceId (m_itemId (map_fields type item))) ` set items \<longrightarrow>
       it_source_id r = sourceId \<and> it_type r = type"
  shows "length (filter (\<lambda>r. it_id r \<in> (\<lambda>item. composite_id sourceId (m_itemId (map_fields type item))) ` set items \<and>
                     it_source_id r = sourceId \<and> it_type r = type)
           (playlist_items (saveStreams sourceId type items s))) = length items"
    and "distinct (map it_id (playlist_items (saveStreams sourceId type items s)))"
proof -
  let ?cid = "\<lambda>item. composite_id sourceId (m_itemId (map_fields type item))"
  let ?f = "playlist_row_of sourceId type"
  let ?K = "\<lambda>r. (it_id r, it_source_id r, it_type r)"
  let ?N = "?cid ` set items"
  let ?tbl = "playlist_items s"
  let ?R = "playlist_items (saveStreams sourceId type items s)"
  let ?fresh = "filter (\<lambda>x. ?cid x \<notin> it_id ` set ?tbl) items"
  let ?P = "\<lambda>k. fst k \<in> ?N \<and> fst (snd k) = sourceId \<and> snd (snd k) = type"
  have kf: "?K (?f x) = (?cid x, sourceId, type)" for x by (simp add: playlist_row_of_def Let_def)
  have idf: "it_id (?f x) = ?cid x" for x by (simp add: playlist_row_of_def Let_def)
  have dc: "distinct (map ?cid items)" using dist by (simp add: distinct_map inj_on_def)
  then have d: "distinct (map (\<lambda>x. it_id (?f x)) items)" by (simp only: idf)
  have keys: "map ?K ?R = map ?K ?tbl @ map (\<lambda>x. (?cid x, sourceId, type)) ?fresh"
    using fold_upsert_item_keys[OF d, of ?tbl]
    by (simp add: saveStreams_items idf) (simp add: playlist_row_of_def Let_def)
  have "length (filter (\<lambda>r. ?P (?K r)) ?R) = length (filter ?P (map ?K ?R))"
    by (simp only: filter_map comp_def length_map)
  also have "\<dots> = length (filter ?P (map ?K ?tbl)) + length (filter ?P (map (\<lambda>x. (?cid x, sourceId, type)) ?fresh))"
    by (simp only: keys filter_append length_append)
  also have "filter ?P (map (\<lambda>x. (?cid x, sourceId, type)) ?fresh) = map (\<lambda>x. (?cid x, sourceId, type)) ?fresh"
    by (simp add: filter_id_conv)
  also have "length (filter ?P (map ?K ?tbl)) = length (filter (\<lambda>r. ?P (?K r)) ?tbl)"
    by (simp only: filter_map comp_def length_map)
  also have "filter (\<lambda>r. ?P (?K r)) ?tbl = filter (\<lambda>r. it_id r \<in> ?N) ?tbl"
    using mine by (intro filter_cong[OF refl]) auto
  also have "length (filter (\<lambda>r. it_id r \<in> ?N) ?tbl) = length (filter (\<lambda>x. ?cid x \<in> it_id ` set ?tbl) items)"
    by (rule matching_count[OF key dc])
  finally have "length (filter (\<lambda>r. ?P (?K r)) ?R) =
      length (filter (\<lambda>x. ?cid x \<in> it_id ` set ?tbl) items) + length ?fresh"
    by simp
  then have "length (filter (\<lambda>r. ?P (?K r)) ?R) = length items"
    using sum_length_filter_compl[of "\<lambda>x. ?cid x \<in> it_id ` set ?tbl" items] by simp
  then show "length (filter (\<lambda>r. it_id r \<in> ?N \<and> it_source_id r = sourceId \<and> it_type r = type) ?R) = length items"
    by simp
  have "map it_id ?R = map fst (map ?K ?R)" by (simp add: comp_def)
  also have "\<dots> = map it_id ?tbl @ map ?cid ?fresh" by (simp only: keys) (simp add: comp_def)
  finally have ids: "map it_id ?R = map it_id ?tbl @ map ?cid ?fresh" .
  have "distinct (map ?cid ?fresh)" using dc by (rule distinct_map_filter)
  moreover have "set (map it_id ?tbl) \<inter> set (map ?cid ?fresh) = {}" by (auto simp: image_iff)
  ultimately show "distinct (map it_id ?R)" using key by (simp only: ids distinct_append)
qed

lemma saveCategories_Nil [simp]: "saveCategories sourceId type [] s = s"
  by (simp add: saveCategories_def)

lemma saveStreams_Nil [simp]: "saveStreams sourceId type [] s = s"
  by (simp add: saveStreams_def)

lemma saveCategories_loop_items:
  "categories (saveCategories_loop sourceId type cats i s) =
     fold (\<lambda>cat. upsert_category (category_row_of sourceId type cat)) (drop i cats) (categories s)"
proof (induction sourceId type cats i s rule: saveCategories_loop.induct)
  case (1 sourceId type cats i s)
  show ?case
  proof (cases "i < length cats")
    case True
    from "1.IH"[OF True] True show ?thesis
      by (subst saveCategories_loop.simps) (simp add: insertBatch_categories_def yield_def fold_slice_drop)
  next
    case False
    then show ?thesis by (subst saveCategories_loop.simps) simp
  qed
qed

lemma saveCategories_items:
  "categories (saveCategories sourceId type cats s) =
     fold (\<lambda>cat. upsert_category (category_row_of sourceId type cat)) cats (categories s)"
  by (simp add: saveCategories_def saveCategories_loop_items)

lemma saveCategories_loop_playlist:
  "playlist_items (saveCategories_loop sourceId type cats i s) = playlist_items s"
proof (induction sourceId type cats i s rule: saveCategories_loop.induct)
  case (1 sourceId type cats i s)
  show ?case
  proof (cases "i < length cats")
    case True
    from "1.IH"[OF True] True show ?thesis
      by (subst saveCategories_loop.simps) (simp add: insertBatch_categories_def yield_def)
  next
    case False
    then show ?thesis by (subst saveCategories_loop.simps) simp
  qed
qed

lemma saveCategories_playlist:
  "playlist_items (saveCategories sourceId type cats s) = playlist_items s"
  by (simp add: saveCategories_def saveCategories_loop_playlist)

lemma saveStreams_loop_categories:
  "categories (saveStreams_loop sourceId type items i s) = categories s"
proof (induction sourceId type items i s rule: saveStreams_loop.induct)
  case (1 sourceId type items i s)
  show ?case
  proof (cases "i < length items")
    case True
    from "1.IH"[OF True] True show ?thesis
      by (subst saveStreams_loop.simps) (simp add: insertBatch_def yield_def)
  next
    case False
    then show ?thesis by (subst saveStreams_loop.simps) simp
  qed
qed

lemma saveStreams_categories:
  "categories (saveStreams sourceId type items s) = categories s"
  by (simp add: saveStreams_def saveStreams_loop_categories)

lemma fold_upsert_item_conflict:
  assumes d: "distinct (map (\<lambda>x. it_id (f x)) (pre @ x # post))"
    and hit: "it_id (f x) = it_id old"
  shows "fold (\<lambda>x. upsert_item (f x)) (pre @ x # post) [old] =
           on_conflict (f x) old # map f pre @ map f post"
proof -
  from d have dpre: "distinct (map (\<lambda>x. it_id (f x)) pre)"
    and dpost: "distinct (map (\<lambda>x. it_id (f x)) post)"
    and a: "it_id (f x) \<notin> (\<lambda>x. it_id (f x)) ` set pre"
    and b: "it_id (f x) \<notin> (\<lambda>x. it_id (f x)) ` set post"
    and c: "(\<lambda>x. it_id (f x)) ` set pre \<inter> (\<lambda>x. it_id (f x)) ` set post = {}"
    by simp_all
  have xpre: "\<forall>y \<in> set pre. it_id (f y) \<noteq> it_id (f x)"
  proof
    fix y assume "y \<in> set pre"
    then have "it_id (f y) \<in> (\<lambda>x. it_id (f x)) ` set pre" by (rule imageI)
    with a show "it_id (f y) \<noteq> it_id (f x)" by auto
  qed
  have xpost: "\<forall>y \<in> set post. it_id (f y) \<noteq> it_id (f x)"
  proof
    fix y assume "y \<in> set post"
    then have "it_id (f y) \<in> (\<lambda>x. it_id (f x)) ` set post" by (rule imageI)
    with b show "it_id (f y) \<noteq> it_id (f x)" by auto
  qed
  have cross: "\<forall>y \<in> set post. \<forall>z \<in> set pre. it_id (f y) \<noteq> it_id (f z)"
  proof (intro ballI)
    fix y z assume "y \<in> set post" "z \<in> set pre"
    then have "it_id (f y) \<in> (\<lambda>x. it_id (f x)) ` set post" "it_id (f z) \<in> (\<lambda>x. it_id (f x)) ` set pre"
      by (auto intro: imageI)
    with c show "it_id (f y) \<noteq> it_id (f z)" by auto
  qed
  from xpre hit have "\<forall>y \<in> set pre. it_id (f y) \<notin> it_id ` set [old]" by simp
  from fold_upsert_item_fresh[OF dpre this]
  have 1: "fold (\<lambda>x. upsert_item (f x)) pre [old] = old # map f pre" by simp
  from hit have 2: "upsert_item (f x) (old # map f pre) = on_conflict (f x) old # map f pre"
    by (simp add: on_conflict_def)
  have idc: "it_id (on_conflict (f x) old) = it_id (f x)" by (simp add: on_conflict_def hit)
  from xpost cross have "\<forall>y \<in> set post. it_id (f y) \<notin> it_id ` set (on_conflict (f x) old # map f pre)"
    by (auto simp: idc)
  from fold_upsert_item_fresh[OF dpost this]
  have 3: "fold (\<lambda>x. upsert_item (f x)) post (on_conflict (f x) old # map f pre) =
             on_conflict (f x) old # map f pre @ map f post" by simp
  have "fold (\<lambda>x. upsert_item (f x)) (pre @ x # post) [old] =
          fold (\<lambda>x. upsert_item (f x)) post
            (upsert_item (f x) (fold (\<lambda>x. upsert_item (f x)) pre [old]))"
    by simp
  then show ?thesis by (simp only: 1 2 3)
qed

lemma series_key:
  "js_String (m_itemId (map_fields ''series'' (series_item n))) = number_to_string (int n)"
  by (simp add: series_item_def map_fields_def jsget_def)

lemma series_1200_distinct:
  "distinct (map (\<lambda>item. js_String (m_itemId (map_fields ''series'' item))) series_1200)"
proof -
  have "inj_on (\<lambda>n. number_to_string (int n)) (set [0..<1200])"
    by (rule inj_onI) (rule number_to_string_nat_inj)
  then show ?thesis by (simp add: series_1200_def distinct_map comp_def series_key)
qed

lemma series_1200_split:
  "series_1200 = take 10 series_1200 @ series_item 10 # drop 11 series_1200"
proof -
  have l: "10 < length series_1200" by (simp add: series_1200_def)
  have n: "series_1200 ! 10 = series_item 10" by (simp add: series_1200_def)
  have s: "Suc 10 = 11" by simp
  from id_take_nth_drop[OF l] show ?thesis by (simp only: n s)
qed

lemma chunks_of_single: "chunks_of 500 [x] = [[x]]"
  by (simp add: chunks_of.simps[of 500 "[x]"])

lemma distinct_map_middle:
  assumes "distinct (map k (pre @ x # post))" "y \<in> set pre \<union> set post"
  shows "k y \<noteq> k x"
proof -
  from assms(1) have "k x \<notin> k ` set pre" "k x \<notin> k ` set post" by simp_all
  moreover from assms(2) have "k y \<in> k ` set pre \<or> k y \<in> k ` set post" by auto
  ultimately show ?thesis by metis
qed

lemma series_1200_others:
  "filter (\<lambda>item. jsget item ''series_id'' \<noteq> JNum 10) series_1200 =
     take 10 series_1200 @ drop 11 series_1200"
proof -
  let ?key = "\<lambda>item. js_String (m_itemId (map_fields ''series'' item))"
  let ?pre = "take 10 series_1200" and ?post = "drop 11 series_1200"
  have k: "?key item = js_String (jsget item ''series_id'')" for item
    by (simp add: map_fields_def)
  have d: "distinct (map ?key (?pre @ series_item 10 # ?post))"
    using series_1200_distinct by (simp only: series_1200_split[symmetric])
  have other: "jsget y ''series_id'' \<noteq> JNum 10" if "y \<in> set ?pre \<union> set ?post" for y
  proof
    assume "jsget y ''series_id'' = JNum 10"
    then have "?key y = ?key (series_item 10)" by (simp add: k series_item_def jsget_def)
    moreover from d that have "?key y \<noteq> ?key (series_item 10)" by (rule distinct_map_middle)
    ultimately show False by simp
  qed
  have ten: "jsget (series_item 10) ''series_id'' = JNum 10" by (simp add: series_item_def jsget_def)
  have "filter (\<lambda>item. jsget item ''series_id'' \<noteq> JNum 10) (?pre @ series_item 10 # ?post) = ?pre @ ?post"
    using other by (simp add: ten filter_id_conv)
  then show ?thesis by (simp only: series_1200_split[symmetric])
qed

text \<open>
  C3. A sync of an Xtream source whose provider lists the live stream 10 and 1,200 series
  with the distinct ids 0 to 1,199. The writer saves the live stream first. It then
  processes the 1,200 series as three chunks (500, 500 and 200), one transaction and one
  yield each, but the store ends with 1,199 rows of type series, not 1,200: the composite
  id \<open>1:10\<close> of series 10 is the id of the live stream's row, the composite id leaving
  the type out, so the statement updates that row (its name, category and data become
  the series') and leaves its type, \<open>live\<close>. Series 10 has no row of its own, and the
  live stream is stored under the series' name.
\<close>

theorem saveStreams_type_collision:
  "length series_1200 = 1200 \<and>
   distinct (map (\<lambda>item. js_String (jsget item ''series_id'')) series_1200) \<and>
   fst (syncXtream (example_world overlapping_api) example_source empty_state) = Returned () \<and>
   categories (snd (syncXtream (example_world overlapping_api) example_source empty_state)) =
     [category_row_of 1 ''live'' news_category] \<and>
   trace (snd (syncXtream (example_world overlapping_api) example_source empty_state)) =
     [Transaction 1, Yield, Transaction 1, Yield,
      Transaction 500, Yield, Transaction 500, Yield, Transaction 200, Yield] \<and>
   playlist_items (snd (syncXtream (example_world overlapping_api) example_source empty_state)) =
     (playlist_row_of 1 ''live'' cnn_item)
       \<lparr>it_name := JStr ''Show'', it_category_id := JStr ''7'', it_data := series_item 10\<rparr> #
     map (playlist_row_of 1 ''series'')
       (filter (\<lambda>item. jsget item ''series_id'' \<noteq> JNum 10) series_1200) \<and>
   length (filter (\<lambda>r. it_source_id r = 1 \<and> it_type r = ''series'')
     (playlist_items (snd (syncXtream (example_world overlapping_api) example_source empty_state)))) = 1199 \<and>
   filter (\<lambda>r. it_source_id r = 1 \<and> it_type r = ''live'')
     (playlist_items (snd (syncXtream (example_world overlapping_api) example_source empty_state))) =
     [(playlist_row_of 1 ''live'' cnn_item)
        \<lparr>it_name := JStr ''Show'', it_category_id := JStr ''7'', it_data := series_item 10\<rparr>]"
proof -
  let ?s0 = "saveCategories 1 ''live'' [news_category] empty_state"
  let ?s1 = "saveStreams 1 ''live'' [cnn_item] ?s0"
  let ?final = "saveStreams 1 ''series'' series_1200 ?s1"
  let ?row = "(playlist_row_of 1 ''live'' cnn_item)
       \<lparr>it_name := JStr ''Show'', it_category_id := JStr ''7'', it_data := series_item 10\<rparr>"
  let ?others = "filter (\<lambda>item. jsget item ''series_id'' \<noteq> JNum 10) series_1200"
  have run: "syncXtream (example_world overlapping_api) example_source empty_state = (Returned (), ?final)"
    by (simp add: syncXtream_def syncEpgFromUrl_def prog_defs example_source_def example_api_def
        example_world_def overlapping_api_def cnn_item_def news_category_def)
  have len: "length series_1200 = 1200" by (simp add: series_1200_def)
  have dist: "distinct (map (\<lambda>item. js_String (jsget item ''series_id'')) series_1200)"
    using series_1200_distinct by (simp add: map_fields_def)
  have cats: "categories ?final = [category_row_of 1 ''live'' news_category]"
    by (simp add: saveStreams_categories saveCategories_items empty_state_def)
  have t0: "trace ?s0 = [Transaction 1, Yield]"
    by (simp add: saveCategories_trace chunks_of_single empty_state_def)
  have t1: "trace ?s1 = [Transaction 1, Yield, Transaction 1, Yield]"
    by (simp only: saveStreams_trace t0 chunks_of_single) simp
  have tr: "trace ?final = [Transaction 1, Yield, Transaction 1, Yield,
      Transaction 500, Yield, Transaction 500, Yield, Transaction 200, Yield]"
    by (simp only: saveStreams_trace[of 1 "''series''" series_1200] t1 chunks_of_1200[OF len]) (simp add: len)
  have p1: "playlist_items ?s1 = [playlist_row_of 1 ''live'' cnn_item]"
    by (simp add: saveStreams_items saveCategories_playlist empty_state_def)
  have hit: "it_id (playlist_row_of 1 ''series'' (series_item 10)) = it_id (playlist_row_of 1 ''live'' cnn_item)"
    by (simp add: playlist_row_of_def map_fields_def series_item_def cnn_item_def jsget_def)
  have ids: "map (\<lambda>x. it_id (playlist_row_of 1 ''series'' x)) xs =
      map (\<lambda>item. composite_id 1 (m_itemId (map_fields ''series'' item))) xs" for xs
    by (simp add: playlist_row_of_def Let_def)
  have "distinct (map (\<lambda>item. composite_id 1 (m_itemId (map_fields ''series'' item))) series_1200)"
    using series_1200_distinct by (simp add: distinct_map inj_on_def)
  then have d: "distinct (map (\<lambda>x. it_id (playlist_row_of 1 ''series'' x))
      (take 10 series_1200 @ series_item 10 # drop 11 series_1200))"
    by (simp only: ids series_1200_split[symmetric])
  have conflict: "on_conflict (playlist_row_of 1 ''series'' (series_item 10)) (playlist_row_of 1 ''live'' cnn_item) = ?row"
    by (simp add: on_conflict_def playlist_row_of_def map_fields_def series_item_def cnn_item_def jsget_def
        JSON_stringify_def)
  have "fold (\<lambda>item. upsert_item (playlist_row_of 1 ''series'' item))
          (take 10 series_1200 @ series_item 10 # drop 11 series_1200) [playlist_row_of 1 ''live'' cnn_item] =
        ?row # map (playlist_row_of 1 ''series'') (take 10 series_1200) @
               map (playlist_row_of 1 ''series'') (drop 11 series_1200)"
    using fold_upsert_item_conflict[where f = "playlist_row_of 1 ''series''" and pre = "take 10 series_1200"
        and x = "series_item 10" and post = "drop 11 series_1200"
        and old = "playlist_row_of 1 ''live'' cnn_item", OF d hit]
    by (simp only: conflict)
  then have "fold (\<lambda>item. upsert_item (playlist_row_of 1 ''series'' item)) series_1200
          [playlist_row_of 1 ''live'' cnn_item] =
        ?row # map (playlist_row_of 1 ''series'') (take 10 series_1200 @ drop 11 series_1200)"
    by (simp only: series_1200_split[symmetric] map_append)
  then have pl: "playlist_items ?final = ?row # map (playlist_row_of 1 ''series'') ?others"
    by (simp only: saveStreams_items[of 1 "''series''" series_1200] p1 series_1200_others)
  have lo: "length ?others = 1199" by (simp add: series_1200_others len)
  have rt: "it_type ?row = ''live''" "it_source_id ?row = 1" by (simp_all add: playlist_row_of_def Let_def)
  have f1: "filter (\<lambda>r. it_source_id r = 1 \<and> it_type r = ''series'') (map (playlist_row_of 1 ''series'') xs) =
      map (playlist_row_of 1 ''series'') xs" for xs
    by (simp add: filter_id_conv playlist_row_of_def Let_def)
  have f2: "filter (\<lambda>r. it_source_id r = 1 \<and> it_type r = ''live'') (map (playlist_row_of 1 ''series'') xs) = []" for xs
    by (simp add: filter_empty_conv playlist_row_of_def Let_def)
  have n: "length (filter (\<lambda>r. it_source_id r = 1 \<and> it_type r = ''series'') (playlist_items ?final)) = 1199"
    by (simp add: pl rt f1 lo)
  have l: "filter (\<lambda>r. it_source_id r = 1 \<and> it_type r = ''live'') (playlist_items ?final) = [?row]"
    by (simp add: pl rt f2)
  from len dist cats tr pl n l show ?thesis by (simp only: run fst_conv snd_conv)
qed

subsection \<open>Reading saved items back\<close>

lemma map_of_filter_key:
  "map_of (filter (\<lambda>kv. fst kv \<noteq> k) ob) k' = (if k' = k then None else map_of ob k')"
  by (induction ob) auto

lemma jsget_jsset [simp]: "jsget (jsset k v ob) k' = (if k' = k then v else jsget ob k')"
  by (simp add: jsget_def jsset_def map_of_filter_key)

lemma upsert_item_keeps:
  "r \<in> set tbl \<Longrightarrow> it_id r \<noteq> it_id new \<Longrightarrow> r \<in> set (upsert_item new tbl)"
proof (induction tbl)
  case Nil
  then show ?case by simp
next
  case (Cons x xs)
  show ?case
  proof (cases "it_id x = it_id new")
    case True
    with Cons.prems have "r \<in> set xs" by auto
    with True show ?thesis by simp
  next
    case False
    with Cons show ?thesis by auto
  qed
qed

lemma upsert_item_others:
  "it_id new \<noteq> k \<Longrightarrow> r \<in> set (upsert_item new tbl) \<Longrightarrow> it_id r = k \<Longrightarrow> r \<in> set tbl"
proof (induction tbl)
  case Nil
  then show ?case by auto
next
  case (Cons x xs)
  show ?case
  proof (cases "it_id x = it_id new")
    case True
    with Cons.prems have "r \<in> set xs \<or> it_id r = it_id x" by auto
    with True Cons.prems show ?thesis by auto
  next
    case False
    with Cons show ?thesis by auto
  qed
qed

lemma fold_upsert_item_keeps:
  "r \<in> set tbl \<Longrightarrow> \<forall>x \<in> set xs. it_id (f x) \<noteq> it_id r \<Longrightarrow>
   r \<in> set (fold (\<lambda>x. upsert_item (f x)) xs tbl)"
proof (induction xs arbitrary: tbl)
  case Nil
  then show ?case by simp
next
  case (Cons x xs)
  have "r \<in> set (upsert_item (f x) tbl)"
    by (rule upsert_item_keeps) (use Cons.prems in auto)
  with Cons show ?case by simp
qed

lemma fold_upsert_item_others:
  "\<forall>x \<in> set xs. it_id (f x) \<noteq> k \<Longrightarrow> r \<in> set (fold (\<lambda>x. upsert_item (f x)) xs tbl) \<Longrightarrow>
   it_id r = k \<Longrightarrow> r \<in> set tbl"
proof (induction xs arbitrary: tbl)
  case Nil
  then show ?case by simp
next
  case (Cons x xs)
  have "r \<in> set (upsert_item (f x) tbl)"
    by (rule Cons.IH) (use Cons.prems in auto)
  then show ?case
    by (rule upsert_item_others[of "f x" k r tbl, rotated]) (use Cons.prems in auto)
qed

text \<open>What an upsert leaves under the id of the row it writes.\<close>

lemma upsert_item_written:
  "\<exists>r \<in> set (upsert_item new tbl).
     it_id r = it_id new \<and> it_name r = it_name new \<and> it_category_id r = it_category_id new \<and>
     it_stream_icon r = it_stream_icon new \<and> it_data r = it_data new \<and>
     (r = new \<or>
      (\<exists>old \<in> set tbl. it_id old = it_id new \<and> it_source_id r = it_source_id old \<and>
         it_type r = it_type old \<and> it_item_id r = it_item_id old \<and>
         it_is_hidden r = it_is_hidden old))"
proof (induction tbl)
  case Nil
  then show ?case by simp
next
  case (Cons x xs)
  show ?case
  proof (cases "it_id x = it_id new")
    case True
    then show ?thesis by simp
  next
    case False
    from Cons obtain r where "r \<in> set (upsert_item new xs)"
      "it_id r = it_id new \<and> it_name r = it_name new \<and> it_category_id r = it_category_id new \<and>
       it_stream_icon r = it_stream_icon new \<and> it_data r = it_data new \<and>
       (r = new \<or>
        (\<exists>old \<in> set xs. it_id old = it_id new \<and> it_source_id r = it_source_id old \<and>
           it_type r = it_type old \<and> it_item_id r = it_item_id old \<and>
           it_is_hidden r = it_is_hidden old))" by blast
    with False show ?thesis by (intro bexI[of _ r]) auto
  qed
qed

lemma saveStreams_row:
  assumes "item \<in> set items"
    and "distinct (map (\<lambda>item. js_String (m_itemId (map_fields type item))) items)"
    and "\<forall>r \<in> set (playlist_items s).
           it_id r = composite_id sourceId (m_itemId (map_fields type item)) \<longrightarrow>
           it_source_id r = sourceId \<and> it_type r = type \<and>
           it_item_id r = JStr (js_String (m_itemId (map_fields type item))) \<and>
           (includeHidden \<or> \<not> it_is_hidden r)"
  shows "\<exists>r \<in> set (playlist_items (saveStreams sourceId type items s)).
           it_source_id r = sourceId \<and> it_type r = type \<and>
           (includeHidden \<or> \<not> it_is_hidden r) \<and>
           it_item_id r = JStr (js_String (m_itemId (map_fields type item))) \<and>
           it_name r = bind_param (m_name (map_fields type item)) \<and>
           it_category_id r = JStr (js_String (m_catId (map_fields type item))) \<and>
           it_data r = JSON_stringify item"
proof -
  let ?f = "playlist_row_of sourceId type"
  let ?k = "composite_id sourceId (m_itemId (map_fields type item))"
  have id: "it_id (?f x) = composite_id sourceId (m_itemId (map_fields type x))" for x
    by (simp add: playlist_row_of_def Let_def)
  from assms(1) obtain xs ys where split: "items = xs @ item # ys"
    by (meson split_list)
  from assms(2) split have other:
    "\<forall>x \<in> set xs. it_id (?f x) \<noteq> ?k" "\<forall>x \<in> set ys. it_id (?f x) \<noteq> ?k"
    by (auto simp: id image_iff)
  let ?t1 = "fold (\<lambda>x. upsert_item (?f x)) xs (playlist_items s)"
  have before: "it_source_id r = sourceId \<and> it_type r = type \<and>
           it_item_id r = JStr (js_String (m_itemId (map_fields type item))) \<and>
           (includeHidden \<or> \<not> it_is_hidden r)" if "r \<in> set ?t1" "it_id r = ?k" for r
  proof -
    from fold_upsert_item_others[OF other(1) that] have "r \<in> set (playlist_items s)" .
    with assms(3) that(2) show ?thesis by blast
  qed
  from upsert_item_written[of "?f item" ?t1] obtain r where r: "r \<in> set (upsert_item (?f item) ?t1)"
    "it_id r = it_id (?f item)" "it_name r = it_name (?f item)"
    "it_category_id r = it_category_id (?f item)" "it_data r = it_data (?f item)"
    "r = ?f item \<or>
      (\<exists>old \<in> set ?t1. it_id old = it_id (?f item) \<and> it_source_id r = it_source_id old \<and>
         it_type r = it_type old \<and> it_item_id r = it_item_id old \<and>
         it_is_hidden r = it_is_hidden old)" by blast
  from r(6) have props: "it_source_id r = sourceId \<and> it_type r = type \<and>
           it_item_id r = JStr (js_String (m_itemId (map_fields type item))) \<and>
           (includeHidden \<or> \<not> it_is_hidden r)"
  proof
    assume "r = ?f item"
    then show ?thesis by (simp add: playlist_row_of_def Let_def)
  next
    assume "\<exists>old \<in> set ?t1. it_id old = it_id (?f item) \<and> it_source_id r = it_source_id old \<and>
         it_type r = it_type old \<and> it_item_id r = it_item_id old \<and>
         it_is_hidden r = it_is_hidden old"
    then obtain old where old: "old \<in> set ?t1" "it_id old = ?k" "it_source_id r = it_source_id old"
      "it_type r = it_type old" "it_item_id r = it_item_id old" "it_is_hidden r = it_is_hidden old"
      by (auto simp: id)
    from before[OF old(1,2)] old(3-6) show ?thesis by simp
  qed
  from other(2) r(2) have "\<forall>x \<in> set ys. it_id (?f x) \<noteq> it_id r" by (simp add: id)
  from fold_upsert_item_keeps[OF r(1) this]
  have "r \<in> set (playlist_items (saveStreams sourceId type items s))"
    by (simp add: saveStreams_items split)
  with props r(3,4,5) show ?thesis
    by (intro bexI[of _ r]) (simp_all add: playlist_row_of_def Let_def)
qed

text \<open>
  C5 (as amended). Let an item be saved by \<open>saveStreams\<close> under a source and type in an
  input whose item ids are distinct, and let every row that the store already holds
  under the item's composite id be a row of that source and type with that item id
  (and not hidden, unless hidden rows are read). Then \<open>getStreamsFromDb\<close> for that
  source and type, unfiltered or filtered by the item's own category, returns an object
  whose \<open>name\<close> is the name the field mapping extracted (\<open>undefined\<close> read back as
  null) and whose \<open>stream_id\<close> and \<open>category_id\<close> are the extracted item id and category
  id up to the conversion \<open>String(id)\<close> under which the writer stores them.
\<close>

theorem saveStreams_roundtrip:
  assumes "item \<in> set items"
    and "distinct (map (\<lambda>item. js_String (m_itemId (map_fields type item))) items)"
    and "\<forall>r \<in> set (playlist_items s).
           it_id r = composite_id sourceId (m_itemId (map_fields type item)) \<longrightarrow>
           it_source_id r = sourceId \<and> it_type r = type \<and>
           it_item_id r = JStr (js_String (m_itemId (map_fields type item))) \<and>
           (includeHidden \<or> \<not> it_is_hidden r)"
    and "\<not> truthy categoryId \<or> categoryId = JStr (js_String (m_catId (map_fields type item)))"
  shows "\<exists>out \<in> set (getStreamsFromDb (saveStreams sourceId type items s) sourceId type
                       categoryId includeHidden).
           js_String (jsget out ''stream_id'') = js_String (m_itemId (map_fields type item)) \<and>
           jsget out ''name'' = bind_param (m_name (map_fields type item)) \<and>
           js_String (jsget out ''category_id'') = js_String (m_catId (map_fields type item))"
proof -
  from saveStreams_row[OF assms(1-3)] obtain r where
    r: "r \<in> set (playlist_items (saveStreams sourceId type items s))"
      "it_source_id r = sourceId" "it_type r = type" "includeHidden \<or> \<not> it_is_hidden r"
      "it_item_id r = JStr (js_String (m_itemId (map_fields type item)))"
      "it_name r = bind_param (m_name (map_fields type item))"
      "it_category_id r = JStr (js_String (m_catId (map_fields type item)))"
    by blast
  from r(1-4,7) assms(4)
  have "stream_of_row type r \<in> set (getStreamsFromDb (saveStreams sourceId type items s) sourceId type
                       categoryId includeHidden)"
    unfolding getStreamsFromDb_def by auto
  moreover have "js_String (jsget (stream_of_row type r) ''stream_id'') = js_String (m_itemId (map_fields type item))"
    "jsget (stream_of_row type r) ''name'' = bind_param (m_name (map_fields type item))"
    "js_String (jsget (stream_of_row type r) ''category_id'') = js_String (m_catId (map_fields type item))"
    by (simp_all add: stream_of_row_def r(5-7))
  ultimately show ?thesis by blast
qed

lemmas read_defs = getStreamsFromDb_def stream_of_row_def identifying_fields_def
  playlist_row_of_def map_fields_def composite_id_def JSON_stringify_def jsget_def jsset_def

lemma example_sync_items:
  "map identifying_fields
     (getStreamsFromDb (snd (syncSource (example_world example_api) 1 empty_state)) 1 ''live''
        JUndefined False) = [(JStr ''10'', JStr ''CNN'', JStr ''1'')]"
  by (simp add: sync_defs prog_defs example_defs saveStreams_def saveCategories_def
      saveStreams_loop.simps saveCategories_loop.simps BATCH_SIZE_def slice_def yield_def
      insertBatch_def insertBatch_categories_def category_row_of_def read_defs
      number_to_string_small js_or_def)

lemmas write_defs = saveStreams_items insertBatch_def empty_state_def

theorem saveStreams_roundtrip_witness:
  "cnn_item \<in> set [cnn_item] \<and>
   distinct (map (\<lambda>item. js_String (m_itemId (map_fields ''live'' item))) [cnn_item]) \<and>
   map_fields ''live'' cnn_item =
     \<lparr>m_itemId = JNum 10, m_name = JStr ''CNN'', m_catId = JStr ''1'', m_icon = JUndefined,
      m_container = JUndefined, m_rating = JNull, m_year = JNull, m_added = JUndefined\<rparr> \<and>
   composite_id 1 (JNum 10) = ''1:10'' \<and> js_String (JNum 10) = ''10'' \<and>
   map (\<lambda>r. (it_id r, it_source_id r, it_type r, it_item_id r, it_name r, it_is_hidden r))
       (playlist_items (saveStreams 1 ''live'' [cnn_before] empty_state)) =
     [(''1:10'', 1, ''live'', JStr ''10'', JStr ''CNN International'', False)] \<and>
   \<not> truthy JUndefined \<and>
   (\<exists>out \<in> set (getStreamsFromDb (saveStreams 1 ''live'' [cnn_item]
                      (saveStreams 1 ''live'' [cnn_before] empty_state)) 1 ''live'' JUndefined False).
      js_String (jsget out ''stream_id'') = ''10'' \<and> jsget out ''name'' = JStr ''CNN'' \<and>
      js_String (jsget out ''category_id'') = ''1'') \<and>
   getLiveStreams example_api = Inr [cnn_item] \<and>
   map identifying_fields
     (getStreamsFromDb (snd (syncSource (example_world example_api) 1 empty_state)) 1 ''live''
        JUndefined False) = [(JStr ''10'', JStr ''CNN'', JStr ''1'')]"
proof -
  let ?s = "saveStreams 1 ''live'' [cnn_before] empty_state"
  have h1: "cnn_item \<in> set [cnn_item]" by simp
  have h2: "distinct (map (\<lambda>item. js_String (m_itemId (map_fields ''live'' item))) [cnn_item])" by simp
  have m: "map_fields ''live'' cnn_item =
     \<lparr>m_itemId = JNum 10, m_name = JStr ''CNN'', m_catId = JStr ''1'', m_icon = JUndefined,
      m_container = JUndefined, m_rating = JNull, m_year = JNull, m_added = JUndefined\<rparr>"
    by (simp add: map_fields_def cnn_item_def jsget_def)
  have k: "composite_id 1 (JNum 10) = ''1:10''" "js_String (JNum 10) = ''10''"
    by (simp_all add: composite_id_def number_to_string_small)
  have st: "map (\<lambda>r. (it_id r, it_source_id r, it_type r, it_item_id r, it_name r, it_is_hidden r))
       (playlist_items ?s) = [(''1:10'', 1, ''live'', JStr ''10'', JStr ''CNN International'', False)]"
    by (simp add: write_defs playlist_row_of_def map_fields_def cnn_before_def jsget_def
        composite_id_def number_to_string_small)
  then have h3: "\<forall>r \<in> set (playlist_items ?s).
           it_id r = composite_id 1 (m_itemId (map_fields ''live'' cnn_item)) \<longrightarrow>
           it_source_id r = 1 \<and> it_type r = ''live'' \<and>
           it_item_id r = JStr (js_String (m_itemId (map_fields ''live'' cnn_item))) \<and>
           (False \<or> \<not> it_is_hidden r)"
    by (auto simp: m number_to_string_small)
  have h4: "\<not> truthy JUndefined \<or> JUndefined = JStr (js_String (m_catId (map_fields ''live'' cnn_item)))"
    by simp
  from saveStreams_roundtrip[OF h1 h2 h3 h4]
  have c: "\<exists>out \<in> set (getStreamsFromDb (saveStreams 1 ''live'' [cnn_item] ?s) 1 ''live'' JUndefined False).
      js_String (jsget out ''stream_id'') = ''10'' \<and> jsget out ''name'' = JStr ''CNN'' \<and>
      js_String (jsget out ''category_id'') = ''1''"
    by (simp add: m number_to_string_small)
  have a: "getLiveStreams example_api = Inr [cnn_item]" by (simp add: example_api_def cnn_item_def)
  from h1 h2 m k st c a example_sync_items show ?thesis by simp
qed

text \<open>
  The claim as first stated fails in two ways that the code chooses. An upsert keeps
  one row per composite id: of two items of one input with the same id, only the fields
  of the later one are read back. And a row that the operator has hidden stays hidden
  when the writer updates it, so the item saved into it is read back only when hidden
  rows are asked for.
\<close>

theorem saveStreams_roundtrip_counterexample:
  "(m_name (map_fields ''live'' news_a), m_catId (map_fields ''live'' news_a)) = (JStr ''News A'', JStr ''1'') \<and>
   map (\<lambda>out. (jsget out ''name'', jsget out ''category_id''))
     (getStreamsFromDb (saveStreams 1 ''live'' [news_a, news_b] empty_state) 1 ''live'' JUndefined False)
     = [(JStr ''News B'', JStr ''2'')] \<and>
   map (\<lambda>r. (it_id r, it_source_id r, it_type r, it_is_hidden r)) (playlist_items hidden_state)
     = [(''1:10'', 1, ''live'', True)] \<and>
   getStreamsFromDb (saveStreams 1 ''live'' [cnn_item] hidden_state) 1 ''live'' JUndefined False = [] \<and>
   map (\<lambda>out. jsget out ''name'')
     (getStreamsFromDb (saveStreams 1 ''live'' [cnn_item] hidden_state) 1 ''live'' JUndefined True)
     = [JStr ''CNN'']"
  by (simp add: write_defs read_defs hidden_state_def cnn_item_def cnn_before_def news_a_def news_b_def
      number_to_string_small)


text \<open>
  The theorem above says nothing of an item whose composite id is already held by a row
  of another type: the composite id does not contain the type, and the conflict clause
  does not update it. A series saved after a live stream of the same numeric id is then
  not read back as a series, and the live stream is read back with the series' fields.
\<close>

lemma saveStreams_other_type_example:
  "getStreamsFromDb (saveStreams 1 ''series'' [show_item] (saveStreams 1 ''live'' [cnn_item] empty_state))
     1 ''series'' JUndefined False = [] \<and>
   map identifying_fields
     (getStreamsFromDb (saveStreams 1 ''series'' [show_item] (saveStreams 1 ''live'' [cnn_item] empty_state))
        1 ''live'' JUndefined False) = [(JStr ''10'', JStr ''Show'', JStr ''7'')]"
  by (simp add: write_defs read_defs cnn_item_def show_item_def number_to_string_small)

section \<open>Verification of the proxy routes\<close>

subsection \<open>The stream URL\<close>

lemma remove_trailing_slash_snoc: "remove_trailing_slash (u @ ''/'') = u"
  by (simp add: remove_trailing_slash_def)

text \<open>
  C9. For an Xtream source and a requested type \<open>live\<close>, \<open>movie\<close> or \<open>series\<close> the
  endpoint answers 200 with \<open>{url}\<close>, the url being
  \<open>base/type/username/password/streamId.container\<close>, where \<open>base\<close> is the source url
  without one trailing slash and \<open>container\<close> is the query parameter (\<open>m3u8\<close> when it
  is absent or empty). Any other type yields 400 (the router never binds an empty path
  segment to \<open>:type\<close>), and a missing or non-Xtream source yields 404.
\<close>

theorem stream_url_route_builds_url:
  "(lookup = Inr (Some source) \<longrightarrow> src_type source = ''xtream'' \<longrightarrow>
    type \<in> {''live'', ''movie'', ''series''} \<longrightarrow>
      stream_url_route lookup streamId type container =
        \<lparr>res_status = 200,
         res_body = Json [(''url'', JStr
           (remove_trailing_slash (src_url source) @ ''/'' @ type @ ''/'' @
            js_String (src_username source) @ ''/'' @ js_String (src_password source) @ ''/'' @
            streamId @ ''.'' @ or_default container ''m3u8''))]\<rparr>) \<and>
   (c \<noteq> [] \<longrightarrow> or_default (Some c) ''m3u8'' = c) \<and>
   or_default None ''m3u8'' = ''m3u8'' \<and> or_default (Some []) ''m3u8'' = ''m3u8'' \<and>
   remove_trailing_slash (u @ ''/'') = u \<and>
   (u = [] \<or> last u \<noteq> CHR ''/'' \<longrightarrow> remove_trailing_slash u = u) \<and>
   (lookup = Inr (Some source) \<longrightarrow> src_type source = ''xtream'' \<longrightarrow>
    type \<notin> {''live'', ''movie'', ''series''} \<longrightarrow> type \<noteq> [] \<longrightarrow>
      stream_url_route lookup streamId type container =
        \<lparr>res_status = 400, res_body = Json [(''error'', JStr ''Invalid stream type'')]\<rparr>) \<and>
   (lookup = Inr None \<or> (lookup = Inr (Some source) \<and> src_type source \<noteq> ''xtream'') \<longrightarrow>
      stream_url_route lookup streamId type container =
        \<lparr>res_status = 404, res_body = Json [(''error'', JStr ''Xtream source not found'')]\<rparr>)"
proof (intro conjI impI)
  assume "lookup = Inr (Some source)" "src_type source = ''xtream''"
    "type \<in> {''live'', ''movie'', ''series''}"
  then show "stream_url_route lookup streamId type container =
        \<lparr>res_status = 200,
         res_body = Json [(''url'', JStr
           (remove_trailing_slash (src_url source) @ ''/'' @ type @ ''/'' @
            js_String (src_username source) @ ''/'' @ js_String (src_password source) @ ''/'' @
            streamId @ ''.'' @ or_default container ''m3u8''))]\<rparr>"
    by (auto simp: stream_url_route_def or_default_def Let_def)
next
  assume "c \<noteq> []"
  then show "or_default (Some c) ''m3u8'' = c" by (simp add: or_default_def)
next
  show "or_default None ''m3u8'' = ''m3u8''" "or_default (Some []) ''m3u8'' = ''m3u8''"
    by (simp_all add: or_default_def)
  show "remove_trailing_slash (u @ ''/'') = u" by (rule remove_trailing_slash_snoc)
next
  assume "u = [] \<or> last u \<noteq> CHR ''/''"
  then show "remove_trailing_slash u = u" by (auto simp: remove_trailing_slash_def)
next
  assume "lookup = Inr (Some source)" "src_type source = ''xtream''"
    "type \<notin> {''live'', ''movie'', ''series''}" "type \<noteq> []"
  then show "stream_url_route lookup streamId type container =
        \<lparr>res_status = 400, res_body = Json [(''error'', JStr ''Invalid stream type'')]\<rparr>"
    by (simp add: stream_url_route_def or_default_def Let_def)
next
  assume "lookup = Inr None \<or> (lookup = Inr (Some source) \<and> src_type source \<noteq> ''xtream'')"
  then show "stream_url_route lookup streamId type container =
        \<lparr>res_status = 404, res_body = Json [(''error'', JStr ''Xtream source not found'')]\<rparr>"
    by (auto simp: stream_url_route_def)
qed

theorem stream_url_route_builds_url_witness:
  "src_type example_source = ''xtream'' \<and> src_url example_source = ''http://panel.example:8080/'' \<and>
   ''live'' \<in> {''live'', ''movie'', ''series''} \<and>
   stream_url_route (Inr (Some example_source)) ''10'' ''live'' (Some ''ts'') =
     \<lparr>res_status = 200,
      res_body = Json [(''url'', JStr ''http://panel.example:8080/live/user/pass/10.ts'')]\<rparr> \<and>
   stream_url_route (Inr (Some example_source)) ''10'' ''series'' None =
     \<lparr>res_status = 200,
      res_body = Json [(''url'', JStr ''http://panel.example:8080/series/user/pass/10.m3u8'')]\<rparr> \<and>
   ''radio'' \<notin> {''live'', ''movie'', ''series''} \<and> ''radio'' \<noteq> [] \<and>
   stream_url_route (Inr (Some example_source)) ''10'' ''radio'' (Some ''ts'') =
     \<lparr>res_status = 400, res_body = Json [(''error'', JStr ''Invalid stream type'')]\<rparr> \<and>
   src_type guide_source \<noteq> ''xtream'' \<and>
   stream_url_route (Inr (Some guide_source)) ''10'' ''live'' (Some ''ts'') =
     \<lparr>res_status = 404, res_body = Json [(''error'', JStr ''Xtream source not found'')]\<rparr> \<and>
   stream_url_route (Inr None) ''10'' ''live'' (Some ''ts'') =
     \<lparr>res_status = 404, res_body = Json [(''error'', JStr ''Xtream source not found'')]\<rparr> \<and>
   last ''http://h'' \<noteq> CHR ''/'' \<and> remove_trailing_slash ''http://h'' = ''http://h'' \<and>
   ''ts'' \<noteq> [] \<and> or_default (Some ''ts'') ''m3u8'' = ''ts'' \<and>
   remove_trailing_slash ''http://panel.example:8080/'' = ''http://panel.example:8080''"
proof -
  have s: "src_type example_source = ''xtream''" "src_url example_source = ''http://panel.example:8080/''"
    "src_username example_source = JStr ''user''" "src_password example_source = JStr ''pass''"
    "src_type guide_source \<noteq> ''xtream''"
    by (simp_all add: example_source_def guide_source_def)
  have b: "remove_trailing_slash ''http://panel.example:8080/'' = ''http://panel.example:8080''"
    using remove_trailing_slash_snoc[of "''http://panel.example:8080''"] by simp
  note A = stream_url_route_builds_url[of "Inr (Some example_source)" example_source "''live''" "''10''"
      "Some ''ts''" "''ts''" "''http://panel.example:8080''"]
  note B = stream_url_route_builds_url[of "Inr (Some example_source)" example_source "''series''" "''10''"
      None "''ts''" "''http://h''"]
  note C = stream_url_route_builds_url[of "Inr (Some example_source)" example_source "''radio''" "''10''"
      "Some ''ts''" "''ts''" "''http://h''"]
  note D = stream_url_route_builds_url[of "Inr (Some guide_source)" guide_source "''live''" "''10''"
      "Some ''ts''" "''ts''" "''http://h''"]
  note E = stream_url_route_builds_url[of "Inr None" guide_source "''live''" "''10''"
      "Some ''ts''" "''ts''" "''http://h''"]
  from A s b have a: "stream_url_route (Inr (Some example_source)) ''10'' ''live'' (Some ''ts'') =
     \<lparr>res_status = 200,
      res_body = Json [(''url'', JStr ''http://panel.example:8080/live/user/pass/10.ts'')]\<rparr>"
    by simp
  from B s b have b': "stream_url_route (Inr (Some example_source)) ''10'' ''series'' None =
     \<lparr>res_status = 200,
      res_body = Json [(''url'', JStr ''http://panel.example:8080/series/user/pass/10.m3u8'')]\<rparr>"
    by simp
  from C s have c: "stream_url_route (Inr (Some example_source)) ''10'' ''radio'' (Some ''ts'') =
     \<lparr>res_status = 400, res_body = Json [(''error'', JStr ''Invalid stream type'')]\<rparr>"
    by simp
  from D s have d: "stream_url_route (Inr (Some guide_source)) ''10'' ''live'' (Some ''ts'') =
     \<lparr>res_status = 404, res_body = Json [(''error'', JStr ''Xtream source not found'')]\<rparr>"
    by simp
  from E have e: "stream_url_route (Inr None) ''10'' ''live'' (Some ''ts'') =
     \<lparr>res_status = 404, res_body = Json [(''error'', JStr ''Xtream source not found'')]\<rparr>"
    by simp
  from E have f: "remove_trailing_slash ''http://h'' = ''http://h''" by simp
  from A have g: "or_default (Some ''ts'') ''m3u8'' = ''ts''" by simp
  from s a b b' c d e f g show ?thesis by simp
qed

subsection \<open>Upstream failures\<close>

lemmas res_defs = status_res_def end_res_def flush_def headersSent_def send_def setHeader_def fresh_res_def

lemma cached_call_failure:
  "h_response (cached_call key ttl None (Inl err)) =
     \<lparr>res_status = 502,
      res_body = Json [(''error'', JStr ''Upstream error''), (''details'', JStr (message err))]\<rparr>"
  by (simp add: cached_call_def upstream_error_def)

lemma js_empty [simp]: "js s = [] \<longleftrightarrow> s = []"
  by (simp add: js_def)

lemma js_http_prefix: "startsWith (js ''http://img.example/logo.png'') (js ''http'')"
  by (simp add: startsWith_def js_def)

text \<open>
  C8 (as amended). When the provider call of the Xtream authenticate, \<open>series_info\<close> or
  \<open>vod_info\<close> endpoint is rejected, whether the fetch failed or the answer could not be
  parsed (the source is found, nothing is cached), the answer is 502 with a JSON message
  that carries the error's text. When the upstream request of the raw stream relay emits
  \<open>error\<close> before anything was sent to the client, the client receives status 502 and
  the response is ended, with no text; that is so for a plain media url and also when a
  manifest url fell through to the relay. When the upstream request of the image proxy
  emits \<open>error\<close>, the response is ended, with status 404 when nothing was sent before.
\<close>

theorem upstream_failure_status:
  "(lookup = Inr (Some source) \<longrightarrow> src_type source = ''xtream'' \<longrightarrow>
      h_response (xtream_auth_route lookup None (Inl err)) =
        \<lparr>res_status = 502,
         res_body = Json [(''error'', JStr ''Upstream error''), (''details'', JStr (message err))]\<rparr>) \<and>
   (lookup = Inr (Some source) \<longrightarrow> param \<noteq> [] \<longrightarrow>
      h_response (series_info_route lookup (Some param) None (Inl err)) =
        \<lparr>res_status = 502,
         res_body = Json [(''error'', JStr ''Upstream error''), (''details'', JStr (message err))]\<rparr> \<and>
      h_response (vod_info_route lookup (Some param) None (Inl err)) =
        \<lparr>res_status = 502,
         res_body = Json [(''error'', JStr ''Upstream error''), (''details'', JStr (message err))]\<rparr>) \<and>
   (\<not> headersSent r \<longrightarrow>
      sent_status (stream_event (Failure m) r) = Some 502 \<and> ended (stream_event (Failure m) r) \<and>
      sent_text (stream_event (Failure m) r) = sent_text r) \<and>
   (\<not> headersSent r \<longrightarrow> sent_status (image_event (Failure m) r) = Some 404) \<and>
   ended (image_event (Failure m) r) \<and>
   (url \<noteq> [] \<longrightarrow> \<not> js_includes url (js ''.m3u8'') \<longrightarrow>
      sent_status (stream_route (Some url) protocol host fetched (Events [Failure m])) = Some 502 \<and>
      sent_text (stream_route (Some url) protocol host fetched (Events [Failure m])) = [] \<and>
      ended (stream_route (Some url) protocol host fetched (Events [Failure m]))) \<and>
   (url \<noteq> [] \<longrightarrow> rewriteM3u8 fetched url (protocol @ js ''://'' @ host @ js ''/api/proxy/stream'') = None \<longrightarrow>
      sent_status (stream_route (Some url) protocol host fetched (Events [Failure m])) = Some 502 \<and>
      sent_status (stream_route (Some url) protocol host fetched (Events [Response code hs, Failure m]))
        = Some 502) \<and>
   (url \<noteq> [] \<longrightarrow> startsWith url (js ''http'') \<longrightarrow>
      reply_status (image_route (Some url) (Events [Failure m])) = Some 404)"
proof (intro conjI impI)
  assume "lookup = Inr (Some source)" "src_type source = ''xtream''"
  then show "h_response (xtream_auth_route lookup None (Inl err)) =
        \<lparr>res_status = 502,
         res_body = Json [(''error'', JStr ''Upstream error''), (''details'', JStr (message err))]\<rparr>"
    by (simp add: xtream_auth_route_def cached_call_failure)
next
  assume a: "lookup = Inr (Some source)" "param \<noteq> []"
  then show "h_response (series_info_route lookup (Some param) None (Inl err)) =
        \<lparr>res_status = 502,
         res_body = Json [(''error'', JStr ''Upstream error''), (''details'', JStr (message err))]\<rparr>"
    by (simp add: series_info_route_def or_default_def cached_call_failure)
  from a show "h_response (vod_info_route lookup (Some param) None (Inl err)) =
        \<lparr>res_status = 502,
         res_body = Json [(''error'', JStr ''Upstream error''), (''details'', JStr (message err))]\<rparr>"
    by (simp add: vod_info_route_def or_default_def cached_call_failure)
next
  assume "\<not> headersSent r"
  then show "sent_status (stream_event (Failure m) r) = Some 502"
    "ended (stream_event (Failure m) r)" "sent_text (stream_event (Failure m) r) = sent_text r"
    by (simp_all add: res_defs)
next
  assume "\<not> headersSent r"
  then show "sent_status (image_event (Failure m) r) = Some 404"
    by (simp add: res_defs)
next
  show "ended (image_event (Failure m) r)" by (simp add: res_defs)
next
  assume "url \<noteq> []" "\<not> js_includes url (js ''.m3u8'')"
  then show "sent_status (stream_route (Some url) protocol host fetched (Events [Failure m])) = Some 502"
    "sent_text (stream_route (Some url) protocol host fetched (Events [Failure m])) = []"
    "ended (stream_route (Some url) protocol host fetched (Events [Failure m]))"
    by (simp_all add: stream_route_def Let_def res_defs)
next
  assume a: "url \<noteq> []"
    "rewriteM3u8 fetched url (protocol @ js ''://'' @ host @ js ''/api/proxy/stream'') = None"
  have sent: "sent_status (fold setHeader hs' r') = sent_status r'" for hs' r'
    by (induction hs' arbitrary: r') (simp_all add: setHeader_def)
  have code: "statusCode (fold setHeader hs' r') = statusCode r'" for hs' r'
    by (induction hs' arbitrary: r') (simp_all add: setHeader_def)
  from a show "sent_status (stream_route (Some url) protocol host fetched (Events [Failure m])) = Some 502"
    by (simp add: stream_route_def Let_def res_defs)
  from a show "sent_status (stream_route (Some url) protocol host fetched (Events [Response code hs, Failure m]))
        = Some 502"
    by (simp add: stream_route_def Let_def sent code status_res_def end_res_def flush_def headersSent_def
        fresh_res_def)
next
  assume "url \<noteq> []" "startsWith url (js ''http'')"
  then show "reply_status (image_route (Some url) (Events [Failure m])) = Some 404"
    by (simp add: image_route_def res_defs)
qed

theorem upstream_failure_status_counterexample:
  "reply_status (image_route (Some (js ''http://img.example/logo.png''))
       (Events [Failure ''connect ECONNREFUSED''])) = Some 404 \<and>
   reply_status (image_route (Some (js ''http://img.example/logo.png''))
       (Events [Failure ''connect ECONNREFUSED''])) \<noteq> Some 502 \<and>
   sent_status (stream_route (Some (js ''http://h/video.ts'')) (js ''http'') (js ''localhost:3000'')
       (Inl (Error ''unused'')) (Events [Failure ''connect ECONNREFUSED''])) = Some 502 \<and>
   sent_text (stream_route (Some (js ''http://h/video.ts'')) (js ''http'') (js ''localhost:3000'')
       (Inl (Error ''unused'')) (Events [Failure ''connect ECONNREFUSED''])) = []"
  by (simp add: image_route_def stream_route_def Let_def res_defs js_http_prefix) (simp add: js_def)

theorem upstream_failure_status_witness:
  "src_type example_source = ''xtream'' \<and>
   h_response (xtream_auth_route (Inr (Some example_source)) None (Inl (Error ''connect ETIMEDOUT''))) =
     \<lparr>res_status = 502,
      res_body = Json [(''error'', JStr ''Upstream error''), (''details'', JStr ''connect ETIMEDOUT'')]\<rparr> \<and>
   ''55'' \<noteq> [] \<and>
   h_response (series_info_route (Inr (Some example_source)) (Some ''55'') None
       (Inl (Error ''Unexpected token < in JSON at position 0''))) =
     \<lparr>res_status = 502,
      res_body = Json [(''error'', JStr ''Upstream error''),
        (''details'', JStr ''Unexpected token < in JSON at position 0'')]\<rparr> \<and>
   h_response (vod_info_route (Inr (Some example_source)) (Some ''55'') None
       (Inl (Error ''Unexpected token < in JSON at position 0''))) =
     \<lparr>res_status = 502,
      res_body = Json [(''error'', JStr ''Upstream error''),
        (''details'', JStr ''Unexpected token < in JSON at position 0'')]\<rparr> \<and>
   \<not> headersSent fresh_res \<and>
   sent_status (stream_event (Failure ''socket hang up'') fresh_res) = Some 502 \<and>
   ended (stream_event (Failure ''socket hang up'') fresh_res) \<and>
   sent_status (image_event (Failure ''socket hang up'') fresh_res) = Some 404 \<and>
   headersSent (flush fresh_res) \<and> ended (image_event (Failure ''socket hang up'') (flush fresh_res)) \<and>
   js ''http://h/video.ts'' \<noteq> [] \<and> \<not> js_includes (js ''http://h/video.ts'') (js ''.m3u8'') \<and>
   sent_status (stream_route (Some (js ''http://h/video.ts'')) (js ''http'') (js ''localhost:3000'')
       (Inl (Error ''unused'')) (Events [Failure ''socket hang up''])) = Some 502 \<and>
   sent_text (stream_route (Some (js ''http://h/video.ts'')) (js ''http'') (js ''localhost:3000'')
       (Inl (Error ''unused'')) (Events [Failure ''socket hang up''])) = [] \<and>
   js_includes (js ''http://h/live.m3u8'') (js ''.m3u8'') \<and>
   rewriteM3u8 (Inl (Error ''fetch failed'')) (js ''http://h/live.m3u8'')
       (js ''http'' @ js ''://'' @ js ''localhost:3000'' @ js ''/api/proxy/stream'') = None \<and>
   sent_status (stream_route (Some (js ''http://h/live.m3u8'')) (js ''http'') (js ''localhost:3000'')
       (Inl (Error ''fetch failed'')) (Events [Failure ''socket hang up''])) = Some 502 \<and>
   sent_status (stream_route (Some (js ''http://h/live.m3u8'')) (js ''http'') (js ''localhost:3000'')
       (Inl (Error ''fetch failed''))
       (Events [Response 200 [(''content-type'', Single (js ''video/mp2t''))], Failure ''socket hang up'']))
     = Some 502 \<and>
   startsWith (js ''http://img.example/logo.png'') (js ''http'') \<and>
   reply_status (image_route (Some (js ''http://img.example/logo.png''))
       (Events [Failure ''socket hang up''])) = Some 404"
proof -
  have h1: "src_type example_source = ''xtream''" by (simp add: example_source_def)
  have h2: "\<not> headersSent fresh_res" "headersSent (flush fresh_res)" by (simp_all add: res_defs)
  have h3: "js ''http://h/video.ts'' \<noteq> []" "js ''http://h/live.m3u8'' \<noteq> []"
    "js ''http://img.example/logo.png'' \<noteq> []" by simp_all
  have h4: "\<not> js_includes (js ''http://h/video.ts'') (js ''.m3u8'')" by (simp add: js_def)
  have h5: "js_includes (js ''http://h/live.m3u8'') (js ''.m3u8'')" by (simp add: js_def)
  have h6: "rewriteM3u8 (Inl (Error ''fetch failed'')) (js ''http://h/live.m3u8'')
       (js ''http'' @ js ''://'' @ js ''localhost:3000'' @ js ''/api/proxy/stream'') = None"
    by (simp add: rewriteM3u8_def)
  note A = upstream_failure_status[of "Inr (Some example_source)" example_source
      "Error ''connect ETIMEDOUT''" "''55''" fresh_res "''socket hang up''"
      "js ''http://h/video.ts''" "js ''http''" "js ''localhost:3000''" "Inl (Error ''unused'')"
      200 "[]"]
  note B = upstream_failure_status[of "Inr (Some example_source)" example_source
      "Error ''Unexpected token < in JSON at position 0''" "''55''" "flush fresh_res" "''socket hang up''"
      "js ''http://h/live.m3u8''" "js ''http''" "js ''localhost:3000''" "Inl (Error ''fetch failed'')"
      200 "[(''content-type'', Single (js ''video/mp2t''))]"]
  note C = upstream_failure_status[of "Inr (Some example_source)" example_source
      "Error ''connect ETIMEDOUT''" "''55''" fresh_res "''socket hang up''"
      "js ''http://img.example/logo.png''" "js ''http''" "js ''localhost:3000''" "Inl (Error ''unused'')"
      200 "[]"]
  from A h1 h2 h3 h4 have a:
   "h_response (xtream_auth_route (Inr (Some example_source)) None (Inl (Error ''connect ETIMEDOUT''))) =
     \<lparr>res_status = 502,
      res_body = Json [(''error'', JStr ''Upstream error''), (''details'', JStr ''connect ETIMEDOUT'')]\<rparr>"
   "sent_status (stream_event (Failure ''socket hang up'') fresh_res) = Some 502"
   "ended (stream_event (Failure ''socket hang up'') fresh_res)"
   "sent_status (image_event (Failure ''socket hang up'') fresh_res) = Some 404"
   "sent_status (stream_route (Some (js ''http://h/video.ts'')) (js ''http'') (js ''localhost:3000'')
       (Inl (Error ''unused'')) (Events [Failure ''socket hang up''])) = Some 502"
   "sent_text (stream_route (Some (js ''http://h/video.ts'')) (js ''http'') (js ''localhost:3000'')
       (Inl (Error ''unused'')) (Events [Failure ''socket hang up''])) = []"
    by simp_all
  from B h3 h6 have b:
   "h_response (series_info_route (Inr (Some example_source)) (Some ''55'') None
       (Inl (Error ''Unexpected token < in JSON at position 0''))) =
     \<lparr>res_status = 502,
      res_body = Json [(''error'', JStr ''Upstream error''),
        (''details'', JStr ''Unexpected token < in JSON at position 0'')]\<rparr>"
   "h_response (vod_info_route (Inr (Some example_source)) (Some ''55'') None
       (Inl (Error ''Unexpected token < in JSON at position 0''))) =
     \<lparr>res_status = 502,
      res_body = Json [(''error'', JStr ''Upstream error''),
        (''details'', JStr ''Unexpected token < in JSON at position 0'')]\<rparr>"
   "ended (image_event (Failure ''socket hang up'') (flush fresh_res))"
   "sent_status (stream_route (Some (js ''http://h/live.m3u8'')) (js ''http'') (js ''localhost:3000'')
       (Inl (Error ''fetch failed'')) (Events [Failure ''socket hang up''])) = Some 502"
   "sent_status (stream_route (Some (js ''http://h/live.m3u8'')) (js ''http'') (js ''localhost:3000'')
       (Inl (Error ''fetch failed''))
       (Events [Response 200 [(''content-type'', Single (js ''video/mp2t''))], Failure ''socket hang up'']))
     = Some 502"
    by simp_all
  from C h3 js_http_prefix have c:
   "reply_status (image_route (Some (js ''http://img.example/logo.png''))
       (Events [Failure ''socket hang up''])) = Some 404"
    by blast
  from h1 h2 h3 h4 h5 h6 js_http_prefix a b c show ?thesis by simp
qed

subsection \<open>The manifest rewriter\<close>

lemma replace_lines_run:
  "\<forall>c \<in> set line. \<not> is_line_terminator c \<Longrightarrow>
   replace_lines callback seen (line @ rest) = replace_lines callback (seen @ line) rest"
  by (induction line arbitrary: seen) simp_all

lemma replace_lines_last:
  "\<forall>c \<in> set line. \<not> is_line_terminator c \<Longrightarrow>
   replace_lines callback [] line = replace_line callback line"
  using replace_lines_run[of line callback "[]" "[]"] by simp

lemma replace_lines_line:
  "\<forall>c \<in> set line. \<not> is_line_terminator c \<Longrightarrow> is_line_terminator t \<Longrightarrow>
   replace_lines callback [] (line @ t # rest) =
     (case replace_line callback line of
        None \<Rightarrow> None
      | Some replaced \<Rightarrow> map_option (\<lambda>r. replaced @ t # r) (replace_lines callback [] rest))"
  using replace_lines_run[of line callback "[]" "t # rest"] by simp

lemmas js_eval = js_def trim_def is_white_space_def is_line_terminator_def startsWith_def
  m3u8_base_def encodeURIComponent_def encode_char_def unreserved_def utf8_def percent_def

lemmas rewrite_eval = rewriteM3u8_def replace_line_def rewrite_match_def Let_def

text \<open>
  What the rewriter does, line by line, the lines being the runs between line
  terminators, which are kept. A line that is empty or starts with \<open>#\<close> is left as it
  is. Any other line is replaced by the proxy base, \<open>?url=\<close> and the percent-encoding
  of a target: the trimmed line itself when it starts with the four characters
  \<open>http\<close>, and otherwise the manifest url up to its last slash followed by the trimmed
  line. The result is \<open>null\<close> when the encoding throws on an unpaired surrogate.
\<close>

lemma rewriteM3u8_line_by_line:
  "((\<forall>c \<in> set line. \<not> is_line_terminator c) \<longrightarrow> is_line_terminator t \<longrightarrow>
      rewriteM3u8 (Inr \<lparr>f_ok = True, f_status = code, f_text = line\<rparr>) m3u8Url proxyBase =
        replace_line (rewrite_match (m3u8_base m3u8Url) proxyBase) line \<and>
      rewriteM3u8 (Inr \<lparr>f_ok = True, f_status = code, f_text = line @ t # rest\<rparr>) m3u8Url proxyBase =
        (case replace_line (rewrite_match (m3u8_base m3u8Url) proxyBase) line of
           None \<Rightarrow> None
         | Some replaced \<Rightarrow>
             map_option (\<lambda>r. replaced @ t # r)
               (rewriteM3u8 (Inr \<lparr>f_ok = True, f_status = code, f_text = rest\<rparr>) m3u8Url proxyBase))) \<and>
   (line = [] \<or> hd line = 35 \<longrightarrow>
      replace_line (rewrite_match m3u8Base proxyBase) line = Some line) \<and>
   (line \<noteq> [] \<longrightarrow> hd line \<noteq> 35 \<longrightarrow> \<not> startsWith (trim line) (js ''http'') \<longrightarrow>
      replace_line (rewrite_match m3u8Base proxyBase) line =
        map_option (\<lambda>encoded. proxyBase @ js ''?url='' @ encoded)
          (encodeURIComponent (m3u8Base @ trim line))) \<and>
   (line \<noteq> [] \<longrightarrow> hd line \<noteq> 35 \<longrightarrow> startsWith (trim line) (js ''http'') \<longrightarrow>
      replace_line (rewrite_match m3u8Base proxyBase) line =
        map_option (\<lambda>encoded. proxyBase @ js ''?url='' @ encoded)
          (encodeURIComponent (trim line)))"
proof (intro conjI impI)
  assume l: "\<forall>c \<in> set line. \<not> is_line_terminator c" and t: "is_line_terminator t"
  have ok: "rewriteM3u8 (Inr \<lparr>f_ok = True, f_status = code, f_text = x\<rparr>) m3u8Url proxyBase =
      replace_lines (rewrite_match (m3u8_base m3u8Url) proxyBase) [] x" for x
    by (simp add: rewriteM3u8_def)
  from l show "rewriteM3u8 (Inr \<lparr>f_ok = True, f_status = code, f_text = line\<rparr>) m3u8Url proxyBase =
        replace_line (rewrite_match (m3u8_base m3u8Url) proxyBase) line"
    by (simp add: rewriteM3u8_def replace_lines_last)
  from l t show "rewriteM3u8 (Inr \<lparr>f_ok = True, f_status = code, f_text = line @ t # rest\<rparr>) m3u8Url proxyBase =
        (case replace_line (rewrite_match (m3u8_base m3u8Url) proxyBase) line of
           None \<Rightarrow> None
         | Some replaced \<Rightarrow>
             map_option (\<lambda>r. replaced @ t # r)
               (rewriteM3u8 (Inr \<lparr>f_ok = True, f_status = code, f_text = rest\<rparr>) m3u8Url proxyBase))"
    by (simp only: ok replace_lines_line)
next
  assume "line = [] \<or> hd line = 35"
  then show "replace_line (rewrite_match m3u8Base proxyBase) line = Some line"
    by (auto simp: replace_line_def)
next
  assume "line \<noteq> []" "hd line \<noteq> 35" "\<not> startsWith (trim line) (js ''http'')"
  then show "replace_line (rewrite_match m3u8Base proxyBase) line =
        map_option (\<lambda>encoded. proxyBase @ js ''?url='' @ encoded)
          (encodeURIComponent (m3u8Base @ trim line))"
    by (simp add: replace_line_def rewrite_match_def Let_def)
next
  assume "line \<noteq> []" "hd line \<noteq> 35" "startsWith (trim line) (js ''http'')"
  then show "replace_line (rewrite_match m3u8Base proxyBase) line =
        map_option (\<lambda>encoded. proxyBase @ js ''?url='' @ encoded)
          (encodeURIComponent (trim line))"
    by (simp add: replace_line_def rewrite_match_def Let_def)
qed

text \<open>
  C4. The rewriter on a manifest at \<open>http://h/path/index.m3u8\<close>, proxy base
  \<open>http://p/api/proxy/stream\<close>. The comment line is kept, \<open>seg1.ts\<close> becomes
  \<open>proxyBase?url=http%3A%2F%2Fh%2Fpath%2Fseg1.ts\<close> and the absolute
  \<open>http://cdn/x.ts\<close> is encoded unchanged, as specified; white space around a reference
  is dropped and the characters outside ASCII are encoded as UTF-8. The reference
  \<open>/abs/seg.ts\<close>, relative to the root of the manifest's host, resolves to
  \<open>http://h/abs/seg.ts\<close>, yet the rewriter encodes \<open>http://h/path//abs/seg.ts\<close>:
  it appends every line that does not start with \<open>http\<close> to the manifest's directory.
  For the same reason \<open>//cdn/a.ts\<close> (which resolves to \<open>http://cdn/a.ts\<close>) and the
  absolute \<open>ftp://cdn/a.ts\<close> and \<open>HTTP://cdn/a.ts\<close> are appended to the directory,
  and the relative \<open>httpx.ts\<close> is encoded as it stands, unresolved.
\<close>

theorem rewriteM3u8_root_relative:
  "rewriteM3u8
     (Inr \<lparr>f_ok = True, f_status = 200,
           f_text = js ''#EXTM3U'' @ [10] @ js ''seg1.ts'' @ [10] @ js ''http://cdn/x.ts'' @ [10] @
                    js ''/abs/seg.ts''\<rparr>)
     (js ''http://h/path/index.m3u8'') (js ''http://p/api/proxy/stream'') =
   Some (js ''#EXTM3U'' @ [10] @
         js ''http://p/api/proxy/stream?url=http%3A%2F%2Fh%2Fpath%2Fseg1.ts'' @ [10] @
         js ''http://p/api/proxy/stream?url=http%3A%2F%2Fcdn%2Fx.ts'' @ [10] @
         js ''http://p/api/proxy/stream?url=http%3A%2F%2Fh%2Fpath%2F%2Fabs%2Fseg.ts'') \<and>
   rewriteM3u8 (Inr \<lparr>f_ok = True, f_status = 200, f_text = js ''/abs/seg.ts''\<rparr>)
     (js ''http://h/path/index.m3u8'') (js ''http://p/api/proxy/stream'') \<noteq>
   Some (js ''http://p/api/proxy/stream?url=http%3A%2F%2Fh%2Fabs%2Fseg.ts'') \<and>
   rewriteM3u8 (Inr \<lparr>f_ok = True, f_status = 200, f_text = js ''//cdn/a.ts''\<rparr>)
     (js ''http://h/path/index.m3u8'') (js ''http://p/api/proxy/stream'') =
   Some (js ''http://p/api/proxy/stream?url=http%3A%2F%2Fh%2Fpath%2F%2F%2Fcdn%2Fa.ts'') \<and>
   rewriteM3u8 (Inr \<lparr>f_ok = True, f_status = 200, f_text = js ''ftp://cdn/a.ts''\<rparr>)
     (js ''http://h/path/index.m3u8'') (js ''http://p/api/proxy/stream'') =
   Some (js ''http://p/api/proxy/stream?url=http%3A%2F%2Fh%2Fpath%2Fftp%3A%2F%2Fcdn%2Fa.ts'') \<and>
   rewriteM3u8 (Inr \<lparr>f_ok = True, f_status = 200, f_text = js ''HTTP://cdn/a.ts''\<rparr>)
     (js ''http://h/path/index.m3u8'') (js ''http://p/api/proxy/stream'') =
   Some (js ''http://p/api/proxy/stream?url=http%3A%2F%2Fh%2Fpath%2FHTTP%3A%2F%2Fcdn%2Fa.ts'') \<and>
   rewriteM3u8 (Inr \<lparr>f_ok = True, f_status = 200, f_text = js ''httpx.ts''\<rparr>)
     (js ''http://h/path/index.m3u8'') (js ''http://p/api/proxy/stream'') =
   Some (js ''http://p/api/proxy/stream?url=httpx.ts'') \<and>
   rewriteM3u8
     (Inr \<lparr>f_ok = True, f_status = 200,
           f_text = [9, 32] @ js ''vid'' @ [233] @ js ''o/'' @ [8364, 32, 128512] @ js ''.ts'' @ [32, 13, 10]\<rparr>)
     (js ''http://h/path/index.m3u8'') (js ''http://p/api/proxy/stream'') =
   Some (js ''http://p/api/proxy/stream?url=http%3A%2F%2Fh%2Fpath%2Fvid%C3%A9o%2F%E2%82%AC%20%F0%9F%98%80.ts'' @
         [13, 10]) \<and>
   rewriteM3u8 (Inr \<lparr>f_ok = True, f_status = 200, f_text = js ''seg'' @ [55357] @ js ''.ts''\<rparr>)
     (js ''http://h/path/index.m3u8'') (js ''http://p/api/proxy/stream'') = None \<and>
   sent_text (stream_route (Some (js ''http://h/live.m3u8'')) (js ''http'') (js ''p'')
       (Inr \<lparr>f_ok = True, f_status = 200, f_text = js ''#EXTM3U'' @ [10] @ js ''chunk1.ts''\<rparr>) (Events [])) =
     js ''#EXTM3U'' @ [10] @ js ''http://p/api/proxy/stream?url=http%3A%2F%2Fh%2Fchunk1.ts''"
proof (intro conjI)
  show "rewriteM3u8
     (Inr \<lparr>f_ok = True, f_status = 200,
           f_text = js ''#EXTM3U'' @ [10] @ js ''seg1.ts'' @ [10] @ js ''http://cdn/x.ts'' @ [10] @
                    js ''/abs/seg.ts''\<rparr>)
     (js ''http://h/path/index.m3u8'') (js ''http://p/api/proxy/stream'') =
   Some (js ''#EXTM3U'' @ [10] @
         js ''http://p/api/proxy/stream?url=http%3A%2F%2Fh%2Fpath%2Fseg1.ts'' @ [10] @
         js ''http://p/api/proxy/stream?url=http%3A%2F%2Fcdn%2Fx.ts'' @ [10] @
         js ''http://p/api/proxy/stream?url=http%3A%2F%2Fh%2Fpath%2F%2Fabs%2Fseg.ts'')"
    by (simp add: rewrite_eval js_eval)
  show "rewriteM3u8 (Inr \<lparr>f_ok = True, f_status = 200, f_text = js ''/abs/seg.ts''\<rparr>)
     (js ''http://h/path/index.m3u8'') (js ''http://p/api/proxy/stream'') \<noteq>
   Some (js ''http://p/api/proxy/stream?url=http%3A%2F%2Fh%2Fabs%2Fseg.ts'')"
    by (simp add: rewrite_eval js_eval)
  show "rewriteM3u8 (Inr \<lparr>f_ok = True, f_status = 200, f_text = js ''//cdn/a.ts''\<rparr>)
     (js ''http://h/path/index.m3u8'') (js ''http://p/api/proxy/stream'') =
   Some (js ''http://p/api/proxy/stream?url=http%3A%2F%2Fh%2Fpath%2F%2F%2Fcdn%2Fa.ts'')"
    by (simp add: rewrite_eval js_eval)
  show "rewriteM3u8 (Inr \<lparr>f_ok = True, f_status = 200, f_text = js ''ftp://cdn/a.ts''\<rparr>)
     (js ''http://h/path/index.m3u8'') (js ''http://p/api/proxy/stream'') =
   Some (js ''http://p/api/proxy/stream?url=http%3A%2F%2Fh%2Fpath%2Fftp%3A%2F%2Fcdn%2Fa.ts'')"
    by (simp add: rewrite_eval js_eval)
  show "rewriteM3u8 (Inr \<lparr>f_ok = True, f_status = 200, f_text = js ''HTTP://cdn/a.ts''\<rparr>)
     (js ''http://h/path/index.m3u8'') (js ''http://p/api/proxy/stream'') =
   Some (js ''http://p/api/proxy/stream?url=http%3A%2F%2Fh%2Fpath%2FHTTP%3A%2F%2Fcdn%2Fa.ts'')"
    by (simp add: rewrite_eval js_eval)
  show "rewriteM3u8 (Inr \<lparr>f_ok = True, f_status = 200, f_text = js ''httpx.ts''\<rparr>)
     (js ''http://h/path/index.m3u8'') (js ''http://p/api/proxy/stream'') =
   Some (js ''http://p/api/proxy/stream?url=httpx.ts'')"
    by (simp add: rewrite_eval js_eval)
  show "rewriteM3u8
     (Inr \<lparr>f_ok = True, f_status = 200,
           f_text = [9, 32] @ js ''vid'' @ [233] @ js ''o/'' @ [8364, 32, 128512] @ js ''.ts'' @ [32, 13, 10]\<rparr>)
     (js ''http://h/path/index.m3u8'') (js ''http://p/api/proxy/stream'') =
   Some (js ''http://p/api/proxy/stream?url=http%3A%2F%2Fh%2Fpath%2Fvid%C3%A9o%2F%E2%82%AC%20%F0%9F%98%80.ts'' @
         [13, 10])"
    by (simp add: rewrite_eval js_eval)
  show "rewriteM3u8 (Inr \<lparr>f_ok = True, f_status = 200, f_text = js ''seg'' @ [55357] @ js ''.ts''\<rparr>)
     (js ''http://h/path/index.m3u8'') (js ''http://p/api/proxy/stream'') = None"
    by (simp add: rewrite_eval js_eval)
  show "sent_text (stream_route (Some (js ''http://h/live.m3u8'')) (js ''http'') (js ''p'')
       (Inr \<lparr>f_ok = True, f_status = 200, f_text = js ''#EXTM3U'' @ [10] @ js ''chunk1.ts''\<rparr>) (Events [])) =
     js ''#EXTM3U'' @ [10] @ js ''http://p/api/proxy/stream?url=http%3A%2F%2Fh%2Fchunk1.ts''"
    by (simp add: stream_route_def rewrite_eval js_eval res_defs)
qed

end
